(* ===== verification/Prelude.thy ===== *)
theory Prelude
  imports Main "HOL-Library.Multiset" "HOL-Library.Sublist"
begin

text \<open>
  Shared vocabulary of the development: the names of the model's types, the
  lemma collections the component theories extend, and generic facts on lists
  and association lists that the components use.  JavaScript strings are
  modelled as \<open>string\<close> (one \<open>char\<close> per byte of their UTF-8 encoding),
  JavaScript objects whose property order matters as association lists.
\<close>

named_theorems fs_simps "characteristic equations of the file-system model"
named_theorems cache_simps "characteristic equations of the metadata cache"

text \<open>A property list of a JavaScript object: keys in enumeration order.\<close>

type_synonym 'v props = "(string \<times> 'v) list"

text \<open>
  \<open>upd_prop\<close> is the object literal \<open>{...o, [k]: v}\<close>: an existing key keeps
  its position and takes the new value, a new key goes last.
\<close>

fun upd_prop :: "string \<Rightarrow> 'v \<Rightarrow> 'v props \<Rightarrow> 'v props" where
  "upd_prop k v [] = [(k, v)]"
| "upd_prop k v ((a, b) # ps) =
     (if a = k then (k, v) # ps else (a, b) # upd_prop k v ps)"

text \<open>Splitting a string at a separator character (\<open>s.split(c)\<close>).\<close>

fun split_at_char :: "char \<Rightarrow> string \<Rightarrow> string list" where
  "split_at_char c [] = [[]]"
| "split_at_char c (x # xs) =
     (if x = c then [] # split_at_char c xs
      else (case split_at_char c xs of [] \<Rightarrow> [[x]] | w # ws \<Rightarrow> (x # w) # ws))"

subsection \<open>Generic lemmas\<close>

lemma map_of_upd_prop [simp]: "map_of (upd_prop k v ps) = (map_of ps)(k \<mapsto> v)"
  by (induction ps) (auto simp: fun_eq_iff)

lemma keys_upd_prop [simp]: "map fst (upd_prop k v ps) =
  (if k \<in> set (map fst ps) then map fst ps else map fst ps @ [k])"
  by (induction ps) (auto simp: rev_image_eqI)

lemma distinct_upd_prop [intro]:
  "distinct (map fst ps) \<Longrightarrow> distinct (map fst (upd_prop k v ps))"
  by simp

lemma split_at_char_nonempty [simp]: "split_at_char c s \<noteq> []"
  by (induction s) (auto split: list.split)

lemma split_at_char_no_sep: "c \<notin> set s \<Longrightarrow> split_at_char c s = [s]"
  by (induction s) auto

lemma takeWhile_eq_all_conv_sym [simp]: "(xs = takeWhile P xs) = (\<forall>x \<in> set xs. P x)"
  by (metis takeWhile_eq_all_conv)


lemma map_of_rev_distinct: "distinct (map fst xs) \<Longrightarrow> map_of (rev xs) = map_of xs"
  by (metis distinct_rev map_of_inject_set rev_map set_rev)

lemma not_isl_Inr_projr: "\<not> isl x \<Longrightarrow> x = Inr (projr x)"
  by (cases x) auto

end
