(* ===== verification/Fs.thy ===== *)
theory Fs
  imports Prelude
begin

text \<open>
  The part of Node's \<open>fs\<close> and \<open>path\<close> modules the plugin calls, as a model of
  the runtime (not code of the repository): an absolute path is its list of
  segments, the file system a map from paths to files and directories.
  \<open>existsSync\<close>, \<open>readFileSync\<close>, \<open>writeFileSync\<close> and
  \<open>mkdirSync(p, {recursive: true})\<close> are total functions whose failures are
  values of \<open>fs_error\<close>; \<open>path.join\<close> normalises \<open>.\<close>, \<open>..\<close> and empty
  segments as the POSIX implementation does.
\<close>

type_synonym path = "string list"

datatype node = File string | Dir

type_synonym fs = "path \<Rightarrow> node option"

datatype fs_error = ENOENT path | EISDIR path | ENOTDIR path | EEXIST path

subsection \<open>Paths\<close>

text \<open>Normalisation: \<open>.\<close> and empty segments vanish, \<open>..\<close> removes the last
  segment (and stays at the root).\<close>

fun norm_segs :: "string list \<Rightarrow> string list \<Rightarrow> string list" where
  "norm_segs acc [] = rev acc"
| "norm_segs acc (s # ss) =
     (if s = [] \<or> s = ''.'' then norm_segs acc ss
      else if s = ''..'' then norm_segs (drop 1 acc) ss
      else norm_segs (s # acc) ss)"

definition join_path :: "path \<Rightarrow> string \<Rightarrow> path" where
  "join_path p s = norm_segs (rev p) (split_at_char CHR ''/'' s)"

definition path_str :: "path \<Rightarrow> string" where
  "path_str p = (if p = [] then ''/'' else concat (map (\<lambda>s. CHR ''/'' # s) p))"

text \<open>\<open>path.extname\<close> of the last segment: from its last dot, unless that dot
  is its first character.\<close>

definition extname :: "path \<Rightarrow> string" where
  "extname p =
     (if p = [] then []
      else let b = last p; i = length b - length (takeWhile (\<lambda>c. c \<noteq> CHR ''.'') (rev b)) in
        if i \<le> 1 then [] else drop (i - 1) b)"

subsection \<open>Operations\<close>

definition exists_sync :: "fs \<Rightarrow> path \<Rightarrow> bool" where
  "exists_sync f p \<longleftrightarrow> p = [] \<or> f p \<noteq> None"

definition is_dir :: "fs \<Rightarrow> path \<Rightarrow> bool" where
  "is_dir f p \<longleftrightarrow> p = [] \<or> f p = Some Dir"

definition read_file :: "fs \<Rightarrow> path \<Rightarrow> fs_error + string" where
  "read_file f p =
     (if p = [] then Inl (EISDIR p)
      else case f p of
        None \<Rightarrow> Inl (ENOENT p)
      | Some Dir \<Rightarrow> Inl (EISDIR p)
      | Some (File c) \<Rightarrow> Inr c)"

definition write_file :: "fs \<Rightarrow> path \<Rightarrow> string \<Rightarrow> fs_error + fs" where
  "write_file f p c =
     (if p = [] \<or> f p = Some Dir then Inl (EISDIR p)
      else if \<not> exists_sync f (butlast p) then Inl (ENOENT p)
      else if \<not> is_dir f (butlast p) then Inl (ENOTDIR p)
      else Inr (f(p \<mapsto> File c)))"

text \<open>\<open>mkdirSync(p, {recursive: true})\<close>: create every missing prefix; a
  prefix that is a file is an error.\<close>

fun mkdir_from :: "fs \<Rightarrow> path \<Rightarrow> string list \<Rightarrow> fs_error + fs" where
  "mkdir_from f done [] = Inr f"
| "mkdir_from f done (s # ss) =
     (let q = done @ [s] in
      case f q of
        None \<Rightarrow> mkdir_from (f(q \<mapsto> Dir)) q ss
      | Some Dir \<Rightarrow> mkdir_from f q ss
      | Some (File _) \<Rightarrow> Inl (if ss = [] then EEXIST q else ENOTDIR q))"

definition mkdir_p :: "fs \<Rightarrow> path \<Rightarrow> fs_error + fs" where
  "mkdir_p f p = mkdir_from f [] p"

text \<open>The guarded call \<open>!fs.existsSync(p) && fs.mkdirSync(p, {recursive: true})\<close>.\<close>

definition ensure_dir :: "fs \<Rightarrow> path \<Rightarrow> fs_error + fs" where
  "ensure_dir f p = (if exists_sync f p then Inr f else mkdir_p f p)"

subsection \<open>Well-formed trees\<close>

text \<open>Every entry hangs below a directory: the invariant of a real file system.\<close>

definition fs_wf :: "fs \<Rightarrow> bool" where
  "fs_wf f \<longleftrightarrow> (\<forall>p \<in> dom f. p \<noteq> [] \<and> is_dir f (butlast p))"


subsection \<open>Lemmas\<close>

lemma write_file_Inr: "write_file f q s = Inr f' \<Longrightarrow> q \<noteq> [] \<and> f' = f(q \<mapsto> File s)"
  by (auto simp: write_file_def split: if_splits)

lemma read_file_upd_other: "q \<noteq> p \<Longrightarrow> read_file (f(q \<mapsto> n)) p = read_file f p"
  by (simp add: read_file_def)

lemma read_file_upd_same: "q \<noteq> [] \<Longrightarrow> read_file (f(q \<mapsto> File s)) q = Inr s"
  by (simp add: read_file_def)

lemma mkdir_from_grows:
  "mkdir_from f dn ss = Inr f' \<Longrightarrow> f' q = f q \<or> (f q = None \<and> f' q = Some Dir)"
proof (induction ss arbitrary: f dn)
  case (Cons s ss)
  show ?case
  proof (cases "f (dn @ [s])")
    case None
    with Cons.prems have "mkdir_from (f(dn @ [s] \<mapsto> Dir)) (dn @ [s]) ss = Inr f'" by (simp add: Let_def)
    from Cons.IH [OF this] None show ?thesis by (auto split: if_splits)
  next
    case (Some n)
    with Cons.prems Cons.IH show ?thesis by (cases n) (auto simp: Let_def)
  qed
qed simp

lemma mkdir_from_target:
  "mkdir_from f dn ss = Inr f' \<Longrightarrow> ss \<noteq> [] \<Longrightarrow> f' (dn @ ss) = Some Dir"
proof (induction ss arbitrary: f dn)
  case (Cons s ss)
  show ?case
  proof (cases "ss = []")
    case True
    with Cons.prems show ?thesis by (auto simp: Let_def split: option.splits node.splits)
  next
    case False
    with Cons.prems Cons.IH [of _ "dn @ [s]"] show ?thesis
      by (auto simp: Let_def split: option.splits node.splits)
  qed
qed simp

lemma ensure_dir_grows:
  "ensure_dir f p = Inr f' \<Longrightarrow> f' q = f q \<or> (f q = None \<and> f' q = Some Dir)"
proof (cases "exists_sync f p")
  case True
  moreover assume "ensure_dir f p = Inr f'"
  ultimately show ?thesis by (simp add: ensure_dir_def)
next
  case False
  moreover assume "ensure_dir f p = Inr f'"
  ultimately have "mkdir_from f [] p = Inr f'" by (simp add: ensure_dir_def mkdir_p_def)
  then show ?thesis by (rule mkdir_from_grows)
qed

lemma ensure_dir_exists: "ensure_dir f p = Inr f' \<Longrightarrow> exists_sync f' p"
proof (cases "exists_sync f p")
  case False
  moreover assume "ensure_dir f p = Inr f'"
  ultimately have "mkdir_from f [] p = Inr f'" and "p \<noteq> []"
    by (simp_all add: ensure_dir_def mkdir_p_def exists_sync_def)
  from mkdir_from_target [OF this] show ?thesis by (simp add: exists_sync_def)
qed (simp add: ensure_dir_def)

lemma ensure_dir_again: "ensure_dir f p = Inr f' \<Longrightarrow> ensure_dir f' p = Inr f'"
proof -
  assume "ensure_dir f p = Inr f'"
  then have "exists_sync f' p" by (rule ensure_dir_exists)
  then show ?thesis by (simp add: ensure_dir_def)
qed

lemma join_path_simple:
  "CHR ''/'' \<notin> set s \<Longrightarrow> s \<noteq> [] \<Longrightarrow> s \<noteq> ''.'' \<Longrightarrow> s \<noteq> ''..'' \<Longrightarrow> join_path p s = p @ [s]"
  by (simp add: join_path_def split_at_char_no_sep)

lemma exists_sync_upd: "exists_sync f p \<Longrightarrow> exists_sync (f(q \<mapsto> x)) p"
  by (simp add: exists_sync_def)

end
