(* ===== verification/Json.thy ===== *)
theory Json
  imports Prelude
begin

text \<open>
  The runtime's \<open>JSON.stringify(v, null, 2)\<close> and \<open>JSON.parse\<close>, through which
  the metadata file \<open>_metadata.json\<close> is written and read, and the property
  order of the JavaScript objects \<open>JSON.parse\<close> builds.  Strings are byte
  strings; a number keeps the literal text it was parsed from.
\<close>

datatype json =
    JNull
  | JBool bool
  | JNum string
  | JStr string
  | JArr "json list"
  | JObj "(string \<times> json) list"

subsection \<open>Printing\<close>

definition is_digit :: "char \<Rightarrow> bool" where
  "is_digit c \<longleftrightarrow> (48::nat) \<le> of_char c \<and> of_char c \<le> (57::nat)"

definition hex_digit :: "nat \<Rightarrow> char" where
  "hex_digit n = (if n < 10 then char_of (48 + n) else char_of (87 + n))"

text \<open>The escape \<open>JSON.stringify\<close> writes for one character.\<close>

definition esc_char :: "char \<Rightarrow> string" where
  "esc_char c =
     (if c = CHR 0x22 then [CHR 0x5C, CHR 0x22]
      else if c = CHR 0x5C then [CHR 0x5C, CHR 0x5C]
      else if c = CHR 0x08 then [CHR 0x5C, CHR ''b'']
      else if c = CHR 0x0C then [CHR 0x5C, CHR ''f'']
      else if c = CHR 0x0A then [CHR 0x5C, CHR ''n'']
      else if c = CHR 0x0D then [CHR 0x5C, CHR ''r'']
      else if c = CHR 0x09 then [CHR 0x5C, CHR ''t'']
      else if of_char c < (32::nat) then
        [CHR 0x5C, CHR ''u'', CHR ''0'', CHR ''0'',
         hex_digit (of_char c div 16), hex_digit (of_char c mod 16)]
      else [c])"

definition quote :: "string \<Rightarrow> string" where
  "quote s = CHR 0x22 # concat (map esc_char s) @ [CHR 0x22]"

fun sep_by :: "string \<Rightarrow> string list \<Rightarrow> string" where
  "sep_by sep [] = []"
| "sep_by sep [x] = x"
| "sep_by sep (x # y # zs) = x @ sep @ sep_by sep (y # zs)"

text \<open>Printing with an indentation of two spaces per level; \<open>ind\<close> is the
  indentation of the line the value starts on.\<close>

fun json_print :: "string \<Rightarrow> json \<Rightarrow> string" where
  "json_print ind JNull = ''null''"
| "json_print ind (JBool b) = (if b then ''true'' else ''false'')"
| "json_print ind (JNum s) = s"
| "json_print ind (JStr s) = quote s"
| "json_print ind (JArr xs) =
     (if xs = [] then ''[]''
      else ''['' @ sep_by '','' (map (\<lambda>x. CHR 0x0A # ind @ ''  '' @ json_print (ind @ ''  '') x) xs)
           @ CHR 0x0A # ind @ '']'')"
| "json_print ind (JObj kvs) =
     (if kvs = [] then ''{}''
      else ''{'' @ sep_by '',''
             (map (\<lambda>(k, v). CHR 0x0A # ind @ ''  '' @ quote k @ '': '' @ json_print (ind @ ''  '') v) kvs)
           @ CHR 0x0A # ind @ ''}'')"

definition stringify :: "json \<Rightarrow> string" where
  "stringify v = json_print [] v"

subsection \<open>Parsing\<close>

definition is_ws :: "char \<Rightarrow> bool" where
  "is_ws c \<longleftrightarrow> c = CHR 0x20 \<or> c = CHR 0x09 \<or> c = CHR 0x0A \<or> c = CHR 0x0D"

fun skip_ws :: "string \<Rightarrow> string" where
  "skip_ws [] = []"
| "skip_ws (c # r) = (if is_ws c then skip_ws r else c # r)"

definition hex_val :: "char \<Rightarrow> nat option" where
  "hex_val c =
     (let n = of_char c in
      if 48 \<le> n \<and> n \<le> 57 then Some (n - 48)
      else if 97 \<le> n \<and> n \<le> 102 then Some (n - 87)
      else if 65 \<le> n \<and> n \<le> 70 then Some (n - 55)
      else None)"

definition hex4 :: "char \<Rightarrow> char \<Rightarrow> char \<Rightarrow> char \<Rightarrow> nat option" where
  "hex4 a b c d =
     (case (hex_val a, hex_val b, hex_val c, hex_val d) of
        (Some w, Some x, Some y, Some z) \<Rightarrow> Some (((w * 16 + x) * 16 + y) * 16 + z)
      | _ \<Rightarrow> None)"

text \<open>The UTF-8 bytes of a \<open>\u\<close> escape.  A surrogate half is outside the byte
  model and is refused.\<close>

definition utf8_enc :: "nat \<Rightarrow> string option" where
  "utf8_enc n =
     (if n < 128 then Some [char_of n]
      else if n < 2048 then Some [char_of (192 + n div 64), char_of (128 + n mod 64)]
      else if 55296 \<le> n \<and> n < 57344 then None
      else Some [char_of (224 + n div 4096), char_of (128 + (n div 64) mod 64),
                 char_of (128 + n mod 64)])"

definition simple_esc :: "char \<Rightarrow> char option" where
  "simple_esc e =
     (if e = CHR 0x22 \<or> e = CHR 0x5C \<or> e = CHR ''/'' then Some e
      else if e = CHR ''b'' then Some (CHR 0x08)
      else if e = CHR ''f'' then Some (CHR 0x0C)
      else if e = CHR ''n'' then Some (CHR 0x0A)
      else if e = CHR ''r'' then Some (CHR 0x0D)
      else if e = CHR ''t'' then Some (CHR 0x09)
      else None)"

text \<open>The body of a string literal after its opening quote: the decoded bytes
  and the input after the closing quote.\<close>

fun pstr :: "string \<Rightarrow> (string \<times> string) option" where
  "pstr [] = None"
| "pstr (c # r) =
     (if c = CHR 0x22 then Some ([], r)
      else if c = CHR 0x5C then
        (case r of
           [] \<Rightarrow> None
         | e # r1 \<Rightarrow>
             if e = CHR ''u'' then
               (case r1 of
                  a # b # x # d # r2 \<Rightarrow>
                    (case hex4 a b x d of
                       None \<Rightarrow> None
                     | Some n \<Rightarrow>
                         (case utf8_enc n of
                            None \<Rightarrow> None
                          | Some bs \<Rightarrow> map_option (\<lambda>(t, u). (bs @ t, u)) (pstr r2)))
                | _ \<Rightarrow> None)
             else (case simple_esc e of
                     None \<Rightarrow> None
                   | Some d \<Rightarrow> map_option (\<lambda>(t, u). (d # t, u)) (pstr r1)))
      else if of_char c < (32::nat) then None
      else map_option (\<lambda>(t, u). (c # t, u)) (pstr r))"

text \<open>Number literals: \<open>-? (0 | [1-9][0-9]* ) (. [0-9]+)? ([eE] [+-]? [0-9]+)?\<close>.\<close>

definition digits1 :: "string \<Rightarrow> (string \<times> string) option" where
  "digits1 s =
     (let ds = takeWhile is_digit s in
      if ds = [] then None else Some (ds, dropWhile is_digit s))"

definition scan_int :: "string \<Rightarrow> (string \<times> string) option" where
  "scan_int s =
     (case s of
        [] \<Rightarrow> None
      | c # r \<Rightarrow>
          if c = CHR ''0'' then Some (''0'', r)
          else if is_digit c then Some (c # takeWhile is_digit r, dropWhile is_digit r)
          else None)"

definition scan_frac :: "string \<Rightarrow> (string \<times> string) option" where
  "scan_frac s =
     (case s of
        c # r \<Rightarrow>
          if c = CHR ''.'' then map_option (\<lambda>(ds, t). (c # ds, t)) (digits1 r)
          else Some ([], s)
      | [] \<Rightarrow> Some ([], []))"

definition scan_exp :: "string \<Rightarrow> (string \<times> string) option" where
  "scan_exp s =
     (case s of
        c # r \<Rightarrow>
          if c = CHR ''e'' \<or> c = CHR ''E'' then
            (let (sg, r1) = (case r of
                               d # r' \<Rightarrow> if d = CHR ''+'' \<or> d = CHR ''-'' then ([d], r') else ([], r)
                             | [] \<Rightarrow> ([], []))
             in map_option (\<lambda>(ds, t). (c # sg @ ds, t)) (digits1 r1))
          else Some ([], s)
      | [] \<Rightarrow> Some ([], []))"

definition scan_unsigned :: "string \<Rightarrow> (string \<times> string) option" where
  "scan_unsigned s =
     (case scan_int s of
        None \<Rightarrow> None
      | Some (i, r1) \<Rightarrow>
          (case scan_frac r1 of
             None \<Rightarrow> None
           | Some (f, r2) \<Rightarrow>
               (case scan_exp r2 of
                  None \<Rightarrow> None
                | Some (e, r3) \<Rightarrow> Some (i @ f @ e, r3))))"

definition scan_num :: "string \<Rightarrow> (string \<times> string) option" where
  "scan_num s =
     (case s of
        c # r \<Rightarrow>
          if c = CHR ''-'' then map_option (\<lambda>(t, u). (c # t, u)) (scan_unsigned r)
          else scan_unsigned s
      | [] \<Rightarrow> None)"

text \<open>Values, array items and object members, by recursive descent; the fuel
  bounds the depth of calls and \<open>json_parse\<close> gives enough of it.\<close>

fun pval :: "nat \<Rightarrow> string \<Rightarrow> (json \<times> string) option"
and pitems :: "nat \<Rightarrow> json list \<Rightarrow> string \<Rightarrow> (json list \<times> string) option"
and pmembers :: "nat \<Rightarrow> (string \<times> json) list \<Rightarrow> string \<Rightarrow> ((string \<times> json) list \<times> string) option"
where
  "pval 0 s = None"
| "pval (Suc n) s =
     (case skip_ws s of
        [] \<Rightarrow> None
      | c # r \<Rightarrow>
          if c = CHR ''['' then
            (case skip_ws r of
               [] \<Rightarrow> None
             | d # r' \<Rightarrow>
                 if d = CHR '']'' then Some (JArr [], r')
                 else map_option (\<lambda>(xs, t). (JArr xs, t)) (pitems n [] r))
          else if c = CHR ''{'' then
            (case skip_ws r of
               [] \<Rightarrow> None
             | d # r' \<Rightarrow>
                 if d = CHR ''}'' then Some (JObj [], r')
                 else map_option (\<lambda>(kvs, t). (JObj kvs, t)) (pmembers n [] r))
          else if c = CHR 0x22 then map_option (\<lambda>(t, u). (JStr t, u)) (pstr r)
          else if take 4 (c # r) = ''null'' then Some (JNull, drop 4 (c # r))
          else if take 4 (c # r) = ''true'' then Some (JBool True, drop 4 (c # r))
          else if take 5 (c # r) = ''false'' then Some (JBool False, drop 5 (c # r))
          else map_option (\<lambda>(t, u). (JNum t, u)) (scan_num (c # r)))"
| "pitems 0 acc s = None"
| "pitems (Suc n) acc s =
     (case pval n s of
        None \<Rightarrow> None
      | Some (v, r) \<Rightarrow>
          (case skip_ws r of
             [] \<Rightarrow> None
           | c # r' \<Rightarrow>
               if c = CHR '','' then pitems n (acc @ [v]) r'
               else if c = CHR '']'' then Some (acc @ [v], r')
               else None))"
| "pmembers 0 acc s = None"
| "pmembers (Suc n) acc s =
     (case skip_ws s of
        [] \<Rightarrow> None
      | c # r \<Rightarrow>
          if c \<noteq> CHR 0x22 then None
          else (case pstr r of
                  None \<Rightarrow> None
                | Some (k, r1) \<Rightarrow>
                    (case skip_ws r1 of
                       [] \<Rightarrow> None
                     | d # r2 \<Rightarrow>
                         if d \<noteq> CHR '':'' then None
                         else (case pval n r2 of
                                 None \<Rightarrow> None
                               | Some (v, r3) \<Rightarrow>
                                   (case skip_ws r3 of
                                      [] \<Rightarrow> None
                                    | e # r4 \<Rightarrow>
                                        if e = CHR '','' then pmembers n (acc @ [(k, v)]) r4
                                        else if e = CHR ''}'' then Some (acc @ [(k, v)], r4)
                                        else None)))))"

definition json_parse :: "string \<Rightarrow> json option" where
  "json_parse s =
     (case pval (2 * length s + 1) s of
        None \<Rightarrow> None
      | Some (v, r) \<Rightarrow> if skip_ws r = [] then Some v else None)"

subsection \<open>JavaScript objects built by \<open>JSON.parse\<close>\<close>

text \<open>Decimal digits of a number, as \<open>String(n)\<close> writes them.\<close>

fun nat_str :: "nat \<Rightarrow> string" where
  "nat_str n = (if n < 10 then [char_of (48 + n)] else nat_str (n div 10) @ [char_of (48 + n mod 10)])"

declare nat_str.simps [simp del]

definition int_str :: "int \<Rightarrow> string" where
  "int_str i = (if i < 0 then CHR ''-'' # nat_str (nat (- i)) else nat_str (nat i))"

definition nat_of_digits :: "string \<Rightarrow> nat" where
  "nat_of_digits s = foldl (\<lambda>n c. 10 * n + (of_char c - 48)) 0 s"

text \<open>An array index key (\<open>"0"\<close>, \<open>"17"\<close>, below \<open>2^32 - 1\<close>): such keys are
  enumerated first, in ascending order.\<close>

definition is_index_key :: "string \<Rightarrow> bool" where
  "is_index_key k \<longleftrightarrow>
     k \<noteq> [] \<and> list_all is_digit k \<and> (k = ''0'' \<or> hd k \<noteq> CHR ''0'') \<and>
     nat_of_digits k < 4294967295"

text \<open>Assigning the members of a parsed object in order: a repeated key keeps
  its first position and its last value.\<close>

definition js_assign :: "'v props \<Rightarrow> 'v props" where
  "js_assign ps = foldl (\<lambda>acc kv. upd_prop (fst kv) (snd kv) acc) [] ps"

definition js_props :: "'v props \<Rightarrow> 'v props" where
  "js_props ps =
     (let d = js_assign ps in
      sort_key (\<lambda>kv. nat_of_digits (fst kv)) (filter (\<lambda>kv. is_index_key (fst kv)) d)
      @ filter (\<lambda>kv. \<not> is_index_key (fst kv)) d)"

text \<open>The index keys \<open>"0"\<close>, \<open>"1"\<close>, ... of an array or a string.\<close>

definition index_props :: "'v list \<Rightarrow> 'v props" where
  "index_props xs = zip (map nat_str [0..<length xs]) xs"

subsection \<open>Well-formed values\<close>

text \<open>A number literal is well formed when the scanner reads all of it;
  \<open>num_end\<close> says what may follow a literal without extending it.\<close>

definition num_lit :: "string \<Rightarrow> bool" where
  "num_lit s \<longleftrightarrow> scan_num s = Some (s, [])"

definition num_end :: "string \<Rightarrow> bool" where
  "num_end r \<longleftrightarrow> r = [] \<or> (\<not> is_digit (hd r) \<and> hd r \<noteq> CHR ''.'' \<and> hd r \<noteq> CHR ''e'' \<and> hd r \<noteq> CHR ''E'')"

fun json_ok :: "json \<Rightarrow> bool" where
  "json_ok (JNum s) = num_lit s"
| "json_ok (JArr xs) = list_all json_ok xs"
| "json_ok (JObj kvs) = list_all (\<lambda>kv. json_ok (snd kv)) kvs"
| "json_ok _ = True"

text \<open>The fuel the parser needs for a printed value.\<close>

fun jfuel :: "json \<Rightarrow> nat" where
  "jfuel (JArr xs) = Suc (sum_list (map (\<lambda>x. Suc (jfuel x)) xs))"
| "jfuel (JObj kvs) = Suc (sum_list (map (\<lambda>kv. Suc (jfuel (snd kv))) kvs))"
| "jfuel _ = 1"

definition spaces :: "string \<Rightarrow> bool" where
  "spaces ind \<longleftrightarrow> set ind \<subseteq> {CHR 0x20}"

subsection \<open>Parsing a printed value gives it back\<close>

text \<open>String bodies: every escape \<open>JSON.stringify\<close> writes decodes to the
  character it came from.\<close>

lemma hex_val_hex_digit: "k < 16 \<Longrightarrow> hex_val (hex_digit k) = Some k"
  by (auto simp: hex_val_def hex_digit_def Let_def)

lemma utf8_enc_small: "n < 128 \<Longrightarrow> utf8_enc n = Some [char_of n]"
  by (simp add: utf8_enc_def)

lemma pstr_esc_char: "pstr (esc_char c @ r) = map_option (\<lambda>(t, u). (c # t, u)) (pstr r)"
proof -
  consider "c = CHR 0x22" | "c = CHR 0x5C" | "c = CHR 0x08" | "c = CHR 0x0C" | "c = CHR 0x0A"
    | "c = CHR 0x0D" | "c = CHR 0x09"
    | "c \<notin> {CHR 0x22, CHR 0x5C, CHR 0x08, CHR 0x0C, CHR 0x0A, CHR 0x0D, CHR 0x09}" "of_char c < (32::nat)"
    | "c \<notin> {CHR 0x22, CHR 0x5C, CHR 0x08, CHR 0x0C, CHR 0x0A, CHR 0x0D, CHR 0x09}" "\<not> of_char c < (32::nat)"
    by blast
  then show ?thesis
  proof cases
    case 8
    let ?n = "of_char c :: nat"
    have z: "hex_val (CHR ''0'') = Some 0" by (simp add: hex_val_def)
    have h: "hex4 (CHR ''0'') (CHR ''0'') (hex_digit (?n div 16)) (hex_digit (?n mod 16)) = Some ?n"
      using 8(2) by (simp add: hex4_def hex_val_hex_digit z)
    have u: "utf8_enc ?n = Some [c]"
      using 8(2) by (simp add: utf8_enc_def)
    show ?thesis using 8 h u by (simp add: esc_char_def simple_esc_def)
  next
    case 9
    then show ?thesis by (simp add: esc_char_def)
  qed (simp_all add: esc_char_def simple_esc_def)
qed

lemma pstr_quoted [simp]: "pstr (concat (map esc_char s) @ CHR 0x22 # rest) = Some (s, rest)"
  by (induction s) (simp_all add: pstr_esc_char)

text \<open>Number literals: scanning a literal followed by a character that
  cannot continue it reads exactly the literal.\<close>

lemma digits1_append:
  assumes "digits1 s = Some (d, r)" and "r = [] \<Longrightarrow> num_end rest"
  shows "digits1 (s @ rest) = Some (d, r @ rest)"
proof (cases "r = []")
  case True
  with assms have d: "d = takeWhile is_digit s" "d \<noteq> []" and dw: "dropWhile is_digit s = []"
    by (auto simp: digits1_def Let_def split: if_splits)
  then have all: "\<forall>x \<in> set s. is_digit x" by (metis dropWhile_eq_Nil_conv)
  from dw d have ds: "d = s" by (metis append_Nil2 takeWhile_dropWhile_id)
  have nd: "rest = [] \<or> \<not> is_digit (hd rest)" using assms(2) True by (auto simp: num_end_def)
  have tw: "takeWhile is_digit (s @ rest) = s" and dw': "dropWhile is_digit (s @ rest) = rest"
    using all nd by (cases rest; simp add: takeWhile_append2 dropWhile_append2)+
  show ?thesis using ds d(2) True by (simp add: digits1_def tw dw')
next
  case False
  with assms have "\<exists>x \<in> set s. \<not> is_digit x"
    by (auto simp: digits1_def Let_def split: if_splits)
  with assms show ?thesis
    by (auto simp: digits1_def Let_def takeWhile_append1 dropWhile_append1 split: if_splits)
qed

lemma digits1_append_Cons:
  "digits1 (d # t) = Some (a, r) \<Longrightarrow> (r = [] \<Longrightarrow> num_end rest) \<Longrightarrow>
   digits1 (d # t @ rest) = Some (a, r @ rest)"
  using digits1_append [of "d # t"] by simp

lemma scan_int_append:
  assumes "scan_int s = Some (i, r)" and "r = [] \<Longrightarrow> num_end rest"
  shows "scan_int (s @ rest) = Some (i, r @ rest)"
proof (cases s)
  case Nil
  with assms show ?thesis by (simp add: scan_int_def)
next
  case (Cons c t)
  show ?thesis
  proof (cases "c = CHR ''0''")
    case True
    with assms Cons show ?thesis by (simp add: scan_int_def)
  next
    case False
    with assms Cons have dig: "is_digit c" and i: "i = c # takeWhile is_digit t"
      and r: "r = dropWhile is_digit t"
      by (auto simp: scan_int_def split: if_splits)
    show ?thesis
    proof (cases "r = []")
      case True
      have "\<forall>x \<in> set t. is_digit x" using r True by (metis dropWhile_eq_Nil_conv)
      moreover have "rest = [] \<or> \<not> is_digit (hd rest)" using assms(2) True by (auto simp: num_end_def)
      ultimately show ?thesis using Cons False dig i r True
        by (cases rest) (auto simp: scan_int_def takeWhile_append2 dropWhile_append2)
    next
      case nil: False
      with r have "\<exists>x \<in> set t. \<not> is_digit x"
        by (auto simp: dropWhile_eq_Nil_conv)
      with Cons False dig i r show ?thesis
        by (auto simp: scan_int_def takeWhile_append1 dropWhile_append1)
    qed
  qed
qed

lemma scan_frac_append:
  assumes "scan_frac s = Some (f, r)" and "r = [] \<Longrightarrow> num_end rest"
  shows "scan_frac (s @ rest) = Some (f, r @ rest)"
proof (cases s)
  case Nil
  with assms show ?thesis
    by (cases rest) (auto simp: scan_frac_def num_end_def)
next
  case (Cons c t)
  show ?thesis
  proof (cases "c = CHR ''.''")
    case True
    with assms Cons obtain ds where "digits1 t = Some (ds, r)" "f = c # ds"
      by (auto simp: scan_frac_def)
    with assms Cons True show ?thesis
      by (simp add: scan_frac_def digits1_append)
  next
    case False
    with assms Cons show ?thesis by (auto simp: scan_frac_def)
  qed
qed

lemma scan_exp_append:
  assumes "scan_exp s = Some (e, r)" and "r = [] \<Longrightarrow> num_end rest"
  shows "scan_exp (s @ rest) = Some (e, r @ rest)"
proof (cases s)
  case Nil
  with assms show ?thesis
    by (cases rest) (auto simp: scan_exp_def num_end_def)
next
  case (Cons c t)
  show ?thesis
  proof (cases "c = CHR ''e'' \<or> c = CHR ''E''")
    case True
    show ?thesis
    proof (cases t)
      case Nil
      with assms Cons True show ?thesis by (auto simp: scan_exp_def digits1_def)
    next
      case (Cons d t')
      with assms \<open>s = c # t\<close> True show ?thesis
        by (auto simp: scan_exp_def digits1_append_Cons digits1_append split: if_splits)
    qed
  next
    case False
    with assms Cons show ?thesis by (auto simp: scan_exp_def)
  qed
qed

lemma scan_unsigned_append:
  assumes "scan_unsigned s = Some (a, [])" and "num_end rest"
  shows "scan_unsigned (s @ rest) = Some (a, rest)"
proof -
  obtain i r1 where i: "scan_int s = Some (i, r1)"
    using assms(1) by (cases "scan_int s") (auto simp: scan_unsigned_def)
  obtain f r2 where f: "scan_frac r1 = Some (f, r2)"
    using assms(1) i by (cases "scan_frac r1") (auto simp: scan_unsigned_def)
  obtain e r3 where e: "scan_exp r2 = Some (e, r3)"
    using assms(1) i f by (cases "scan_exp r2") (auto simp: scan_unsigned_def)
  have a: "a = i @ f @ e" and r3: "r3 = []"
    using assms(1) i f e by (simp_all add: scan_unsigned_def)
  have e': "scan_exp (r2 @ rest) = Some (e, rest)"
    using scan_exp_append [OF e] assms(2) r3 by simp
  have r2: "r2 = [] \<Longrightarrow> e = []" using e by (simp add: scan_exp_def)
  have f': "scan_frac (r1 @ rest) = Some (f, r2 @ rest)"
    using scan_frac_append [OF f] assms(2) by blast
  have i': "scan_int (s @ rest) = Some (i, r1 @ rest)"
    using scan_int_append [OF i] assms(2) by blast
  show ?thesis using i' f' e' a by (simp add: scan_unsigned_def)
qed

lemma scan_num_append:
  assumes "num_lit s" and "num_end rest"
  shows "scan_num (s @ rest) = Some (s, rest)"
proof (cases s)
  case Nil
  with assms show ?thesis by (simp add: num_lit_def scan_num_def)
next
  case (Cons c t)
  show ?thesis
  proof (cases "c = CHR ''-''")
    case True
    with assms(1) Cons have "scan_unsigned t = Some (t, [])"
      by (auto simp: num_lit_def scan_num_def)
    with assms(2) Cons True show ?thesis
      by (simp add: scan_num_def scan_unsigned_append)
  next
    case False
    with assms(1) Cons have "scan_unsigned s = Some (s, [])"
      by (simp add: num_lit_def scan_num_def)
    with assms(2) Cons False show ?thesis
      using scan_unsigned_append [of s s rest] by (simp add: scan_num_def)
  qed
qed

text \<open>Whitespace, arrays and objects.\<close>

lemma skip_ws_append: "set w \<subseteq> Collect is_ws \<Longrightarrow> skip_ws (w @ s) = skip_ws s"
  by (induction w) auto

lemma spaces_ws: "spaces ind \<Longrightarrow> set ind \<subseteq> Collect is_ws"
  by (auto simp: spaces_def is_ws_def)

lemma skip_ws_nl_ind: "spaces ind \<Longrightarrow> skip_ws (CHR 0x0A # ind @ s) = skip_ws s"
  using skip_ws_append [of "CHR 0x0A # ind" s] spaces_ws [of ind] by (auto simp: is_ws_def)

lemma is_ws_simps [simp]: "is_ws (CHR 0x0A)" "is_ws (CHR 0x20)"
  by (simp_all add: is_ws_def)

lemma not_ws_simps [simp]:
  "\<not> is_ws (CHR '']'')" "\<not> is_ws (CHR ''}'')" "\<not> is_ws (CHR '','')" "\<not> is_ws (CHR '':'')"
  "\<not> is_ws (CHR 0x22)" "\<not> is_ws (CHR ''['')" "\<not> is_ws (CHR ''{'')"
  by (simp_all add: is_ws_def)

lemma skip_ws_spaces: "spaces ind \<Longrightarrow> skip_ws (ind @ s) = skip_ws s"
  using skip_ws_append spaces_ws by blast

lemma pval_skip: "skip_ws s = skip_ws t \<Longrightarrow> pval n s = pval n t"
  by (cases n) simp_all

lemma num_lit_start: "num_lit s \<Longrightarrow> \<exists>c r. s = c # r \<and> (c = CHR ''-'' \<or> is_digit c)"
  by (cases s) (auto simp: num_lit_def scan_num_def scan_unsigned_def scan_int_def is_digit_def split: if_splits option.splits)

lemma print_start:
  "json_ok v \<Longrightarrow> \<exists>c r. json_print ind v = c # r \<and> \<not> is_ws c \<and> c \<noteq> CHR '']'' \<and> c \<noteq> CHR ''}''"
  by (cases v) (auto simp: quote_def is_ws_def is_digit_def dest!: num_lit_start)

lemma skip_ws_print: "json_ok v \<Longrightarrow> skip_ws (json_print ind v @ s) = json_print ind v @ s"
  using print_start [of v ind] by auto

lemma pval_nl_ind:
  assumes "spaces ind" and "pval n (t @ r) = Some (x, r)"
  shows "pval n (CHR 0x0A # ind @ t @ r) = Some (x, r)"
proof -
  have "skip_ws (CHR 0x0A # ind @ t @ r) = skip_ws (t @ r)"
    using assms(1) by (rule skip_ws_nl_ind)
  then have "pval n (CHR 0x0A # ind @ t @ r) = pval n (t @ r)" by (rule pval_skip)
  with assms(2) show ?thesis by simp
qed

lemma num_end_nl [simp]: "num_end (CHR 0x0A # r)" and num_end_comma [simp]: "num_end (CHR '','' # r)"
  by (simp_all add: num_end_def is_digit_def)

lemma pitems_print:
  assumes IH: "\<forall>x \<in> set xs. \<forall>n rest. jfuel x \<le> n \<longrightarrow> num_end rest \<longrightarrow>
                  pval n (json_print ind' x @ rest) = Some (x, rest)"
    and sp: "spaces ind'" "spaces ind"
    and ne: "xs \<noteq> []" and fuel: "sum_list (map (\<lambda>x. Suc (jfuel x)) xs) \<le> m"
  shows "pitems m acc (sep_by '','' (map (\<lambda>x. CHR 0x0A # ind' @ json_print ind' x) xs)
           @ CHR 0x0A # ind @ CHR '']'' # rest) = Some (acc @ xs, rest)"
  using IH ne fuel
proof (induction xs arbitrary: acc m)
  case Nil
  then show ?case by simp
next
  case (Cons x xs)
  obtain m' where m: "m = Suc m'" and fx: "jfuel x \<le> m'" and fxs: "sum_list (map (\<lambda>x. Suc (jfuel x)) xs) \<le> m'"
    using Cons.prems(3) by (cases m) auto
  have px: "\<And>r. num_end r \<Longrightarrow> pval m' (CHR 0x0A # ind' @ json_print ind' x @ r) = Some (x, r)"
    using Cons.prems(1) fx sp(1) by (simp add: pval_nl_ind)
  show ?case
  proof (cases xs)
    case Nil
    have "pval m' (CHR 0x0A # ind' @ json_print ind' x @ CHR 0x0A # ind @ CHR '']'' # rest)
          = Some (x, CHR 0x0A # ind @ CHR '']'' # rest)"
      by (rule px) simp
    moreover have "skip_ws (CHR 0x0A # ind @ CHR '']'' # rest) = CHR '']'' # rest"
      using sp(2) by (simp add: skip_ws_spaces)
    ultimately show ?thesis using Nil m by simp
  next
    case (Cons y zs)
    let ?tail = "sep_by '','' (map (\<lambda>x. CHR 0x0A # ind' @ json_print ind' x) xs) @ CHR 0x0A # ind @ CHR '']'' # rest"
    have "pval m' (CHR 0x0A # ind' @ json_print ind' x @ CHR '','' # ?tail) = Some (x, CHR '','' # ?tail)"
      by (rule px) simp
    moreover have "pitems m' (acc @ [x]) ?tail = Some ((acc @ [x]) @ xs, rest)"
      using Cons.IH [where acc = "acc @ [x]" and m = m'] Cons.prems(1) fxs Cons by simp
    ultimately show ?thesis using Cons m by simp
  qed
qed

lemma pval_space [simp]: "pval n (CHR 0x20 # t) = pval n t"
  by (rule pval_skip) simp

lemma pmembers_step:
  assumes "spaces ind'" and "pval m (json_print ind' v @ r) = Some (v, r)"
  shows "pmembers (Suc m) acc (CHR 0x0A # ind' @ quote k @ '': '' @ json_print ind' v @ r) =
    (case skip_ws r of
       [] \<Rightarrow> None
     | e # r4 \<Rightarrow>
         if e = CHR '','' then pmembers m (acc @ [(k, v)]) r4
         else if e = CHR ''}'' then Some (acc @ [(k, v)], r4)
         else None)"
  using assms by (simp add: skip_ws_spaces quote_def pstr_quoted)

lemma pmembers_print:
  assumes IH: "\<forall>kv \<in> set kvs. \<forall>n rest. jfuel (snd kv) \<le> n \<longrightarrow> num_end rest \<longrightarrow>
                  pval n (json_print ind' (snd kv) @ rest) = Some (snd kv, rest)"
    and sp: "spaces ind'" "spaces ind"
    and ne: "kvs \<noteq> []" and fuel: "sum_list (map (\<lambda>kv. Suc (jfuel (snd kv))) kvs) \<le> m"
  shows "pmembers m acc (sep_by '','' (map (\<lambda>(k, v). CHR 0x0A # ind' @ quote k @ '': '' @ json_print ind' v) kvs)
           @ CHR 0x0A # ind @ CHR ''}'' # rest) = Some (acc @ kvs, rest)"
  using IH ne fuel
proof (induction kvs arbitrary: acc m)
  case Nil
  then show ?case by simp
next
  case (Cons kv kvs)
  obtain k v where kv: "kv = (k, v)" by fastforce
  obtain m' where m: "m = Suc m'" and fx: "jfuel v \<le> m'"
    and fxs: "sum_list (map (\<lambda>kv. Suc (jfuel (snd kv))) kvs) \<le> m'"
    using Cons.prems(3) kv by (cases m) auto
  have pv: "\<And>r. num_end r \<Longrightarrow> pval m' (json_print ind' v @ r) = Some (v, r)"
    using Cons.prems(1) fx kv by simp
  show ?case
  proof (cases kvs)
    case Nil
    have "skip_ws (CHR 0x0A # ind @ CHR ''}'' # rest) = CHR ''}'' # rest"
      using sp(2) by (simp add: skip_ws_spaces)
    then show ?thesis
      using pmembers_step [OF sp(1) pv [of "CHR 0x0A # ind @ CHR ''}'' # rest"], of acc k] Nil m kv by simp
  next
    case (Cons y zs)
    let ?tail = "sep_by '','' (map (\<lambda>(k, v). CHR 0x0A # ind' @ quote k @ '': '' @ json_print ind' v) kvs)
                 @ CHR 0x0A # ind @ CHR ''}'' # rest"
    have "pmembers m' (acc @ [(k, v)]) ?tail = Some ((acc @ [(k, v)]) @ kvs, rest)"
      using Cons.IH [where acc = "acc @ [(k, v)]" and m = m'] Cons.prems(1) fxs Cons by simp
    then show ?thesis
      using pmembers_step [OF sp(1) pv [of "CHR '','' # ?tail"], of acc k] Cons m kv by simp
  qed
qed

lemma sep_by_Cons: "sep_by sep (a # as) = a @ (if as = [] then [] else sep @ sep_by sep as)"
  by (cases as) simp_all

lemma spaces_more [simp]: "spaces ind \<Longrightarrow> spaces (ind @ ''  '')"
  by (simp add: spaces_def)

lemma spaces_Nil [simp]: "spaces []"
  by (simp add: spaces_def)

lemma pval_print:
  "json_ok v \<Longrightarrow> jfuel v \<le> n \<Longrightarrow> num_end rest \<Longrightarrow> spaces ind \<Longrightarrow>
   pval n (json_print ind v @ rest) = Some (v, rest)"
proof (induction v arbitrary: n rest ind)
  case (JNum s)
  obtain n' where n: "n = Suc n'" using JNum.prems(2) by (cases n) auto
  obtain c r where s: "s = c # r" and c: "c = CHR ''-'' \<or> is_digit c"
    using JNum.prems(1) num_lit_start [of s] by auto
  have sc: "scan_num (s @ rest) = Some (s, rest)"
    using JNum.prems(1,3) by (simp add: scan_num_append)
  have ws: "skip_ws (s @ rest) = s @ rest"
    using skip_ws_print [of "JNum s" ind rest] JNum.prems(1) by simp
  from c have "c \<noteq> CHR ''['' \<and> c \<noteq> CHR ''{'' \<and> c \<noteq> CHR 0x22 \<and> c \<noteq> CHR ''n'' \<and> c \<noteq> CHR ''t'' \<and> c \<noteq> CHR ''f''"
    by (auto simp: is_digit_def)
  with n s sc ws show ?case by simp
next
  case (JArr xs)
  show ?case
  proof (cases xs)
    case Nil
    with JArr.prems show ?thesis by (cases n) simp_all
  next
    case (Cons x xs')
    let ?ind' = "ind @ ''  ''"
    obtain n' where n: "n = Suc n'" and fuel: "sum_list (map (\<lambda>x. Suc (jfuel x)) xs) \<le> n'"
      using JArr.prems(2) by (cases n) auto
    have IH': "\<forall>x \<in> set xs. \<forall>n rest. jfuel x \<le> n \<longrightarrow> num_end rest \<longrightarrow>
                  pval n (json_print ?ind' x @ rest) = Some (x, rest)"
      using JArr.IH JArr.prems(1,4) by (simp add: list_all_iff)
    have items: "pitems n' [] (sep_by '','' (map (\<lambda>x. CHR 0x0A # ?ind' @ json_print ?ind' x) xs)
           @ CHR 0x0A # ind @ CHR '']'' # rest) = Some (xs, rest)"
      using pitems_print [OF IH' spaces_more [OF JArr.prems(4)] JArr.prems(4) _ fuel] Cons by simp
    obtain c r where p: "json_print ?ind' x = c # r" and c: "\<not> is_ws c" "c \<noteq> CHR '']''"
      using print_start [of x ?ind'] JArr.prems(1) Cons by auto
    have "skip_ws (sep_by '','' (map (\<lambda>x. CHR 0x0A # ?ind' @ json_print ?ind' x) xs)
           @ CHR 0x0A # ind @ CHR '']'' # rest) = c # r @ (if xs' = [] then [] else
              '','' @ sep_by '','' (map (\<lambda>x. CHR 0x0A # ?ind' @ json_print ?ind' x) xs')) @ CHR 0x0A # ind @ CHR '']'' # rest"
      using Cons p c JArr.prems(4) by (simp add: sep_by_Cons skip_ws_spaces)
    with items n c show ?thesis using Cons by simp
  qed
next
  case (JObj kvs)
  show ?case
  proof (cases kvs)
    case Nil
    with JObj.prems show ?thesis by (cases n) simp_all
  next
    case (Cons kv kvs')
    let ?ind' = "ind @ ''  ''"
    let ?f = "\<lambda>(k, v). CHR 0x0A # ?ind' @ quote k @ '': '' @ json_print ?ind' v"
    obtain n' where n: "n = Suc n'" and fuel: "sum_list (map (\<lambda>kv. Suc (jfuel (snd kv))) kvs) \<le> n'"
      using JObj.prems(2) by (cases n) auto
    have IH': "\<forall>kv \<in> set kvs. \<forall>n rest. jfuel (snd kv) \<le> n \<longrightarrow> num_end rest \<longrightarrow>
                  pval n (json_print ?ind' (snd kv) @ rest) = Some (snd kv, rest)"
      using JObj.IH JObj.prems(1,4) by (fastforce simp: list_all_iff)
    have members: "pmembers n' [] (sep_by '','' (map ?f kvs) @ CHR 0x0A # ind @ CHR ''}'' # rest) = Some (kvs, rest)"
      using pmembers_print [OF IH' spaces_more [OF JObj.prems(4)] JObj.prems(4) _ fuel] Cons by simp
    obtain k v where kv: "kv = (k, v)" by fastforce
    have "skip_ws (sep_by '','' (map ?f kvs) @ CHR 0x0A # ind @ CHR ''}'' # rest) =
          CHR 0x22 # concat (map esc_char k) @ CHR 0x22 # '': '' @ json_print ?ind' v @
            (if kvs' = [] then [] else '','' @ sep_by '','' (map ?f kvs')) @ CHR 0x0A # ind @ CHR ''}'' # rest"
      using Cons kv JObj.prems(4) by (simp add: sep_by_Cons skip_ws_spaces quote_def)
    with members n show ?thesis using Cons by simp
  qed
next
  case JNull
  then obtain n' where "n = Suc n'" by (cases n) auto
  then show ?case by (simp add: is_ws_def)
next
  case (JBool b)
  then obtain n' where "n = Suc n'" by (cases n) auto
  then show ?case by (cases b) (simp_all add: is_ws_def)
next
  case (JStr s)
  then obtain n' where "n = Suc n'" by (cases n) auto
  then show ?case by (simp add: quote_def)
qed

lemma sum_length_sep_by: "sum_list (map length xs) \<le> length (sep_by sep xs)"
  by (induction sep xs rule: sep_by.induct) auto

lemma jfuel_le_length: "json_ok v \<Longrightarrow> jfuel v \<le> length (json_print ind v)"
proof (induction v arbitrary: ind)
  case (JNum s)
  then show ?case using num_lit_start [of s] by auto
next
  case (JArr xs)
  let ?f = "\<lambda>x. CHR 0x0A # ind @ ''  '' @ json_print (ind @ ''  '') x"
  have "sum_list (map (\<lambda>x. Suc (jfuel x)) xs) \<le> sum_list (map (\<lambda>x. length (?f x)) xs)"
  proof (rule sum_list_mono)
    fix x assume x: "x \<in> set xs"
    with JArr.prems have "json_ok x" by (simp add: list_all_iff)
    with x have "jfuel x \<le> length (json_print (ind @ ''  '') x)" by (rule JArr.IH)
    then show "Suc (jfuel x) \<le> length (?f x)" by simp
  qed
  also have "\<dots> \<le> length (sep_by '','' (map ?f xs))"
    using sum_length_sep_by [of "map ?f xs" "'',''"] by (simp add: comp_def)
  finally show ?case by simp
next
  case (JObj kvs)
  let ?f = "\<lambda>(k, v). CHR 0x0A # ind @ ''  '' @ quote k @ '': '' @ json_print (ind @ ''  '') v"
  have "sum_list (map (\<lambda>kv. Suc (jfuel (snd kv))) kvs) \<le> sum_list (map (\<lambda>kv. length (?f kv)) kvs)"
  proof (rule sum_list_mono)
    fix kv assume kv: "kv \<in> set kvs"
    obtain k v where kv_eq: "kv = (k, v)" by fastforce
    with kv JObj.prems have ok: "json_ok v" by (auto simp: list_all_iff)
    have sv: "v \<in> Basic_BNFs.snds kv" using kv_eq by (simp add: prod_set_defs)
    have "jfuel v \<le> length (json_print (ind @ ''  '') v)" by (rule JObj.IH [OF kv sv ok])
    then show "Suc (jfuel (snd kv)) \<le> length (?f kv)" using kv_eq by simp
  qed
  also have "\<dots> \<le> length (sep_by '','' (map ?f kvs))"
    using sum_length_sep_by [of "map ?f kvs" "'',''"] by (simp add: comp_def)
  finally show ?case by simp
qed (simp_all add: quote_def)

lemma json_parse_stringify: "json_ok v \<Longrightarrow> json_parse (stringify v) = Some v"
proof -
  assume ok: "json_ok v"
  have fuel: "jfuel v \<le> 2 * length (json_print [] v) + 1"
    using jfuel_le_length [OF ok, of "[]"] by simp
  have "pval (2 * length (json_print [] v) + 1) (json_print [] v @ []) = Some (v, [])"
    by (rule pval_print [OF ok fuel]) (simp_all add: num_end_def)
  then show ?thesis by (simp add: json_parse_def stringify_def)
qed


subsection \<open>JavaScript objects and decimal strings\<close>

lemma foldl_upd_prop_distinct:
  "distinct (map fst acc) \<Longrightarrow> distinct (map fst (foldl (\<lambda>acc kv. upd_prop (fst kv) (snd kv) acc) acc ps))"
  by (induction ps arbitrary: acc) auto

lemma map_of_foldl_upd_prop:
  "map_of (foldl (\<lambda>acc kv. upd_prop (fst kv) (snd kv) acc) acc ps) = map_of acc ++ map_of (rev ps)"
  by (induction ps arbitrary: acc) (auto simp: map_add_def fun_eq_iff split: option.split)

lemma distinct_js_assign: "distinct (map fst (js_assign ps))"
  by (simp add: js_assign_def foldl_upd_prop_distinct)

lemma map_of_js_assign: "map_of (js_assign ps) = map_of (rev ps)"
  by (simp add: js_assign_def map_of_foldl_upd_prop)

lemma set_js_props: "set (js_props ps) = set (js_assign ps)"
  by (auto simp: js_props_def Let_def)

lemma distinct_js_props: "distinct (map fst (js_props ps))"
proof -
  let ?d = "js_assign ps"
  have d: "distinct ?d" "inj_on fst (set ?d)"
    using distinct_js_assign [of ps] by (simp_all add: distinct_map)
  have "distinct (js_props ps)"
    using d(1) by (auto simp: js_props_def Let_def)
  moreover have "inj_on fst (set (js_props ps))"
    using d(2) by (simp add: set_js_props)
  ultimately show ?thesis by (simp add: distinct_map)
qed

lemma map_of_js_props: "map_of (js_props ps) = map_of (rev ps)"
proof -
  have "map_of (js_props ps) = map_of (js_assign ps)"
    using distinct_js_props distinct_js_assign map_of_inject_set set_js_props by blast
  then show ?thesis by (simp add: map_of_js_assign)
qed

lemma set_upd_prop: "set (upd_prop k v acc) \<subseteq> insert (k, v) (set acc)"
  by (induction k v acc rule: upd_prop.induct) auto

lemma set_js_props_sub: "set (js_props ps) \<subseteq> set ps"
proof -
  have "set (foldl (\<lambda>acc kv. upd_prop (fst kv) (snd kv) acc) acc ps) \<subseteq> set acc \<union> set ps" for acc
  proof (induction ps arbitrary: acc)
    case (Cons kv ps)
    have "set (upd_prop (fst kv) (snd kv) acc) \<subseteq> set acc \<union> {kv}"
      using set_upd_prop [of "fst kv" "snd kv" acc] by auto
    with Cons.IH [of "upd_prop (fst kv) (snd kv) acc"] show ?case by auto
  qed simp
  from this [of "[]"] show ?thesis by (simp add: set_js_props js_assign_def)
qed

lemma nat_of_digits_snoc: "nat_of_digits (xs @ [c]) = 10 * nat_of_digits xs + (of_char c - 48)"
  by (simp add: nat_of_digits_def)

lemma nat_of_digits_nat_str: "nat_of_digits (nat_str n) = n"
proof (induction n rule: nat_str.induct)
  case (1 n)
  show ?case
  proof (cases "n < 10")
    case True
    then show ?thesis by (simp add: nat_of_digits_def nat_str.simps [of n])
  next
    case False
    with "1" have "nat_of_digits (nat_str (n div 10)) = n div 10" by simp
    with False show ?thesis by (simp add: nat_of_digits_snoc nat_str.simps [of n])
  qed
qed

lemma nat_str_inj: "nat_str m = nat_str n \<longleftrightarrow> m = n"
  by (metis nat_of_digits_nat_str)

lemma distinct_index_props: "distinct (map fst (index_props xs))"
  by (simp add: index_props_def distinct_map nat_str_inj inj_on_def)

lemma nat_str_digits: "list_all is_digit (nat_str n) \<and> nat_str n \<noteq> [] \<and> (n > 0 \<longrightarrow> hd (nat_str n) \<noteq> CHR ''0'')"
proof (induction n rule: nat_str.induct)
  case (1 n)
  show ?case
  proof (cases "n < 10")
    case True
    have "char_of (48 + n) \<noteq> CHR ''0''" if "0 < n"
    proof
      assume "char_of (48 + n) = CHR ''0''"
      then have "of_char (char_of (48 + n)) = (of_char (CHR ''0'') :: nat)" by simp
      with True that show False by simp
    qed
    with True show ?thesis by (auto simp: is_digit_def nat_str.simps [of n])
  next
    case False
    have "nat_str n = nat_str (n div 10) @ [char_of (48 + n mod 10)]"
      using False by (simp add: nat_str.simps [of n])
    moreover have "is_digit (char_of (48 + n mod 10))" by (simp add: is_digit_def)
    moreover have "n div 10 > 0" using False by simp
    ultimately show ?thesis using "1" False by (auto simp: hd_append)
  qed
qed

lemma char_of_48: "char_of (48::nat) = CHR ''0''"
  by code_simp

lemma scan_unsigned_nat_str: "scan_unsigned (nat_str n) = Some (nat_str n, [])"
proof -
  obtain c r where cr: "nat_str n = c # r"
    using nat_str_digits [of n] by (cases "nat_str n") auto
  have digs: "is_digit c" "list_all is_digit r"
    using nat_str_digits [of n] cr by auto
  have "scan_int (nat_str n) = Some (nat_str n, [])"
  proof (cases "c = CHR ''0''")
    case True
    then have "n = 0" using nat_str_digits [of n] cr by auto
    then have "nat_str n = ''0''" by (simp add: nat_str.simps char_of_48)
    then show ?thesis by (simp add: scan_int_def)
  next
    case False
    have "takeWhile is_digit r = r" "dropWhile is_digit r = []"
      using digs(2) by (simp_all add: list_all_iff)
    with False digs(1) cr show ?thesis by (simp add: scan_int_def)
  qed
  then show ?thesis by (simp add: scan_unsigned_def scan_frac_def scan_exp_def)
qed

lemma num_lit_int_str: "num_lit (int_str i)"
proof (cases "i < 0")
  case True
  then show ?thesis
    by (simp add: num_lit_def int_str_def scan_num_def scan_unsigned_nat_str)
next
  case False
  obtain c r where cr: "nat_str (nat i) = c # r" and c: "is_digit c"
    using nat_str_digits [of "nat i"] by (cases "nat_str (nat i)") auto
  then have "c \<noteq> CHR ''-''" by (auto simp: is_digit_def)
  with False cr scan_unsigned_nat_str [of "nat i"] show ?thesis
    by (simp add: num_lit_def int_str_def scan_num_def)
qed


lemma index_props_values: "set (map snd (index_props xs)) = set xs"
  by (simp add: index_props_def)

end
