(* ===== verification/Cache.thy ===== *)
theory Cache
  imports Fs Json
begin

text \<open>
  The metadata cache of \<open>src/src/optimizer.ts\<close> (class \<open>Cache\<close>, lines
  224-288): a file \<open>_metadata.json\<close> under the cache root that maps the
  absolute path of each generated file to the MD5 digest of its content.
  \<open>readCache\<close> returns whatever \<open>JSON.parse\<close> gives and the callers
  destructure it without a check, so the model carries a \<open>json\<close> value
  through the JavaScript operations the code applies to it (destructuring
  with a default, \<open>Object.entries\<close>, property reads, spread), each of which
  can throw a \<open>TypeError\<close>.  The digest function is a parameter: the
  properties hold for any function of the file's bytes.
\<close>

subsection \<open>State and errors\<close>

text \<open>\<open>new Cache(root)\<close>: the root and \<open>cacheFile = path.join(root, '_metadata.json')\<close>.\<close>

record cache =
  cache_root :: path
  cache_file :: path

definition new_cache :: "path \<Rightarrow> cache" where
  "new_cache r = \<lparr>cache_root = r, cache_file = join_path r ''_metadata.json''\<rparr>"

text \<open>What a call can throw: a \<open>TypeError\<close> of a property access, a failed
  file-system call, or an \<open>Error\<close> the code raises with a message.\<close>

datatype js_error = TypeError string | FsError fs_error | Thrown string

type_synonym digest = "string \<Rightarrow> string"

subsection \<open>JavaScript operations on the parsed metadata\<close>

text \<open>\<open>const { optimized = {} } = v\<close>: destructuring \<open>null\<close> throws; a
  missing property takes the default.\<close>

definition optimized_of :: "json \<Rightarrow> js_error + json" where
  "optimized_of v =
     (case v of
        JNull \<Rightarrow> Inl (TypeError ''Cannot destructure null'')
      | JObj kvs \<Rightarrow> Inr (case map_of (js_props kvs) ''optimized'' of None \<Rightarrow> JObj [] | Some w \<Rightarrow> w)
      | _ \<Rightarrow> Inr (JObj []))"

text \<open>\<open>Object.entries(o)\<close>.\<close>

definition object_entries :: "json \<Rightarrow> js_error + json props" where
  "object_entries v =
     (case v of
        JNull \<Rightarrow> Inl (TypeError ''Cannot convert null to object'')
      | JObj kvs \<Rightarrow> Inr (js_props kvs)
      | JArr xs \<Rightarrow> Inr (index_props xs)
      | JStr s \<Rightarrow> Inr (index_props (map (\<lambda>c. JStr [c]) s))
      | _ \<Rightarrow> Inr [])"

text \<open>The own properties \<open>{...o}\<close> copies: as \<open>Object.entries\<close>, but
  spreading \<open>null\<close> copies nothing.\<close>

definition spread_props :: "json \<Rightarrow> json props" where
  "spread_props v = (case object_entries v of Inl _ \<Rightarrow> [] | Inr ps \<Rightarrow> ps)"

text \<open>\<open>meta.hash\<close>: \<open>None\<close> is \<open>undefined\<close>.\<close>

definition hash_prop :: "json \<Rightarrow> js_error + json option" where
  "hash_prop v =
     (case v of
        JNull \<Rightarrow> Inl (TypeError ''Cannot read properties of null'')
      | JObj kvs \<Rightarrow> Inr (map_of (js_props kvs) ''hash'')
      | _ \<Rightarrow> Inr None)"

subsection \<open>The operations of \<open>Cache\<close>\<close>

text \<open>\<open>Cache.getHash\<close>: the digest of the file's bytes; reading can throw.\<close>

definition get_hash :: "digest \<Rightarrow> fs \<Rightarrow> path \<Rightarrow> js_error + string" where
  "get_hash md5 f p = (case read_file f p of Inl e \<Rightarrow> Inl (FsError e) | Inr c \<Rightarrow> Inr (md5 c))"

text \<open>\<open>readCache\<close>: a missing or unparsable file reads as \<open>{}\<close>.\<close>

definition read_cache :: "fs \<Rightarrow> cache \<Rightarrow> json" where
  "read_cache f c =
     (case read_file f (cache_file c) of
        Inl _ \<Rightarrow> JObj []
      | Inr s \<Rightarrow> (case json_parse s of None \<Rightarrow> JObj [] | Some v \<Rightarrow> v))"

text \<open>The loop of \<open>checkHash\<close> over the entries: \<open>filename === file &&
  hash === meta.hash\<close>, whose second operand is read only on a matching key.\<close>

fun scan_entries :: "string \<Rightarrow> string \<Rightarrow> json props \<Rightarrow> js_error + bool" where
  "scan_entries fn h [] = Inr False"
| "scan_entries fn h ((file, meta) # es) =
     (if fn = file then
        (case hash_prop meta of
           Inl e \<Rightarrow> Inl e
         | Inr hv \<Rightarrow> if hv = Some (JStr h) then Inr True else scan_entries fn h es)
      else scan_entries fn h es)"

definition check_hash :: "digest \<Rightarrow> fs \<Rightarrow> cache \<Rightarrow> path \<Rightarrow> js_error + bool" where
  "check_hash md5 f c p =
     (if \<not> exists_sync f p then Inr False
      else case get_hash md5 f p of
        Inl _ \<Rightarrow> Inr False
      | Inr h \<Rightarrow>
          (case optimized_of (read_cache f c) of
             Inl e \<Rightarrow> Inl e
           | Inr opt \<Rightarrow>
               (case object_entries opt of
                  Inl e \<Rightarrow> Inl e
                | Inr es \<Rightarrow> scan_entries (path_str p) h es)))"

text \<open>The record \<open>writeCache\<close> builds; \<open>now\<close> is \<open>Date.now()\<close>.  The key is
  an absolute path, never an array index, so it goes after the spread keys.\<close>

definition cache_record :: "int \<Rightarrow> json props \<Rightarrow> string \<Rightarrow> string \<Rightarrow> json" where
  "cache_record now old key h =
     JObj [(''timestamp'', JNum (int_str now)),
           (''optimized'', JObj (upd_prop key (JObj [(''hash'', JStr h)]) old))]"

definition write_cache :: "digest \<Rightarrow> int \<Rightarrow> fs \<Rightarrow> cache \<Rightarrow> path \<Rightarrow> js_error + fs" where
  "write_cache md5 now f c p =
     (if \<not> exists_sync f p then Inl (Thrown (path_str p @ '' is not exist!''))
      else case optimized_of (read_cache f c) of
        Inl e \<Rightarrow> Inl e
      | Inr opt \<Rightarrow>
          (case get_hash md5 f p of
             Inl e \<Rightarrow> Inl e
           | Inr h \<Rightarrow>
               (case write_file f (cache_file c)
                       (stringify (cache_record now (spread_props opt) (path_str p) h)) of
                  Inl e \<Rightarrow> Inl (FsError e)
                | Inr f' \<Rightarrow> Inr f')))"

subsection \<open>Reference behaviour\<close>

text \<open>The entry the metadata records for a key, or the \<open>TypeError\<close> that
  reaching it throws.\<close>

definition cache_lookup :: "json \<Rightarrow> string \<Rightarrow> js_error + json option" where
  "cache_lookup v key =
     (case optimized_of v of
        Inl e \<Rightarrow> Inl e
      | Inr opt \<Rightarrow> (case object_entries opt of Inl e \<Rightarrow> Inl e | Inr es \<Rightarrow> Inr (map_of es key)))"

text \<open>\<open>checkHash\<close> without its loop: look the key up, then compare.\<close>

definition check_hash_ref :: "digest \<Rightarrow> fs \<Rightarrow> cache \<Rightarrow> path \<Rightarrow> js_error + bool" where
  "check_hash_ref md5 f c p =
     (case read_file f p of
        Inl _ \<Rightarrow> Inr False
      | Inr content \<Rightarrow>
          (case cache_lookup (read_cache f c) (path_str p) of
             Inl e \<Rightarrow> Inl e
           | Inr None \<Rightarrow> Inr False
           | Inr (Some meta) \<Rightarrow> map_sum id (\<lambda>hv. hv = Some (JStr (md5 content))) (hash_prop meta)))"

subsection \<open>A concrete installation\<close>

text \<open>A cache root \<open>/nm\<close> holding one generated file, used by the witnesses.\<close>

definition ex_fs :: fs where
  "ex_fs = (Map.empty :: fs)([''nm''] \<mapsto> Dir, [''nm'', ''x''] \<mapsto> Dir,
      [''nm'', ''x'', ''index.js''] \<mapsto> File ''abc'', [''nm'', ''x'', ''index.cjs''] \<mapsto> File ''def'')"

definition ex_cache :: cache where
  "ex_cache = new_cache [''nm'']"

definition ex_path :: path where
  "ex_path = [''nm'', ''x'', ''index.js'']"

subsection \<open>Lemmas\<close>

lemma scan_entries_lookup:
  "distinct (map fst es) \<Longrightarrow> scan_entries fn h es =
     (case map_of es fn of None \<Rightarrow> Inr False
      | Some meta \<Rightarrow> map_sum id (\<lambda>hv. hv = Some (JStr h)) (hash_prop meta))"
  by (induction fn h es rule: scan_entries.induct)
     (auto split: sum.split option.split simp: map_of_eq_None_iff image_iff)

lemma object_entries_distinct: "object_entries v = Inr es \<Longrightarrow> distinct (map fst es)"
  by (cases v) (auto simp: object_entries_def distinct_js_props distinct_index_props)

lemma read_file_ok_exists: "read_file f p = Inr s \<Longrightarrow> exists_sync f p"
  by (auto simp: read_file_def exists_sync_def split: if_splits option.splits node.splits)

lemma check_hash_eq_ref: "check_hash md5 f c p = check_hash_ref md5 f c p"
proof (cases "read_file f p")
  case (Inl e)
  then show ?thesis
    by (simp add: check_hash_def check_hash_ref_def get_hash_def)
next
  case (Inr content)
  then have ex: "exists_sync f p" by (rule read_file_ok_exists)
  show ?thesis
  proof (cases "optimized_of (read_cache f c)")
    case (Inl e)
    with Inr ex show ?thesis
      by (simp add: check_hash_def check_hash_ref_def get_hash_def cache_lookup_def)
  next
    case (Inr opt)
    show ?thesis
    proof (cases "object_entries opt")
      case (Inl e)
      with \<open>optimized_of _ = Inr opt\<close> \<open>read_file f p = Inr content\<close> ex show ?thesis
        by (simp add: check_hash_def check_hash_ref_def get_hash_def cache_lookup_def)
    next
      case (Inr es)
      with \<open>optimized_of _ = Inr opt\<close> \<open>read_file f p = Inr content\<close> ex show ?thesis
        by (simp add: check_hash_def check_hash_ref_def get_hash_def cache_lookup_def
                      scan_entries_lookup object_entries_distinct split: option.split)
    qed
  qed
qed

lemma write_cache_Inr:
  "write_cache md5 now f c p = Inr f' \<Longrightarrow>
   \<exists>opt h. exists_sync f p \<and> optimized_of (read_cache f c) = Inr opt \<and> get_hash md5 f p = Inr h \<and>
     write_file f (cache_file c) (stringify (cache_record now (spread_props opt) (path_str p) h)) = Inr f'"
  by (auto simp: write_cache_def split: if_splits sum.splits)

lemma entries_ok:
  "json_ok v \<Longrightarrow> object_entries v = Inr es \<Longrightarrow> list_all (\<lambda>kv. json_ok (snd kv)) es"
proof (cases v)
  case (JObj kvs)
  moreover assume "json_ok v" "object_entries v = Inr es"
  ultimately show ?thesis
    using set_js_props_sub [of kvs] by (auto simp: object_entries_def list_all_iff)
next
  case (JArr xs)
  moreover assume "json_ok v" "object_entries v = Inr es"
  ultimately show ?thesis
    using index_props_values [of xs]
    by (auto simp: object_entries_def list_all_iff image_iff)
next
  case (JStr s)
  have "json_ok (snd kv)" if kv: "kv \<in> set (index_props (map (\<lambda>c. JStr [c]) s))" for kv
  proof -
    from kv have "snd kv \<in> set (map snd (index_props (map (\<lambda>c. JStr [c]) s)))" by simp
    then have "snd kv \<in> set (map (\<lambda>c. JStr [c]) s)" by (simp only: index_props_values)
    then show ?thesis by auto
  qed
  moreover assume "object_entries v = Inr es"
  ultimately show ?thesis using JStr by (auto simp: object_entries_def list_all_iff)
qed (auto simp: object_entries_def)

lemma optimized_ok: "json_ok v \<Longrightarrow> optimized_of v = Inr w \<Longrightarrow> json_ok w"
  by (cases v) (force simp: optimized_of_def list_all_iff map_of_js_props
                     dest!: map_of_SomeD split: option.splits)+

lemma spread_ok: "json_ok w \<Longrightarrow> list_all (\<lambda>kv. json_ok (snd kv)) (spread_props w)"
  by (auto simp: spread_props_def entries_ok split: sum.split)

lemma cache_record_ok:
  "list_all (\<lambda>kv. json_ok (snd kv)) old \<Longrightarrow> json_ok (cache_record now old key h)"
  using set_upd_prop [of key "JObj [(''hash'', JStr h)]" old]
  by (auto simp: cache_record_def num_lit_int_str list_all_iff)

lemma spread_distinct: "distinct (map fst (spread_props w))"
  by (auto simp: spread_props_def object_entries_distinct split: sum.split)

lemma write_cache_upd:
  "write_cache dg now f c p = Inr f' \<Longrightarrow> \<exists>s. f' = f(cache_file c \<mapsto> File s)"
  using write_cache_Inr write_file_Inr by blast

lemma read_cache_grows:
  assumes "f' (cache_file c) = f (cache_file c) \<or> (f (cache_file c) = None \<and> f' (cache_file c) = Some Dir)"
  shows "read_cache f' c = read_cache f c"
  using assms by (auto simp: read_cache_def read_file_def)

lemma write_cache_read_cache:
  assumes "write_cache md5 now f c p = Inr f'" and "json_ok (read_cache f c)"
  shows "\<exists>opt h. optimized_of (read_cache f c) = Inr opt \<and> get_hash md5 f p = Inr h \<and>
           read_cache f' c = cache_record now (spread_props opt) (path_str p) h"
proof -
  obtain opt h where o: "optimized_of (read_cache f c) = Inr opt" and h: "get_hash md5 f p = Inr h"
    and wf: "write_file f (cache_file c) (stringify (cache_record now (spread_props opt) (path_str p) h)) = Inr f'"
    using write_cache_Inr [OF assms(1)] by blast
  from wf have "cache_file c \<noteq> []"
    and f': "f' = f(cache_file c \<mapsto> File (stringify (cache_record now (spread_props opt) (path_str p) h)))"
    using write_file_Inr by blast+
  then have "read_cache f' c = cache_record now (spread_props opt) (path_str p) h"
    using cache_record_ok [OF spread_ok [OF optimized_ok [OF assms(2) o]]]
    by (simp add: read_cache_def read_file_upd_same json_parse_stringify)
  with o h show ?thesis by blast
qed

lemma write_cache_valid:
  assumes w: "write_cache md5 now f c p = Inr f'"
    and other: "p \<noteq> cache_file c"
    and ok: "json_ok (read_cache f c)"
  shows "check_hash md5 f' c p = Inr True"
proof -
  obtain opt h where ex: "exists_sync f p" and o: "optimized_of (read_cache f c) = Inr opt"
    and h: "get_hash md5 f p = Inr h"
    and wf: "write_file f (cache_file c) (stringify (cache_record now (spread_props opt) (path_str p) h)) = Inr f'"
    using write_cache_Inr [OF w] by blast
  let ?old = "spread_props opt"
  let ?R = "cache_record now ?old (path_str p) h"
  from wf have cf: "cache_file c \<noteq> []" and f': "f' = f(cache_file c \<mapsto> File (stringify ?R))"
    using write_file_Inr by blast+
  from h obtain content where content: "read_file f p = Inr content" and hc: "h = md5 content"
    by (auto simp: get_hash_def split: sum.splits)
  have rc: "read_cache f' c = ?R"
    using f' cf cache_record_ok [OF spread_ok [OF optimized_ok [OF ok o]]]
    by (simp add: read_cache_def read_file_upd_same json_parse_stringify)
  have dist: "distinct (map fst (upd_prop (path_str p) (JObj [(''hash'', JStr h)]) ?old))"
    using spread_distinct by blast
  have look: "cache_lookup ?R (path_str p) = Inr (Some (JObj [(''hash'', JStr h)]))"
    using dist by (simp add: cache_lookup_def cache_record_def optimized_of_def object_entries_def
                            map_of_js_props map_of_rev_distinct)
  have "read_file f' p = Inr content"
    using f' other content by (simp add: read_file_upd_other)
  then show ?thesis
    using rc look hc
    by (simp add: check_hash_eq_ref check_hash_ref_def hash_prop_def map_of_js_props)
qed

lemma new_cache_file: "cache_file (new_cache r) = r @ [''_metadata.json'']"
  by (simp add: new_cache_def join_path_simple)

lemma read_cache_upd_other: "q \<noteq> cache_file c \<Longrightarrow> read_cache (f(q \<mapsto> x)) c = read_cache f c"
  by (simp add: read_cache_def read_file_upd_other)

lemma check_hash_upd_other:
  "q \<noteq> p \<Longrightarrow> q \<noteq> cache_file c \<Longrightarrow> check_hash dg (f(q \<mapsto> x)) c p = check_hash dg f c p"
proof -
  assume qp: "q \<noteq> p" and qc: "q \<noteq> cache_file c"
  have "exists_sync (f(q \<mapsto> x)) p = exists_sync f p" using qp by (simp add: exists_sync_def)
  moreover have "get_hash dg (f(q \<mapsto> x)) p = get_hash dg f p" using qp by (simp add: get_hash_def read_file_upd_other)
  moreover have "read_cache (f(q \<mapsto> x)) c = read_cache f c" using qc by (rule read_cache_upd_other)
  ultimately show ?thesis by (simp only: check_hash_def)
qed

subsection \<open>Properties\<close>

text \<open>C7. \<open>checkHash\<close> agrees with the reference that looks the key up in the recorded entries instead of scanning them: the loop finds the one entry of the key, since the entries of a JavaScript object have distinct keys.\<close>

theorem check_hash_equiv_lookup: "check_hash md5 f c p = check_hash_ref md5 f c p"
  by (rule check_hash_eq_ref)

text \<open>C3. After \<open>writeCache(p)\<close> succeeds for a generated file \<open>p\<close> other than the metadata file, \<open>checkHash(p)\<close> returns true: the digest just recorded is found again through \<open>JSON.stringify\<close>, the file system and \<open>JSON.parse\<close>.\<close>

theorem write_cache_check_hash:
  assumes "write_cache md5 now f c p = Inr f'"
    and "p \<noteq> cache_file c"
    and "json_ok (read_cache f c)"
  shows "check_hash md5 f' c p = Inr True"
  using assms by (rule write_cache_valid)

theorem write_cache_check_hash_witness:
  "\<exists>f'. write_cache rev 5 ex_fs ex_cache ex_path = Inr f' \<and> ex_path \<noteq> cache_file ex_cache \<and>
        json_ok (read_cache ex_fs ex_cache) \<and> check_hash rev f' ex_cache ex_path = Inr True"
proof -
  have "isl (write_cache rev 5 ex_fs ex_cache ex_path) = False" by code_simp
  then obtain f' where w: "write_cache rev 5 ex_fs ex_cache ex_path = Inr f'"
    by (cases "write_cache rev 5 ex_fs ex_cache ex_path") auto
  have ne: "ex_path \<noteq> cache_file ex_cache" by code_simp
  have ok: "json_ok (read_cache ex_fs ex_cache)" by code_simp
  show ?thesis using w ne ok write_cache_check_hash [OF w ne ok] by blast
qed

text \<open>C20. \<open>writeCache(p)\<close> merges: the entry of every other key that could be read before is read unchanged afterwards.\<close>

theorem write_cache_keeps_entries:
  assumes w: "write_cache md5 now f c p = Inr f'" and ok: "json_ok (read_cache f c)"
    and key: "key \<noteq> path_str p" and old: "cache_lookup (read_cache f c) key = Inr r"
  shows "cache_lookup (read_cache f' c) key = Inr r"
proof -
  obtain opt h where o: "optimized_of (read_cache f c) = Inr opt"
    and rc: "read_cache f' c = cache_record now (spread_props opt) (path_str p) h"
    using write_cache_read_cache [OF w ok] by blast
  from old o obtain es where es: "object_entries opt = Inr es" and r: "r = map_of es key"
    by (auto simp: cache_lookup_def split: sum.splits)
  have sp: "spread_props opt = es" using es by (simp add: spread_props_def)
  have "distinct (map fst (upd_prop (path_str p) (JObj [(''hash'', JStr h)]) es))"
    using object_entries_distinct [OF es] by blast
  then show ?thesis
    using rc sp r key
    by (simp add: cache_lookup_def cache_record_def optimized_of_def object_entries_def
                  map_of_js_props map_of_rev_distinct)
qed

theorem write_cache_keeps_entries_witness:
  "write_cache rev 6 (projr (write_cache rev 5 ex_fs ex_cache ex_path)) ex_cache [''nm'', ''x'', ''index.cjs'']
     = Inr (projr (write_cache rev 6 (projr (write_cache rev 5 ex_fs ex_cache ex_path)) ex_cache [''nm'', ''x'', ''index.cjs''])) \<and>
   json_ok (read_cache (projr (write_cache rev 5 ex_fs ex_cache ex_path)) ex_cache) \<and>
   path_str ex_path \<noteq> path_str [''nm'', ''x'', ''index.cjs''] \<and>
   cache_lookup (read_cache (projr (write_cache rev 5 ex_fs ex_cache ex_path)) ex_cache) (path_str ex_path)
     = Inr (Some (JObj [(''hash'', JStr ''cba'')])) \<and>
   cache_lookup (read_cache (projr (write_cache rev 6 (projr (write_cache rev 5 ex_fs ex_cache ex_path)) ex_cache [''nm'', ''x'', ''index.cjs''])) ex_cache) (path_str ex_path)
     = Inr (Some (JObj [(''hash'', JStr ''cba'')]))"
proof -
  let ?f1 = "projr (write_cache rev 5 ex_fs ex_cache ex_path)"
  let ?q = "[''nm'', ''x'', ''index.cjs'']"
  let ?f2 = "projr (write_cache rev 6 ?f1 ex_cache ?q)"
  have "\<not> isl (write_cache rev 6 ?f1 ex_cache ?q)" by code_simp
  then have w: "write_cache rev 6 ?f1 ex_cache ?q = Inr ?f2" by (rule not_isl_Inr_projr)
  have ok: "json_ok (read_cache ?f1 ex_cache)" by code_simp
  have k: "path_str ex_path \<noteq> path_str ?q" by code_simp
  have l: "cache_lookup (read_cache ?f1 ex_cache) (path_str ex_path) = Inr (Some (JObj [(''hash'', JStr ''cba'')]))"
    by code_simp
  show ?thesis using w ok k l write_cache_keeps_entries [OF w ok k l] by blast
qed

text \<open>C21. \<open>writeCache\<close> changes no file but the metadata file.\<close>

theorem write_cache_frame:
  "write_cache md5 now f c p = Inr f' \<Longrightarrow> q \<noteq> cache_file c \<Longrightarrow> f' q = f q"
  using write_cache_Inr write_file_Inr by fastforce

theorem write_cache_frame_witness:
  "write_cache rev 5 ex_fs ex_cache ex_path = Inr (projr (write_cache rev 5 ex_fs ex_cache ex_path)) \<and>
   ex_path \<noteq> cache_file ex_cache \<and>
   projr (write_cache rev 5 ex_fs ex_cache ex_path) ex_path = ex_fs ex_path"
proof -
  have "\<not> isl (write_cache rev 5 ex_fs ex_cache ex_path)" by code_simp
  then have w: "write_cache rev 5 ex_fs ex_cache ex_path = Inr (projr (write_cache rev 5 ex_fs ex_cache ex_path))"
    by (rule not_isl_Inr_projr)
  have ne: "ex_path \<noteq> cache_file ex_cache" by code_simp
  show ?thesis using w ne write_cache_frame [OF w ne] by blast
qed

text \<open>C22. \<open>writeCache\<close> of a path that does not exist throws \<open>Error(p + ' is not exist!')\<close> and writes nothing.\<close>

theorem write_cache_missing:
  "\<not> exists_sync f p \<Longrightarrow> write_cache md5 now f c p = Inl (Thrown (path_str p @ '' is not exist!''))"
  by (simp add: write_cache_def)

theorem write_cache_missing_witness:
  "\<not> exists_sync ex_fs [''nm'', ''y''] \<and>
   write_cache rev 5 ex_fs ex_cache [''nm'', ''y''] = Inl (Thrown (path_str [''nm'', ''y''] @ '' is not exist!''))"
proof -
  have h: "\<not> exists_sync ex_fs [''nm'', ''y'']" by code_simp
  show ?thesis using h write_cache_missing [OF h] by blast
qed

text \<open>C19. A metadata file that is missing or not JSON reads as an empty record, and \<open>checkHash\<close> fails open: it returns false.\<close>

theorem check_hash_unreadable_meta:
  assumes "\<forall>s. read_file f (cache_file c) = Inr s \<longrightarrow> json_parse s = None"
  shows "check_hash md5 f c p = Inr False"
proof -
  have "read_cache f c = JObj []"
    using assms by (auto simp: read_cache_def split: sum.split option.split)
  then show ?thesis
    by (simp add: check_hash_eq_ref check_hash_ref_def cache_lookup_def optimized_of_def
                  object_entries_def js_props_def js_assign_def split: sum.split)
qed

theorem check_hash_unreadable_meta_witness:
  "isl (read_file ex_fs (cache_file ex_cache)) \<and> check_hash rev ex_fs ex_cache ex_path = Inr False"
proof -
  have l: "isl (read_file ex_fs (cache_file ex_cache))" by code_simp
  then have h: "\<forall>s. read_file ex_fs (cache_file ex_cache) = Inr s \<longrightarrow> json_parse s = None"
    by (cases "read_file ex_fs (cache_file ex_cache)") auto
  show ?thesis using l check_hash_unreadable_meta [OF h] by blast
qed

text \<open>C18. A metadata file \<open>{"optimized": null}\<close> parses, and \<open>checkHash\<close> of any readable file then throws a \<open>TypeError\<close> from \<open>Object.entries(null)\<close> instead of failing open.\<close>

theorem check_hash_null_optimized:
  assumes "read_file f (cache_file c) = Inr ''{\"optimized\": null}''" and "read_file f p = Inr content"
  shows "check_hash md5 f c p = Inl (TypeError ''Cannot convert null to object'')"
proof -
  have "json_parse ''{\"optimized\": null}'' = Some (JObj [(''optimized'', JNull)])"
    by code_simp
  with assms(1) have "read_cache f c = JObj [(''optimized'', JNull)]"
    by (simp add: read_cache_def)
  with assms(2) show ?thesis
    by (simp add: check_hash_eq_ref check_hash_ref_def cache_lookup_def optimized_of_def
                  object_entries_def map_of_js_props)
qed

theorem check_hash_null_optimized_witness:
  "read_file (ex_fs(cache_file ex_cache \<mapsto> File ''{\"optimized\": null}'')) (cache_file ex_cache)
     = Inr ''{\"optimized\": null}'' \<and>
   read_file (ex_fs(cache_file ex_cache \<mapsto> File ''{\"optimized\": null}'')) ex_path = Inr ''abc'' \<and>
   check_hash rev (ex_fs(cache_file ex_cache \<mapsto> File ''{\"optimized\": null}'')) ex_cache ex_path
     = Inl (TypeError ''Cannot convert null to object'')"
proof -
  let ?f = "ex_fs(cache_file ex_cache \<mapsto> File ''{\"optimized\": null}'')"
  have h1: "read_file ?f (cache_file ex_cache) = Inr ''{\"optimized\": null}''" by code_simp
  have h2: "read_file ?f ex_path = Inr ''abc''" by code_simp
  show ?thesis using h1 h2 check_hash_null_optimized [OF h1 h2] by blast
qed

end
