(* ===== verification/BuildConfig.thy ===== *)
theory BuildConfig
  imports Prelude
begin

text \<open>
  \<open>src/src/build-config.ts\<close>: the list of built-in module names, the two
  helpers every plugin uses to extend Vite's configuration
  (\<open>modifyAlias\<close>, \<open>modifyOptimizeDeps\<close>) and the config hooks of the
  \<open>builtins\<close> and \<open>build-config\<close> plugins with \<open>withExternal\<close> and
  \<open>setOutputFormat\<close>.  Vite's \<open>UserConfig\<close> is a record holding the fields
  these hooks read and write; an absent object or field is \<open>None\<close>, and
  \<open>x ??= d\<close> replaces \<open>None\<close> by \<open>Some d\<close>.  A RegExp is kept as its source
  text.
\<close>

subsection \<open>Vite's configuration\<close>

datatype alias_find = FindStr string | FindRegex string

record alias_entry =
  find :: alias_find
  replacement :: string

text \<open>\<open>resolve.alias\<close>: an array of aliases or a plain object \<open>{find: replacement}\<close>
  (its entries in enumeration order).\<close>

datatype alias_opt = AliasList "alias_entry list" | AliasObject "(string \<times> string) list"

datatype ext_item = EStr string | ERegex string

text \<open>Rollup's \<open>ExternalOption\<close>: an array, a string, a RegExp or a function
  \<open>(source, importer, isResolved) => boolean\<close>.\<close>

datatype external_opt =
    ExtList "ext_item list"
  | ExtStr string
  | ExtRegex string
  | ExtFn "string \<Rightarrow> string option \<Rightarrow> bool \<Rightarrow> bool"

text \<open>\<open>rollupOptions.output\<close>: one output object or an array of them, each
  represented by its \<open>format\<close> field.\<close>

datatype output_opt = OutOne "string option" | OutList "string option list"

record rollup_cfg =
  rollup_external :: "external_opt option"
  rollup_output :: "output_opt option"

record build_cfg =
  css_code_split :: "bool option"
  assets_dir :: "string option"
  rollup_options :: "rollup_cfg option"

record user_config =
  cfg_root :: "string option"
  cfg_base :: "string option"
  cfg_alias :: "alias_opt option"
  cfg_exclude :: "string list option"
  cfg_build :: "build_cfg option"

definition empty_rollup :: rollup_cfg where
  "empty_rollup = \<lparr>rollup_external = None, rollup_output = None\<rparr>"

definition empty_build :: build_cfg where
  "empty_build = \<lparr>css_code_split = None, assets_dir = None, rollup_options = None\<rparr>"

subsection \<open>\<open>builtins\<close>, \<open>modifyOptimizeDeps\<close>, \<open>modifyAlias\<close>\<close>

definition starts_with :: "string \<Rightarrow> string \<Rightarrow> bool" where
  "starts_with p s \<longleftrightarrow> take (length p) s = p"

text \<open>\<open>builtins\<close>, from Node's \<open>builtinModules\<close> \<open>bm\<close>.\<close>

definition builtins :: "string list \<Rightarrow> string list" where
  "builtins bm =
     ''electron'' # filter (\<lambda>m. \<not> starts_with ''_'' m) bm
     @ map (\<lambda>m. ''node:'' @ m) (filter (\<lambda>m. \<not> starts_with ''_'' m) bm)"

text \<open>\<open>modifyOptimizeDeps\<close>: the names not yet excluded are pushed; the filter
  reads the list before the push, so a name repeated in \<open>exclude\<close> is pushed
  as often as it occurs there.\<close>

definition modify_optimize_deps :: "user_config \<Rightarrow> string list \<Rightarrow> user_config" where
  "modify_optimize_deps c ex =
     (let old = (case cfg_exclude c of None \<Rightarrow> [] | Some xs \<Rightarrow> xs)
      in c\<lparr>cfg_exclude := Some (old @ filter (\<lambda>e. e \<notin> set old) ex)\<rparr>)"

text \<open>\<open>modifyAlias\<close>: an object form is first turned into the array form.\<close>

definition alias_list :: "alias_opt option \<Rightarrow> alias_entry list" where
  "alias_list a =
     (case a of
        None \<Rightarrow> []
      | Some (AliasList xs) \<Rightarrow> xs
      | Some (AliasObject kvs) \<Rightarrow> map (\<lambda>(k, r). \<lparr>find = FindStr k, replacement = r\<rparr>) kvs)"

definition modify_alias :: "user_config \<Rightarrow> alias_entry list \<Rightarrow> user_config" where
  "modify_alias c as = c\<lparr>cfg_alias := Some (AliasList (alias_list (cfg_alias c) @ as))\<rparr>"

subsection \<open>The \<open>builtins\<close> plugin\<close>

definition builtins_prefix :: string where
  "builtins_prefix = ''@sillot/vite-plugin-electron-renderer/builtins/''"

definition builtins_aliases :: "string list \<Rightarrow> bool \<Rightarrow> alias_entry list" where
  "builtins_aliases bm ni =
     \<lparr>find = FindStr ''electron'', replacement = builtins_prefix @ ''electron''\<rparr>
     # (if ni then
          map (\<lambda>m. \<lparr>find = FindRegex (''^(node:)?'' @ m @ ''$''), replacement = builtins_prefix @ m\<rparr>)
            (filter (\<lambda>m. \<not> starts_with ''node:'' m) (filter (\<lambda>m. m \<noteq> ''electron'') (builtins bm)))
        else [])"

definition builtins_config :: "string list \<Rightarrow> bool \<Rightarrow> user_config \<Rightarrow> user_config" where
  "builtins_config bm ni c =
     (let as = builtins_aliases bm ni
      in modify_optimize_deps (modify_alias c as)
           (if ni then builtins bm @ map replacement as
            else [''electron'', builtins_prefix @ ''electron'']))"

subsection \<open>The \<open>build-config\<close> plugin\<close>

definition with_external :: "string list \<Rightarrow> external_opt option \<Rightarrow> external_opt" where
  "with_external bs e =
     (case e of
        Some (ExtList xs) \<Rightarrow> ExtList (map EStr bs @ xs)
      | Some (ExtStr s) \<Rightarrow> ExtList (map EStr bs @ [EStr s])
      | Some (ExtRegex r) \<Rightarrow> ExtList (map EStr bs @ [ERegex r])
      | Some (ExtFn g) \<Rightarrow> ExtFn (\<lambda>src imp res. if src \<in> set bs then True else g src imp res)
      | None \<Rightarrow> ExtList (map EStr bs))"

definition set_output_format :: "output_opt option \<Rightarrow> output_opt" where
  "set_output_format out =
     (case out of
        None \<Rightarrow> OutOne (Some ''cjs'')
      | Some (OutList fs) \<Rightarrow> OutList (map (\<lambda>f. Some (case f of None \<Rightarrow> ''cjs'' | Some x \<Rightarrow> x)) fs)
      | Some (OutOne f) \<Rightarrow> OutOne (Some (case f of None \<Rightarrow> ''cjs'' | Some x \<Rightarrow> x)))"

definition default :: "'a \<Rightarrow> 'a option \<Rightarrow> 'a" where
  "default d x = (case x of None \<Rightarrow> d | Some y \<Rightarrow> y)"

definition build_config_hook :: "string list \<Rightarrow> bool \<Rightarrow> user_config \<Rightarrow> user_config" where
  "build_config_hook bm ni c =
     (let b0 = default empty_build (cfg_build c);
          b1 = b0\<lparr>css_code_split := Some (default False (css_code_split b0)),
                  assets_dir := Some (default [] (assets_dir b0))\<rparr>;
          b2 = (if ni then
                  let r = default empty_rollup (rollup_options b1)
                  in b1\<lparr>rollup_options := Some (r\<lparr>rollup_external := Some (with_external (builtins bm) (rollup_external r)),
                                                  rollup_output := Some (set_output_format (rollup_output r))\<rparr>)\<rparr>
                else b1)
      in c\<lparr>cfg_base := Some (default ''./'' (cfg_base c)), cfg_build := Some b2\<rparr>)"

subsection \<open>Rollup's reading of the options\<close>

text \<open>Whether Rollup treats an import \<open>src\<close> as external under an
  \<open>ExternalOption\<close> (a function is asked with no importer, unresolved); the
  regular-expression matcher \<open>rx\<close> is a parameter.  The formats of
  \<open>rollupOptions.output\<close>, one per output object.\<close>

definition ext_item_matches :: "(string \<Rightarrow> string \<Rightarrow> bool) \<Rightarrow> ext_item \<Rightarrow> string \<Rightarrow> bool" where
  "ext_item_matches rx i src = (case i of EStr s \<Rightarrow> s = src | ERegex r \<Rightarrow> rx r src)"

definition ext_matches :: "(string \<Rightarrow> string \<Rightarrow> bool) \<Rightarrow> external_opt \<Rightarrow> string \<Rightarrow> bool" where
  "ext_matches rx e src =
     (case e of
        ExtList xs \<Rightarrow> (\<exists>i \<in> set xs. ext_item_matches rx i src)
      | ExtStr s \<Rightarrow> s = src
      | ExtRegex r \<Rightarrow> rx r src
      | ExtFn g \<Rightarrow> g src None False)"

definition out_formats :: "output_opt \<Rightarrow> string option list" where
  "out_formats out = (case out of OutOne f \<Rightarrow> [f] | OutList fs \<Rightarrow> fs)"

definition empty_config :: user_config where
  "empty_config = \<lparr>cfg_root = None, cfg_base = None, cfg_alias = None, cfg_exclude = None, cfg_build = None\<rparr>"

subsection \<open>Lemmas\<close>

lemma with_external_matches:
  "ext_matches rx (with_external bs e) src \<longleftrightarrow>
   src \<in> set bs \<or> (case e of None \<Rightarrow> False | Some x \<Rightarrow> ext_matches rx x src)"
  by (auto simp: with_external_def ext_matches_def ext_item_matches_def bex_Un split: option.splits external_opt.splits)

lemma modify_optimize_deps_set:
  "set (default [] (cfg_exclude (modify_optimize_deps c ex))) = set (default [] (cfg_exclude c)) \<union> set ex"
  by (auto simp: modify_optimize_deps_def default_def Let_def split: option.splits)

subsection \<open>Properties\<close>

text \<open>C23. \<open>withExternal\<close> refines the union of the built-ins and the user's \<open>external\<close>: for every form of the option (array, string, RegExp, function or absent) and every reading of regular expressions, Rollup treats an import as external after the hook exactly when it is a built-in or was external before.\<close>

theorem with_external_union:
  "ext_matches rx (with_external bs e) src \<longleftrightarrow>
   src \<in> set bs \<or> (case e of None \<Rightarrow> False | Some x \<Rightarrow> ext_matches rx x src)"
  by (rule with_external_matches)

text \<open>C24. \<open>setOutputFormat\<close> gives every output a format and keeps the format of every output that had one: each output's format becomes \<open>format ?? 'cjs'\<close>, and an absent \<open>output\<close> becomes one CommonJS output.\<close>

theorem set_output_format_cjs:
  "(\<forall>f \<in> set (out_formats (set_output_format out)). f \<noteq> None) \<and>
   list_all2 (\<lambda>a b. b = Some (default ''cjs'' a))
     (case out of None \<Rightarrow> [None] | Some x \<Rightarrow> out_formats x) (out_formats (set_output_format out))"
  by (auto simp: set_output_format_def out_formats_def default_def list_all2_conv_all_nth
           split: option.splits output_opt.splits)

theorem set_output_format_cjs_witness:
  "out_formats (set_output_format (Some (OutList [None, Some ''es'']))) = [Some ''cjs'', Some ''es'']"
proof -
  have "list_all2 (\<lambda>a b. b = Some (default ''cjs'' a)) [None, Some ''es'']
      (out_formats (set_output_format (Some (OutList [None, Some ''es'']))))"
    using set_output_format_cjs [of "Some (OutList [None, Some ''es''])"] by (simp add: out_formats_def)
  then show ?thesis by (auto simp: list_all2_Cons1 default_def)
qed

text \<open>C25. \<open>modifyOptimizeDeps\<close> keeps \<open>optimizeDeps.exclude\<close> free of duplicates when the names it is given are distinct: a name already excluded is not pushed again.\<close>

theorem modify_optimize_deps_distinct:
  "distinct (default [] (cfg_exclude c)) \<Longrightarrow> distinct ex \<Longrightarrow>
   distinct (default [] (cfg_exclude (modify_optimize_deps c ex)))"
  by (auto simp: modify_optimize_deps_def default_def Let_def split: option.splits)

theorem modify_optimize_deps_distinct_witness:
  "distinct (default [] (cfg_exclude (empty_config\<lparr>cfg_exclude := Some [''electron'']\<rparr>))) \<and> distinct [''electron'', ''lodash''] \<and>
   distinct (default [] (cfg_exclude (modify_optimize_deps (empty_config\<lparr>cfg_exclude := Some [''electron'']\<rparr>) [''electron'', ''lodash''])))"
proof -
  have a: "distinct (default [] (cfg_exclude (empty_config\<lparr>cfg_exclude := Some [''electron'']\<rparr>)))" by (simp add: default_def)
  have b: "distinct [''electron'', ''lodash'']" by simp
  show ?thesis using a b modify_optimize_deps_distinct [OF a b] by blast
qed

text \<open>C26. Multiplicity of the names \<open>modifyOptimizeDeps\<close> leaves in \<open>optimizeDeps.exclude\<close>: a name already excluded keeps its count, any other name occurs as often as it occurs in the list given, since the filter reads \<open>exclude\<close> before the push (so a repeated \<open>include\<close> entry is excluded, and aliased, more than once).\<close>

theorem modify_optimize_deps_count:
  "count (mset (default [] (cfg_exclude (modify_optimize_deps c ex)))) x =
   (if x \<in> set (default [] (cfg_exclude c)) then count (mset (default [] (cfg_exclude c))) x else count (mset ex) x)"
  by (auto simp: modify_optimize_deps_def default_def Let_def count_eq_zero_iff split: option.splits)

text \<open>C27. The \<open>builtins\<close> plugin excludes from pre-bundling every polyfill it aliases to, with \<open>nodeIntegration\<close> on or off.\<close>

theorem builtins_config_excluded:
  "set (map replacement (builtins_aliases bm ni)) \<subseteq> set (default [] (cfg_exclude (builtins_config bm ni c)))"
  by (auto simp: builtins_config_def builtins_aliases_def modify_optimize_deps_set [simplified default_def] default_def Let_def
           modify_optimize_deps_def split: option.splits)

text \<open>C28. With \<open>nodeIntegration\<close> the \<open>build-config\<close> plugin makes every built-in module (\<open>electron\<close>, the Node modules and their \<open>node:\<close> forms) external to Rollup, whatever \<open>external\<close> the user configured.\<close>

theorem build_config_external:
  "src \<in> set (builtins bm) \<Longrightarrow>
   ext_matches rx (the (rollup_external (the (rollup_options (the (cfg_build (build_config_hook bm True c))))))) src"
  by (simp add: build_config_hook_def Let_def with_external_matches)

theorem build_config_external_witness:
  "''node:fs'' \<in> set (builtins [''fs'', ''_stream_wrap'']) \<and>
   ext_matches (\<lambda>r s. False) (the (rollup_external (the (rollup_options (the (cfg_build
     (build_config_hook [''fs'', ''_stream_wrap''] True empty_config))))))) ''node:fs''"
proof -
  have a: "''node:fs'' \<in> set (builtins [''fs'', ''_stream_wrap''])" by code_simp
  show ?thesis using a build_config_external [OF a] by blast
qed

end
