(* ===== verification/Resolver.thy ===== *)
theory Resolver
  imports Cache BuildConfig
begin

text \<open>
  The \<open>optimizer\<close> plugin of \<open>src/src/optimizer.ts\<close>, first part: the
  options type (lines 14-27), the environment the config hook runs in, and
  the first loop of the hook (lines 57-105), which classifies every entry of
  \<open>include\<close> as a CommonJS or an ES module, skips the built-in modules and
  logs the names it cannot resolve.  The world the hook acts on is the file
  system, the clock read by \<open>Date.now()\<close>, the console and the promise
  rejections nobody handles.  The libraries the code only calls (Node's
  resolver and \<open>require\<close>, \<open>lib-esm\<close>, esbuild, \<open>vite-plugin-utils\<close>) are
  fields of an environment record, so every property holds for any
  behaviour of theirs.
\<close>

subsection \<open>Environment, world and options\<close>

text \<open>esbuild's \<open>build\<close>: given the file system and the options object, the
  error messages of a failed build or the files it writes.\<close>

type_synonym esbuild_build = "fs \<Rightarrow> json props \<Rightarrow> string list + (path \<times> string) list"

record env =
  md5 :: digest
  builtin_modules :: "string list"
  find_node_modules :: "fs \<Rightarrow> string option \<Rightarrow> path list"
  resolve_path :: "fs \<Rightarrow> path \<Rightarrow> path option"
  resolve_bare :: "fs \<Rightarrow> string \<Rightarrow> path option"
  module_keys :: "fs \<Rightarrow> path \<Rightarrow> string list option"
  lib_esm_exports :: "string list \<Rightarrow> string"
  esbuild :: "esbuild_build option"

record world =
  wfs :: fs
  clock :: int
  console :: "string list"
  rejections :: "js_error list"

datatype mod_type = CommonJS | ESModule

text \<open>An entry of \<open>include\<close>: a name, or \<open>{name, type?}\<close>.\<close>

datatype include_item = IName string | ITyped string "mod_type option"

record dep_options =
  opt_include :: "include_item list option"
  opt_build_options :: "json props option"

text \<open>An element of \<open>deps\<close>: \<open>{esm?, cjs?, filename?}\<close>.\<close>

record dep =
  dep_esm :: "string option"
  dep_cjs :: "string option"
  dep_filename :: "path option"

text \<open>The continuation of \<open>esmBundling(name, entry)\<close> after \<open>await import('esbuild')\<close>.\<close>

datatype task = EsmTask string path

definition cache_dir :: string where
  "cache_dir = ''./@sillot/vite-electron-renderer''"

text \<open>JavaScript truthiness of a \<open>string | undefined\<close>, and \<open>a || b\<close>.\<close>

definition truthy :: "string option \<Rightarrow> bool" where
  "truthy s \<longleftrightarrow> (case s of None \<Rightarrow> False | Some x \<Rightarrow> x \<noteq> [])"

definition or_str :: "string option \<Rightarrow> string option \<Rightarrow> string option" where
  "or_str a b = (if truthy a then a else b)"

definition log :: "string \<Rightarrow> world \<Rightarrow> world" where
  "log msg w = w\<lparr>console := console w @ [msg]\<rparr>"

definition reject :: "js_error \<Rightarrow> world \<Rightarrow> world" where
  "reject e w = w\<lparr>rejections := rejections w @ [e]\<rparr>"

subsection \<open>The first loop: classifying \<open>include\<close>\<close>

definition item_name :: "include_item \<Rightarrow> string" where
  "item_name it = (case it of IName n \<Rightarrow> n | ITyped n _ \<Rightarrow> n)"

definition item_type :: "include_item \<Rightarrow> mod_type option" where
  "item_type it = (case it of IName _ \<Rightarrow> None | ITyped _ t \<Rightarrow> t)"

definition esm_dep :: "string \<Rightarrow> path option \<Rightarrow> dep" where
  "esm_dep n fn = \<lparr>dep_esm = Some n, dep_cjs = None, dep_filename = fn\<rparr>"

definition cjs_dep :: "string \<Rightarrow> path option \<Rightarrow> dep" where
  "cjs_dep n fn = \<lparr>dep_esm = None, dep_cjs = Some n, dep_filename = fn\<rparr>"

text \<open>\<open>cjs_require(pkgJson).type === 'module'\<close>: \<open>require\<close> of a JSON file
  parses it (a syntax error is thrown) and the property read throws on
  \<open>null\<close>.\<close>

definition pkg_is_module :: "fs \<Rightarrow> path \<Rightarrow> js_error + bool" where
  "pkg_is_module f p =
     (case read_file f p of
        Inl e \<Rightarrow> Inl (FsError e)
      | Inr s \<Rightarrow>
          (case json_parse s of
             None \<Rightarrow> Inl (Thrown (''SyntaxError: '' @ path_str p))
           | Some JNull \<Rightarrow> Inl (TypeError ''Cannot read properties of null'')
           | Some (JObj kvs) \<Rightarrow> Inr (map_of (js_props kvs) ''type'' = Some (JStr ''module''))
           | Some _ \<Rightarrow> Inr False))"

text \<open>One iteration of the first loop: the dependency it pushes, if any, and
  the world with what it logged.\<close>

definition classify_item ::
  "env \<Rightarrow> path \<Rightarrow> world \<Rightarrow> include_item \<Rightarrow> js_error + (dep option \<times> world)" where
  "classify_item e nm w it =
     (let name = item_name it; f = wfs w in
      if item_type it = Some ESModule then Inr (Some (esm_dep name None), w)
      else if item_type it = Some CommonJS then Inr (Some (cjs_dep name None), w)
      else if name \<in> set (builtins (builtin_modules e)) then Inr (None, w)
      else
        let pkg_json = join_path (join_path nm name) ''package.json'' in
        if exists_sync f pkg_json then
          (case pkg_is_module f pkg_json of
             Inl err \<Rightarrow> Inl err
           | Inr True \<Rightarrow> Inr (Some (esm_dep name None), w)
           | Inr False \<Rightarrow> Inr (Some (cjs_dep name None), w))
        else
          let pkg_path = join_path nm name in
          (case resolve_path e f pkg_path of
             None \<Rightarrow> Inr (None, log (''Can not resolve path: '' @ path_str pkg_path) w)
           | Some fn \<Rightarrow>
               if extname fn = ''.mjs'' then Inr (Some (esm_dep name (Some fn)), w)
               else Inr (Some (cjs_dep name (Some fn)), w)))"

fun collect_deps ::
  "env \<Rightarrow> path \<Rightarrow> world \<Rightarrow> include_item list \<Rightarrow> js_error + (dep list \<times> world)" where
  "collect_deps e nm w [] = Inr ([], w)"
| "collect_deps e nm w (it # its) =
     (case classify_item e nm w it of
        Inl err \<Rightarrow> Inl err
      | Inr (d, w') \<Rightarrow>
          (case collect_deps e nm w' its of
             Inl err \<Rightarrow> Inl err
           | Inr (ds, w'') \<Rightarrow> Inr ((case d of None \<Rightarrow> ds | Some x \<Rightarrow> x # ds), w'')))"

subsection \<open>A concrete project\<close>

text \<open>A project \<open>/proj\<close> with three installed packages: \<open>lodash\<close> and
  \<open>uuid\<close> (CommonJS) and \<open>esm-pkg\<close> (its manifest declares
  \<open>"type": "module"\<close>, its entry has the extension \<open>.js\<close>).  The
  environment resolves bare names inside \<open>node_modules\<close> (a built-in
  module to its own name, as \<open>require.resolve('fs')\<close> does), finds the
  exports \<open>a\<close> and \<open>b\<close> in every module and has no esbuild; the
  esbuild stub \<open>demo_build_fail\<close> fails with a diagnostic.\<close>

definition demo_nm :: path where
  "demo_nm = [''proj'', ''node_modules'']"

definition demo_fs :: fs where
  "demo_fs = (Map.empty :: fs)([''proj''] \<mapsto> Dir, demo_nm \<mapsto> Dir,
     demo_nm @ [''lodash''] \<mapsto> Dir, demo_nm @ [''lodash'', ''package.json''] \<mapsto> File ''{\"main\": \"index.js\"}'',
     demo_nm @ [''lodash'', ''index.js''] \<mapsto> File ''module.exports = {}'',
     demo_nm @ [''uuid''] \<mapsto> Dir, demo_nm @ [''uuid'', ''package.json''] \<mapsto> File ''{}'',
     demo_nm @ [''uuid'', ''index.js''] \<mapsto> File ''exports.v4 = 1'',
     demo_nm @ [''esm-pkg''] \<mapsto> Dir, demo_nm @ [''esm-pkg'', ''package.json''] \<mapsto> File ''{\"type\": \"module\"}'',
     demo_nm @ [''esm-pkg'', ''index.js''] \<mapsto> File ''export const x = 1'')"

definition demo_env :: env where
  "demo_env = \<lparr>md5 = rev, builtin_modules = [''fs'', ''path'', ''_http_agent''],
     find_node_modules = (\<lambda>f r. [demo_nm]),
     resolve_path = (\<lambda>f p. None),
     resolve_bare = (\<lambda>f m. if m \<in> {''lodash'', ''uuid'', ''esm-pkg''} then Some (demo_nm @ [m, ''index.js''])
                             else if m \<in> {''fs'', ''path''} then Some [m] else None),
     module_keys = (\<lambda>f p. Some [''a'', ''b'']),
     lib_esm_exports = (\<lambda>ks. concat (map (\<lambda>k. ''export const '' @ k @ '' = _M_.'' @ k @ '';'') ks)),
     esbuild = None\<rparr>"

definition demo_bundle :: path where
  "demo_bundle = demo_nm @ [''@sillot'', ''vite-electron-renderer'', ''esm-pkg'', ''index.cjs'']"

definition demo_build_fail :: esbuild_build where
  "demo_build_fail f opts = Inl [''Could not resolve \"./missing\"'']"

definition demo_world :: world where
  "demo_world = \<lparr>wfs = demo_fs, clock = 100, console = [], rejections = []\<rparr>"

definition demo_cfg :: user_config where
  "demo_cfg = \<lparr>cfg_root = None, cfg_base = None, cfg_alias = None, cfg_exclude = None, cfg_build = None\<rparr>"

definition demo_opts :: "include_item list \<Rightarrow> dep_options" where
  "demo_opts its = \<lparr>opt_include = Some its, opt_build_options = None\<rparr>"

definition demo_cache :: cache where
  "demo_cache = new_cache (join_path demo_nm cache_dir)"

text \<open>The same project whose cache root holds a directory where the
  metadata file belongs, so that every \<open>writeCache\<close> fails.\<close>

definition demo_bad_world :: world where
  "demo_bad_world = demo_world\<lparr>wfs := demo_fs(demo_nm @ [''@sillot''] \<mapsto> Dir,
     demo_nm @ [''@sillot'', ''vite-electron-renderer''] \<mapsto> Dir, cache_file demo_cache \<mapsto> Dir)\<rparr>"

subsection \<open>Lemmas\<close>

lemma classify_item_dep:
  "classify_item e nm w it = Inr (Some d, w') \<Longrightarrow>
   ((dep_cjs d = Some (item_name it) \<and> dep_esm d = None) \<or> (dep_esm d = Some (item_name it) \<and> dep_cjs d = None)) \<and>
   (item_name it \<in> set (builtins (builtin_modules e)) \<longrightarrow> item_type it \<noteq> None)"
  by (auto simp: classify_item_def Let_def esm_dep_def cjs_dep_def
           split: if_splits option.splits sum.splits bool.splits)

lemma collect_deps_names:
  "collect_deps e nm w its = Inr (ds, w') \<Longrightarrow> d \<in> set ds \<Longrightarrow>
   \<exists>it \<in> set its. ((dep_cjs d = Some (item_name it) \<and> dep_esm d = None) \<or> (dep_esm d = Some (item_name it) \<and> dep_cjs d = None)) \<and>
     (item_name it \<in> set (builtins (builtin_modules e)) \<longrightarrow> item_type it \<noteq> None)"
proof (induction its arbitrary: w ds)
  case (Cons it its)
  obtain od w1 ds1 where cl: "classify_item e nm w it = Inr (od, w1)"
    and rest: "collect_deps e nm w1 its = Inr (ds1, w')"
    and ds: "ds = (case od of None \<Rightarrow> ds1 | Some x \<Rightarrow> x # ds1)"
    using Cons.prems(1) by (auto split: sum.splits)
  show ?case
  proof (cases "d \<in> set ds1")
    case True
    from Cons.IH [OF rest True] show ?thesis by auto
  next
    case False
    with ds Cons.prems(2) have "od = Some d" by (auto split: option.splits)
    with cl classify_item_dep show ?thesis by fastforce
  qed
qed simp

lemma or_str_one:
  "(a = Some m \<and> b = None) \<or> (b = Some m \<and> a = None) \<Longrightarrow> or_str a b = Some n \<Longrightarrow> n = m"
  by (auto simp: or_str_def truthy_def split: if_splits)

lemma classify_item_esbuild: "classify_item (e\<lparr>esbuild := b\<rparr>) = classify_item e"
  by (simp add: fun_eq_iff classify_item_def Let_def cong: if_cong)

lemma collect_deps_esbuild: "collect_deps (e\<lparr>esbuild := b\<rparr>) nm w its = collect_deps e nm w its"
  by (induction its arbitrary: w) (simp_all add: classify_item_esbuild cong: sum.case_cong prod.case_cong)

lemma classify_item_world:
  "classify_item e nm w it = Inr (od, w') \<Longrightarrow>
   wfs w' = wfs w \<and> rejections w' = rejections w \<and> prefix (console w) (console w')"
  by (auto simp: classify_item_def Let_def log_def split: if_splits option.splits sum.splits bool.splits)

lemma classify_item_unresolvable:
  "item_name it = n \<Longrightarrow> item_type it = None \<Longrightarrow> n \<notin> set (builtins (builtin_modules e)) \<Longrightarrow>
   \<not> exists_sync (wfs w) (join_path (join_path nm n) ''package.json'') \<Longrightarrow>
   resolve_path e (wfs w) (join_path nm n) = None \<Longrightarrow>
   classify_item e nm w it = Inr (None, log (''Can not resolve path: '' @ path_str (join_path nm n)) w)"
  by (simp add: classify_item_def Let_def)

lemma collect_deps_unresolvable:
  assumes "collect_deps e nm w its = Inr (ds, w')"
    and "\<forall>it \<in> set its. item_name it = n \<longrightarrow> item_type it = None"
    and "n \<notin> set (builtins (builtin_modules e))"
    and "\<not> exists_sync (wfs w) (join_path (join_path nm n) ''package.json'')"
    and "resolve_path e (wfs w) (join_path nm n) = None"
  shows "(\<forall>d \<in> set ds. dep_cjs d \<noteq> Some n \<and> dep_esm d \<noteq> Some n) \<and> wfs w' = wfs w \<and>
         prefix (console w) (console w') \<and>
         (n \<in> item_name ` set its \<longrightarrow> ''Can not resolve path: '' @ path_str (join_path nm n) \<in> set (console w'))"
  using assms
proof (induction its arbitrary: w ds)
  case Nil
  then show ?case by simp
next
  case (Cons it its)
  obtain od w1 ds1 where cl: "classify_item e nm w it = Inr (od, w1)"
    and rest: "collect_deps e nm w1 its = Inr (ds1, w')"
    and ds: "ds = (case od of None \<Rightarrow> ds1 | Some x \<Rightarrow> x # ds1)"
    using Cons.prems(1) by (auto split: sum.splits)
  have w1: "wfs w1 = wfs w" "prefix (console w) (console w1)" using classify_item_world [OF cl] by auto
  have IH: "(\<forall>d \<in> set ds1. dep_cjs d \<noteq> Some n \<and> dep_esm d \<noteq> Some n) \<and> wfs w' = wfs w1 \<and>
         prefix (console w1) (console w') \<and>
         (n \<in> item_name ` set its \<longrightarrow> ''Can not resolve path: '' @ path_str (join_path nm n) \<in> set (console w'))"
    using Cons.IH [OF rest] Cons.prems(2-5) w1(1) by simp
  show ?case
  proof (cases "item_name it = n")
    case True
    with Cons.prems(2) have "item_type it = None" by simp
    from classify_item_unresolvable [OF True this Cons.prems(3-5)] cl
    have "od = None" and "w1 = log (''Can not resolve path: '' @ path_str (join_path nm n)) w" by simp_all
    then have "''Can not resolve path: '' @ path_str (join_path nm n) \<in> set (console w')"
      using IH set_mono_prefix by (fastforce simp: log_def)
    with IH w1 ds \<open>od = None\<close> True show ?thesis by (auto intro: prefix_order.trans)
  next
    case False
    have "\<forall>d \<in> set ds. dep_cjs d \<noteq> Some n \<and> dep_esm d \<noteq> Some n"
    proof (cases od)
      case (Some x)
      then show ?thesis using IH ds classify_item_dep [of e nm w it x w1] cl False by auto
    qed (use IH ds in auto)
    with IH w1 False show ?thesis by (auto intro: prefix_order.trans)
  qed
qed

subsection \<open>Properties\<close>

text \<open>C4. Classification correctness: an untyped, non-built-in entry whose \<open>package.json\<close> under \<open>node_modules\<close> declares \<open>"type": "module"\<close> is classified as an ES module without a filename, whatever its entry file's extension: the manifest is read before \<open>require.resolve\<close> is consulted.\<close>

theorem classify_item_manifest_module:
  assumes "item_type it = None" and "item_name it \<notin> set (builtins (builtin_modules e))"
    and "read_file (wfs w) (join_path (join_path nm (item_name it)) ''package.json'') = Inr s"
    and "json_parse s = Some (JObj kvs)" and "map_of (js_props kvs) ''type'' = Some (JStr ''module'')"
  shows "classify_item e nm w it = Inr (Some (esm_dep (item_name it) None), w)"
proof -
  have "exists_sync (wfs w) (join_path (join_path nm (item_name it)) ''package.json'')"
    using assms(3) by (rule read_file_ok_exists)
  moreover have "pkg_is_module (wfs w) (join_path (join_path nm (item_name it)) ''package.json'') = Inr True"
    using assms(3-5) by (simp add: pkg_is_module_def)
  ultimately show ?thesis using assms(1,2) by (simp add: classify_item_def Let_def)
qed

theorem classify_item_manifest_module_witness:
  "item_type (IName ''esm-pkg'') = None \<and> ''esm-pkg'' \<notin> set (builtins (builtin_modules demo_env)) \<and>
   read_file (wfs demo_world) (join_path (join_path demo_nm ''esm-pkg'') ''package.json'') = Inr ''{\"type\": \"module\"}'' \<and>
   json_parse ''{\"type\": \"module\"}'' = Some (JObj [(''type'', JStr ''module'')]) \<and>
   map_of (js_props [(''type'', JStr ''module'')]) ''type'' = Some (JStr ''module'') \<and>
   classify_item demo_env demo_nm demo_world (IName ''esm-pkg'') = Inr (Some (esm_dep ''esm-pkg'' None), demo_world)"
proof -
  have t: "item_type (IName ''esm-pkg'') = None" by (simp add: item_type_def)
  have b: "item_name (IName ''esm-pkg'') \<notin> set (builtins (builtin_modules demo_env))" by code_simp
  have r: "read_file (wfs demo_world) (join_path (join_path demo_nm (item_name (IName ''esm-pkg''))) ''package.json'')
      = Inr ''{\"type\": \"module\"}''"
    by code_simp
  have j: "json_parse ''{\"type\": \"module\"}'' = Some (JObj [(''type'', JStr ''module'')])" by code_simp
  have m: "map_of (js_props [(''type'', JStr ''module'')]) ''type'' = Some (JStr ''module'')" by code_simp
  show ?thesis using classify_item_manifest_module [of "IName ''esm-pkg''", OF t b r j m] t b r j m
    by (simp add: item_name_def)
qed

text \<open>C16. Every explicitly typed entry of \<open>include\<close> reaches the bundler: the first loop pushes \<open>{esm: name}\<close> or \<open>{cjs: name}\<close> for \<open>{name, type}\<close> before it checks the built-in list, so a typed built-in such as \<open>{name: "fs", type: "commonjs"}\<close> is bundled and aliased into the cache (the spec makes the built-in filter a precondition of resolution).\<close>

theorem collect_deps_typed:
  "collect_deps e nm w its = Inr (ds, w') \<Longrightarrow> ITyped n (Some t) \<in> set its \<Longrightarrow>
   (case t of ESModule \<Rightarrow> esm_dep n None | CommonJS \<Rightarrow> cjs_dep n None) \<in> set ds"
proof (induction its arbitrary: w ds)
  case (Cons it its)
  obtain od w1 ds1 where cl: "classify_item e nm w it = Inr (od, w1)"
    and rest: "collect_deps e nm w1 its = Inr (ds1, w')"
    and ds: "ds = (case od of None \<Rightarrow> ds1 | Some x \<Rightarrow> x # ds1)"
    using Cons.prems(1) by (auto split: sum.splits)
  show ?case
  proof (cases "it = ITyped n (Some t)")
    case True
    with cl ds show ?thesis
      by (cases t) (auto simp: classify_item_def item_name_def item_type_def)
  next
    case False
    with Cons.prems(2) Cons.IH [OF rest] ds show ?thesis by (auto split: option.splits)
  qed
qed simp

theorem collect_deps_typed_witness:
  "collect_deps demo_env demo_nm demo_world [ITyped ''fs'' (Some CommonJS)]
     = Inr (fst (projr (collect_deps demo_env demo_nm demo_world [ITyped ''fs'' (Some CommonJS)])),
            snd (projr (collect_deps demo_env demo_nm demo_world [ITyped ''fs'' (Some CommonJS)]))) \<and>
   ''fs'' \<in> set (builtins (builtin_modules demo_env)) \<and>
   cjs_dep ''fs'' None \<in> set (fst (projr (collect_deps demo_env demo_nm demo_world [ITyped ''fs'' (Some CommonJS)])))"
proof -
  let ?r = "collect_deps demo_env demo_nm demo_world [ITyped ''fs'' (Some CommonJS)]"
  have "\<not> isl ?r" by code_simp
  then have r: "?r = Inr (fst (projr ?r), snd (projr ?r))" using not_isl_Inr_projr by fastforce
  have b: "''fs'' \<in> set (builtins (builtin_modules demo_env))" by code_simp
  show ?thesis using r b collect_deps_typed [OF r, of "''fs''" CommonJS] by simp
qed

end
