(* ===== verification/Bundler.thy ===== *)
theory Bundler
  imports Resolver
begin

text \<open>
  \<open>dest\<close>, \<open>cjsBundling\<close> and \<open>esmBundling\<close> of \<open>src/src/optimizer.ts\<close>
  (lines 149-220).  \<open>cjsBundling\<close> writes the CommonJS shim
  \<open>index.js\<close> unless the cache vouches for it.  \<open>esmBundling\<close> is an
  \<open>async\<close> function the hook does not await: what it does before its first
  \<open>await\<close> (\<open>esm_bundling_start\<close>) happens inside the hook, the rest
  (\<open>run_task\<close>) is a pending task that runs after the hook has returned.
\<close>

subsection \<open>\<open>dest\<close>, \<open>cjsBundling\<close>, \<open>esmBundling\<close>\<close>

record dest_paths =
  destpath :: path
  destname :: path
  destname_cjs :: path

definition dest_of :: "path \<Rightarrow> string \<Rightarrow> dest_paths" where
  "dest_of nm name =
     (let dp = join_path (join_path nm cache_dir) name
      in \<lparr>destpath = dp, destname = join_path dp ''index.js'', destname_cjs = join_path dp ''index.cjs''\<rparr>)"

text \<open>\<open>dest(name)\<close> creates the directory as a side effect.\<close>

definition dest :: "path \<Rightarrow> string \<Rightarrow> world \<Rightarrow> js_error + (dest_paths \<times> world)" where
  "dest nm name w =
     (let d = dest_of nm name in
      case ensure_dir (wfs w) (destpath d) of
        Inl err \<Rightarrow> Inl (FsError err)
      | Inr f \<Rightarrow> Inr (d, w\<lparr>wfs := f\<rparr>))"

text \<open>The shim: \<open>const _M_ = require("<require>");\n\<close> and lib-esm's exports.\<close>

definition shim_code :: "env \<Rightarrow> string \<Rightarrow> string list \<Rightarrow> string" where
  "shim_code e req keys = ''const _M_ = require('' @ [CHR 0x22] @ req @ [CHR 0x22] @ '');''
                            @ [CHR 0x0A] @ lib_esm_exports e keys"

definition cjs_bundling ::
  "env \<Rightarrow> path \<Rightarrow> cache \<Rightarrow> string \<Rightarrow> string \<Rightarrow> path \<Rightarrow> world \<Rightarrow> js_error + world" where
  "cjs_bundling e nm c name req req_id w =
     (case dest nm name w of
        Inl err \<Rightarrow> Inl err
      | Inr (d, w1) \<Rightarrow>
          (case check_hash (md5 e) (wfs w1) c (destname d) of
             Inl err \<Rightarrow> Inl err
           | Inr True \<Rightarrow> Inr w1
           | Inr False \<Rightarrow>
               (case module_keys e (wfs w1) req_id of
                  None \<Rightarrow> Inl (Thrown (''Cannot load '' @ path_str req_id))
                | Some keys \<Rightarrow>
                    (case ensure_dir (wfs w1) (destpath d) of
                       Inl err \<Rightarrow> Inl (FsError err)
                     | Inr f2 \<Rightarrow>
                         (case write_file f2 (destname d) (shim_code e req keys) of
                            Inl err \<Rightarrow> Inl (FsError err)
                          | Inr f3 \<Rightarrow>
                              (case write_cache (md5 e) (clock w1) f3 c (destname d) of
                                 Inl err \<Rightarrow> Inl err
                               | Inr f4 \<Rightarrow> Inr (log (''Pre-bundling: '' @ name) (w1\<lparr>wfs := f4\<rparr>))))))))"

text \<open>The options object passed to \<open>esbuild.build\<close>: the plugin's defaults,
  then \<open>...buildOptions\<close> on top.\<close>

definition esm_default_options :: "string list \<Rightarrow> path \<Rightarrow> path \<Rightarrow> json props" where
  "esm_default_options bm entry out =
     [(''entryPoints'', JArr [JStr (path_str entry)]),
      (''outfile'', JStr (path_str out)),
      (''target'', JStr ''node14''),
      (''format'', JStr ''cjs''),
      (''bundle'', JBool True),
      (''sourcemap'', JBool True),
      (''external'', JArr (map JStr (bm @ map (\<lambda>m. ''node:'' @ m) bm)))]"

definition esm_build_options :: "string list \<Rightarrow> path \<Rightarrow> path \<Rightarrow> json props option \<Rightarrow> json props" where
  "esm_build_options bm entry out bo =
     foldl (\<lambda>acc kv. upd_prop (fst kv) (snd kv) acc) (esm_default_options bm entry out)
       (case bo of None \<Rightarrow> [] | Some ps \<Rightarrow> ps)"

text \<open>What \<open>esmBundling\<close> does before its first \<open>await\<close>.  It is an
  \<open>async\<close> function, so a throw there rejects its promise instead of
  leaving the hook.\<close>

definition esm_bundling_start ::
  "env \<Rightarrow> path \<Rightarrow> cache \<Rightarrow> string \<Rightarrow> path \<Rightarrow> world \<Rightarrow> world \<times> task list" where
  "esm_bundling_start e nm c name entry w =
     (case dest nm name w of
        Inl err \<Rightarrow> (reject err w, [])
      | Inr (d, w1) \<Rightarrow>
          (case check_hash (md5 e) (wfs w1) c (destname_cjs d) of
             Inl err \<Rightarrow> (reject err w1, [])
           | Inr True \<Rightarrow> (w1, [])
           | Inr False \<Rightarrow> (w1, [EsmTask name entry])))"

text \<open>Writing the files esbuild emits (it creates their directories).\<close>

fun write_outputs :: "fs \<Rightarrow> (path \<times> string) list \<Rightarrow> fs_error + fs" where
  "write_outputs f [] = Inr f"
| "write_outputs f ((p, s) # ps) =
     (case mkdir_p f (butlast p) of
        Inl err \<Rightarrow> Inl err
      | Inr f1 \<Rightarrow> (case write_file f1 p s of Inl err \<Rightarrow> Inl err | Inr f2 \<Rightarrow> write_outputs f2 ps))"

text \<open>The rest of \<open>esmBundling\<close>, run when its task is scheduled.\<close>

definition run_task ::
  "env \<Rightarrow> path \<Rightarrow> cache \<Rightarrow> json props option \<Rightarrow> task \<Rightarrow> world \<Rightarrow> world" where
  "run_task e nm c bo t w =
     (case t of EsmTask name entry \<Rightarrow>
      (case esbuild e of
         None \<Rightarrow> reject (Thrown ''[Pre-Bundling] dependency \"esbuild\". Did you install it?'') w
       | Some build \<Rightarrow>
           let d = dest_of nm name in
           (case build (wfs w) (esm_build_options (builtin_modules e) entry (destname_cjs d) bo) of
              Inl errs \<Rightarrow> reject (Thrown ''Build failed'') w
            | Inr outs \<Rightarrow>
                (case write_outputs (wfs w) outs of
                   Inl err \<Rightarrow> reject (FsError err) w
                 | Inr f1 \<Rightarrow>
                     (case write_cache (md5 e) (clock w) f1 c (destname_cjs d) of
                        Inl err \<Rightarrow> reject err (w\<lparr>wfs := f1\<rparr>)
                      | Inr f2 \<Rightarrow>
                          (case cjs_bundling e nm c name (cache_dir @ ''/'' @ name @ ''/index.cjs'')
                                  (destname_cjs d) (w\<lparr>wfs := f2\<rparr>) of
                             Inl err \<Rightarrow> reject err (w\<lparr>wfs := f2\<rparr>)
                           | Inr w3 \<Rightarrow> w3))))))"

subsection \<open>A cache that vouches for a bundle whose shim is missing\<close>

text \<open>The demo project after the bundle \<open>index.cjs\<close> of \<open>esm-pkg\<close> has
  been written and recorded, but before its shim \<open>index.js\<close> exists (the
  state an interrupted continuation or a deleted shim leaves).\<close>

definition demo_cached_fs :: fs where
  "demo_cached_fs = projr (write_cache rev 50
     (demo_fs(demo_nm @ [''@sillot''] \<mapsto> Dir, demo_nm @ [''@sillot'', ''vite-electron-renderer''] \<mapsto> Dir,
              demo_nm @ [''@sillot'', ''vite-electron-renderer'', ''esm-pkg''] \<mapsto> Dir,
              demo_bundle \<mapsto> File ''module.exports = {a: 1}''))
     demo_cache demo_bundle)"

subsection \<open>Lemmas\<close>

lemma dest_Inr: "dest nm name w = Inr (d, w') \<Longrightarrow> d = dest_of nm name \<and> ensure_dir (wfs w) (destpath d) = Inr (wfs w') \<and> w' = w\<lparr>wfs := wfs w'\<rparr>"
  by (auto simp: dest_def Let_def split: sum.splits)

lemma dest_of_paths:
  "destname (dest_of nm n) = destpath (dest_of nm n) @ [''index.js''] \<and>
   destname_cjs (dest_of nm n) = destpath (dest_of nm n) @ [''index.cjs'']"
  by (simp add: dest_of_def Let_def join_path_simple)

lemma destname_not_cache_file:
  "destname (dest_of nm n) \<noteq> cache_file (new_cache r) \<and> destname_cjs (dest_of nm n) \<noteq> cache_file (new_cache r) \<and>
   destname (dest_of nm n) \<noteq> destname_cjs (dest_of nm n)"
  by (simp add: dest_of_paths new_cache_file)

lemma cjs_bundling_Inr:
  assumes "cjs_bundling e nm c name req rid w = Inr w'"
  obtains d w1 where "dest nm name w = Inr (d, w1)" "check_hash (md5 e) (wfs w1) c (destname d) = Inr True" "w' = w1"
  | d w1 keys f2 f3 where "dest nm name w = Inr (d, w1)" "check_hash (md5 e) (wfs w1) c (destname d) = Inr False"
      "module_keys e (wfs w1) rid = Some keys" "ensure_dir (wfs w1) (destpath d) = Inr f2"
      "write_file f2 (destname d) (shim_code e req keys) = Inr f3"
      "write_cache (md5 e) (clock w1) f3 c (destname d) = Inr (wfs w')"
      "w' = log (''Pre-bundling: '' @ name) (w1\<lparr>wfs := wfs w'\<rparr>)"
  using assms
  by (auto simp: cjs_bundling_def log_def split: sum.splits bool.splits option.splits)

lemma dest_again: "dest nm name w = Inr (d, w1) \<Longrightarrow> dest nm name w1 = Inr (d, w1)"
proof -
  assume a: "dest nm name w = Inr (d, w1)"
  then have d: "d = dest_of nm name" and e: "ensure_dir (wfs w) (destpath d) = Inr (wfs w1)"
    using dest_Inr by blast+
  have "ensure_dir (wfs w1) (destpath d) = Inr (wfs w1)" using ensure_dir_again [OF e] .
  then show ?thesis using d by (simp add: dest_def)
qed

lemma cjs_bundling_written:
  assumes dst: "dest nm name w = Inr (d, w1)" and ens: "ensure_dir (wfs w1) (destpath d) = Inr f2"
    and wr: "write_file f2 (destname d) code = Inr f3"
    and wc: "write_cache dg now f3 (new_cache r) (destname d) = Inr f4"
    and ok: "json_ok (read_cache (wfs w) (new_cache r))"
  shows "read_file f4 (destname d) = Inr code \<and> check_hash dg f4 (new_cache r) (destname d) = Inr True \<and>
         exists_sync f4 (destpath d)"
proof -
  let ?c = "new_cache r"
  have d: "d = dest_of nm name" and ens0: "ensure_dir (wfs w) (destpath d) = Inr (wfs w1)"
    using dest_Inr [OF dst] by auto
  have ne: "destname d \<noteq> cache_file ?c" using d destname_not_cache_file by blast
  have f2: "f2 = wfs w1" using ens ensure_dir_exists [OF ens0] by (simp add: ensure_dir_def)
  have f3: "f3 = (wfs w1)(destname d \<mapsto> File code)" and nn: "destname d \<noteq> []"
    using wr f2 write_file_Inr by blast+
  have rc: "read_cache f3 ?c = read_cache (wfs w) ?c"
    using f3 ne read_cache_upd_other
      read_cache_grows [where f' = "wfs w1" and f = "wfs w" and c = ?c, OF ensure_dir_grows [OF ens0]] by simp
  have valid: "check_hash dg f4 ?c (destname d) = Inr True"
    using write_cache_valid [OF wc ne] rc ok by simp
  obtain s where f4: "f4 = f3(cache_file ?c \<mapsto> File s)" using write_cache_upd [OF wc] by blast
  have "read_file f4 (destname d) = Inr code"
    using f4 f3 ne nn by (simp add: read_file_upd_other read_file_upd_same)
  moreover have "exists_sync f4 (destpath d)"
    using ensure_dir_exists [OF ens0] f3 f4 by (simp add: exists_sync_upd)
  ultimately show ?thesis using valid by blast
qed

lemma dest_world: "dest nm n w = Inr (d, w') \<Longrightarrow> console w' = console w \<and> rejections w' = rejections w"
  by (auto simp: dest_def Let_def split: sum.splits)

lemma cjs_bundling_world:
  assumes "cjs_bundling e nm c name req rid w = Inr w'"
  shows "rejections w' = rejections w \<and> prefix (console w) (console w')"
  using assms
proof (cases rule: cjs_bundling_Inr)
  case (1 d w1)
  then show ?thesis using dest_world by simp
next
  case (2 d w1 keys f2 f3)
  from 2(7) have "console w' = console (log (''Pre-bundling: '' @ name) (w1\<lparr>wfs := wfs w'\<rparr>))"
    and "rejections w' = rejections (log (''Pre-bundling: '' @ name) (w1\<lparr>wfs := wfs w'\<rparr>))" by (rule arg_cong)+
  with dest_world [OF 2(1)] show ?thesis by (simp add: log_def)
qed

lemma check_hash_unreadable: "isl (read_file f p) \<Longrightarrow> check_hash dg f c p = Inr False"
  by (auto simp: check_hash_def get_hash_def split: sum.splits)

lemma esm_bundling_start_world:
  "esm_bundling_start e nm c name entry w = (w', ts) \<Longrightarrow>
   console w' = console w \<and> prefix (rejections w) (rejections w')"
proof (cases "dest nm name w")
  case (Inr r)
  obtain d w1 where r: "r = (d, w1)" by (cases r)
  with Inr have "console w1 = console w \<and> rejections w1 = rejections w" using dest_world by blast
  moreover assume "esm_bundling_start e nm c name entry w = (w', ts)"
  ultimately show ?thesis using Inr r
    by (auto simp: esm_bundling_start_def reject_def split: sum.splits bool.splits)
qed (auto simp: esm_bundling_start_def reject_def)

lemma dest_unreadable:
  "dest nm n w = Inr (d, w1) \<Longrightarrow> wfs w p = None \<Longrightarrow> isl (read_file (wfs w1) p)"
proof -
  assume dst: "dest nm n w = Inr (d, w1)" and none: "wfs w p = None"
  have "ensure_dir (wfs w) (destpath d) = Inr (wfs w1)" using dest_Inr [OF dst] by blast
  from ensure_dir_grows [OF this, of p] none
  have "wfs w1 p = None \<or> wfs w1 p = Some Dir" by auto
  then show ?thesis by (auto simp: read_file_def)
qed

lemma dest_reject: "dest nm n (reject err w) = map_sum id (\<lambda>(d, w1). (d, reject err w1)) (dest nm n w)"
  by (simp add: dest_def reject_def Let_def split: sum.split)

subsection \<open>Properties\<close>

text \<open>C5. \<open>cjsBundling\<close> is idempotent: once a call has succeeded on a project whose metadata is missing, unparsable or well-formed JSON, the same call on the world it produced returns at once and changes nothing, so a second run of an unchanged project regenerates no shim.\<close>

theorem cjs_bundling_idempotent:
  assumes run: "cjs_bundling e nm (new_cache r) name req rid w = Inr w'"
    and ok: "json_ok (read_cache (wfs w) (new_cache r))"
  shows "cjs_bundling e nm (new_cache r) name req rid w' = Inr w'"
  using run
proof (cases rule: cjs_bundling_Inr)
  case (1 d w1)
  then show ?thesis using dest_again by (simp add: cjs_bundling_def)
next
  case (2 d w1 keys f2 f3)
  have d: "d = dest_of nm name" using dest_Inr [OF 2(1)] by blast
  have "check_hash (md5 e) (wfs w') (new_cache r) (destname d) = Inr True"
    and "exists_sync (wfs w') (destpath d)"
    using cjs_bundling_written [OF 2(1) 2(4) 2(5) 2(6) ok] by blast+
  moreover from this(2) have "dest nm name w' = Inr (d, w')"
    using d by (simp add: dest_def ensure_dir_def)
  ultimately show ?thesis by (simp add: cjs_bundling_def)
qed

theorem cjs_bundling_idempotent_witness:
  "cjs_bundling demo_env demo_nm demo_cache ''lodash'' ''lodash'' (demo_nm @ [''lodash'', ''index.js'']) demo_world
     = Inr (projr (cjs_bundling demo_env demo_nm demo_cache ''lodash'' ''lodash'' (demo_nm @ [''lodash'', ''index.js'']) demo_world)) \<and>
   json_ok (read_cache (wfs demo_world) demo_cache) \<and>
   cjs_bundling demo_env demo_nm demo_cache ''lodash'' ''lodash'' (demo_nm @ [''lodash'', ''index.js''])
     (projr (cjs_bundling demo_env demo_nm demo_cache ''lodash'' ''lodash'' (demo_nm @ [''lodash'', ''index.js'']) demo_world))
     = Inr (projr (cjs_bundling demo_env demo_nm demo_cache ''lodash'' ''lodash'' (demo_nm @ [''lodash'', ''index.js'']) demo_world))"
proof -
  let ?run = "cjs_bundling demo_env demo_nm demo_cache ''lodash'' ''lodash'' (demo_nm @ [''lodash'', ''index.js''])"
  have "\<not> isl (?run demo_world)" by code_simp
  then have run: "?run demo_world = Inr (projr (?run demo_world))" by (rule not_isl_Inr_projr)
  have ok: "json_ok (read_cache (wfs demo_world) demo_cache)" by code_simp
  show ?thesis
    using run ok cjs_bundling_idempotent [where r = "join_path demo_nm cache_dir", folded demo_cache_def, OF run ok]
    by blast
qed

text \<open>C6. On a cache miss \<open>cjsBundling\<close> writes the shim \<open>const _M_ = require("<require>");\n\<close> followed by lib-esm's re-exports of the keys the module has when it is loaded, records it in the metadata so that \<open>checkHash\<close> vouches for it afterwards, and logs \<open>Pre-bundling: <name>\<close>.\<close>

theorem cjs_bundling_miss:
  assumes dst: "dest nm name w = Inr (d, w1)"
    and miss: "check_hash (md5 e) (wfs w1) (new_cache r) (destname d) = Inr False"
    and run: "cjs_bundling e nm (new_cache r) name req rid w = Inr w'"
    and ok: "json_ok (read_cache (wfs w) (new_cache r))"
  shows "\<exists>keys. module_keys e (wfs w1) rid = Some keys \<and>
           read_file (wfs w') (destname d) = Inr (shim_code e req keys) \<and>
           check_hash (md5 e) (wfs w') (new_cache r) (destname d) = Inr True \<and>
           console w' = console w @ [''Pre-bundling: '' @ name]"
  using run
proof (cases rule: cjs_bundling_Inr)
  case (1 d' w1')
  with dst miss show ?thesis by simp
next
  case (2 d' w1' keys f2 f3)
  with dst have eq: "d' = d" "w1' = w1" by simp_all
  have w1: "w1 = w\<lparr>wfs := wfs w1\<rparr>" using dest_Inr [OF dst] by blast
  from 2(7) have "console w' = console (log (''Pre-bundling: '' @ name) (w1'\<lparr>wfs := wfs w'\<rparr>))" by (rule arg_cong)
  moreover from w1 have "console w1 = console (w\<lparr>wfs := wfs w1\<rparr>)" by (rule arg_cong)
  ultimately have "console w' = console w @ [''Pre-bundling: '' @ name]" using eq by (simp add: log_def)
  with cjs_bundling_written [OF dst] 2 eq ok show ?thesis by blast
qed

theorem cjs_bundling_miss_witness:
  "dest demo_nm ''lodash'' demo_world = Inr (projr (dest demo_nm ''lodash'' demo_world)) \<and>
   check_hash rev (wfs (snd (projr (dest demo_nm ''lodash'' demo_world)))) demo_cache
     (destname (fst (projr (dest demo_nm ''lodash'' demo_world)))) = Inr False \<and>
   \<not> isl (cjs_bundling demo_env demo_nm demo_cache ''lodash'' ''lodash'' (demo_nm @ [''lodash'', ''index.js'']) demo_world) \<and>
   (\<exists>keys. module_keys demo_env (wfs (snd (projr (dest demo_nm ''lodash'' demo_world)))) (demo_nm @ [''lodash'', ''index.js'']) = Some keys \<and>
      read_file (wfs (projr (cjs_bundling demo_env demo_nm demo_cache ''lodash'' ''lodash'' (demo_nm @ [''lodash'', ''index.js'']) demo_world)))
        (destname (fst (projr (dest demo_nm ''lodash'' demo_world)))) = Inr (shim_code demo_env ''lodash'' keys))"
proof -
  let ?D = "projr (dest demo_nm ''lodash'' demo_world)"
  let ?run = "cjs_bundling demo_env demo_nm demo_cache ''lodash'' ''lodash'' (demo_nm @ [''lodash'', ''index.js'']) demo_world"
  have "\<not> isl (dest demo_nm ''lodash'' demo_world)" by code_simp
  then have dst: "dest demo_nm ''lodash'' demo_world = Inr (fst ?D, snd ?D)" using not_isl_Inr_projr by fastforce
  have miss: "check_hash (md5 demo_env) (wfs (snd ?D)) demo_cache (destname (fst ?D)) = Inr False" by code_simp
  have ni: "\<not> isl ?run" by code_simp
  then have run: "?run = Inr (projr ?run)" by (rule not_isl_Inr_projr)
  have ok: "json_ok (read_cache (wfs demo_world) demo_cache)" by code_simp
  have md: "md5 demo_env = rev" by (simp add: demo_env_def)
  show ?thesis
    using cjs_bundling_miss [where r = "join_path demo_nm cache_dir", folded demo_cache_def, OF dst miss run ok] dst miss ni md
    by auto
qed

text \<open>C9. When the cache vouches for the shim \<open>index.js\<close>, \<open>cjsBundling\<close> returns after creating the directory, whatever the module's entry file and its exports are now: the cache key is the digest of the generated shim, not of the entry file, so a changed entry is not re-shimmed.\<close>

theorem cjs_bundling_cache_hit:
  assumes "dest nm name w = Inr (d, w1)"
    and "check_hash (md5 e) (wfs w1) c (destname d) = Inr True"
  shows "cjs_bundling (e\<lparr>module_keys := mk\<rparr>) nm c name req rid w = Inr w1"
  using assms by (simp add: cjs_bundling_def)

theorem cjs_bundling_cache_hit_witness:
  "dest demo_nm ''lodash'' (projr (cjs_bundling demo_env demo_nm demo_cache ''lodash'' ''lodash'' (demo_nm @ [''lodash'', ''index.js'']) demo_world))
     = Inr (projr (dest demo_nm ''lodash'' (projr (cjs_bundling demo_env demo_nm demo_cache ''lodash'' ''lodash'' (demo_nm @ [''lodash'', ''index.js'']) demo_world)))) \<and>
   cjs_bundling (demo_env\<lparr>module_keys := (\<lambda>f p. Some [''changed''])\<rparr>) demo_nm demo_cache ''lodash'' ''lodash'' (demo_nm @ [''lodash'', ''index.js''])
     (projr (cjs_bundling demo_env demo_nm demo_cache ''lodash'' ''lodash'' (demo_nm @ [''lodash'', ''index.js'']) demo_world))
   = Inr (snd (projr (dest demo_nm ''lodash'' (projr (cjs_bundling demo_env demo_nm demo_cache ''lodash'' ''lodash'' (demo_nm @ [''lodash'', ''index.js'']) demo_world)))))"
proof -
  let ?W = "projr (cjs_bundling demo_env demo_nm demo_cache ''lodash'' ''lodash'' (demo_nm @ [''lodash'', ''index.js'']) demo_world)"
  let ?D = "projr (dest demo_nm ''lodash'' ?W)"
  have "\<not> isl (dest demo_nm ''lodash'' ?W)" by code_simp
  then have dst: "dest demo_nm ''lodash'' ?W = Inr (fst ?D, snd ?D)" using not_isl_Inr_projr by fastforce
  have hit: "check_hash (md5 demo_env) (wfs (snd ?D)) demo_cache (destname (fst ?D)) = Inr True" by code_simp
  show ?thesis using dst cjs_bundling_cache_hit [OF dst hit, of "\<lambda>f p. Some [''changed'']"] by simp
qed

text \<open>C11. When the cache vouches for the bundle \<open>index.cjs\<close>, \<open>esmBundling\<close> schedules nothing, even if the shim \<open>index.js\<close> does not exist: the shim is neither checked nor regenerated, yet the hook still aliases the module to it.\<close>

theorem esm_bundle_hit_skips_shim:
  assumes dst: "dest nm name w = Inr (d, w1)"
    and hit: "check_hash (md5 e) (wfs w1) c (destname_cjs d) = Inr True"
    and none: "wfs w (destname d) = None"
  shows "esm_bundling_start e nm c name entry w = (w1, []) \<and> isl (read_file (wfs w1) (destname d))"
proof -
  have "ensure_dir (wfs w) (destpath d) = Inr (wfs w1)" using dest_Inr [OF dst] by blast
  from ensure_dir_grows [OF this, of "destname d"] none
  have "wfs w1 (destname d) = None \<or> wfs w1 (destname d) = Some Dir" by auto
  then have "isl (read_file (wfs w1) (destname d))" by (auto simp: read_file_def)
  with dst hit show ?thesis by (simp add: esm_bundling_start_def)
qed

theorem esm_bundle_hit_skips_shim_witness:
  "dest demo_nm ''esm-pkg'' (demo_world\<lparr>wfs := demo_cached_fs\<rparr>) = Inr (projr (dest demo_nm ''esm-pkg'' (demo_world\<lparr>wfs := demo_cached_fs\<rparr>))) \<and>
   check_hash rev (wfs (snd (projr (dest demo_nm ''esm-pkg'' (demo_world\<lparr>wfs := demo_cached_fs\<rparr>))))) demo_cache
     (destname_cjs (fst (projr (dest demo_nm ''esm-pkg'' (demo_world\<lparr>wfs := demo_cached_fs\<rparr>))))) = Inr True \<and>
   demo_cached_fs (destname (fst (projr (dest demo_nm ''esm-pkg'' (demo_world\<lparr>wfs := demo_cached_fs\<rparr>))))) = None \<and>
   snd (esm_bundling_start demo_env demo_nm demo_cache ''esm-pkg'' (demo_nm @ [''esm-pkg'', ''index.js''])
          (demo_world\<lparr>wfs := demo_cached_fs\<rparr>)) = []"
proof -
  let ?w = "demo_world\<lparr>wfs := demo_cached_fs\<rparr>"
  let ?D = "projr (dest demo_nm ''esm-pkg'' ?w)"
  have "\<not> isl (dest demo_nm ''esm-pkg'' ?w)" by code_simp
  then have dst: "dest demo_nm ''esm-pkg'' ?w = Inr (fst ?D, snd ?D)" using not_isl_Inr_projr by fastforce
  have hit: "check_hash (md5 demo_env) (wfs (snd ?D)) demo_cache (destname_cjs (fst ?D)) = Inr True" by code_simp
  have none: "wfs ?w (destname (fst ?D)) = None" by code_simp
  have md: "md5 demo_env = rev" by (simp add: demo_env_def)
  show ?thesis using esm_bundle_hit_skips_shim [OF dst hit none, of "demo_nm @ [''esm-pkg'', ''index.js'']"]
      dst hit none md by simp
qed

text \<open>C17. The options handed to esbuild are the plugin's defaults overridden by \<open>...buildOptions\<close>: every key the user sets wins, \<open>format\<close>, \<open>bundle\<close> and \<open>external\<close> included, and every other key keeps its default.\<close>

theorem esm_build_options_override:
  "map_of (esm_build_options bm entry out (Some bo)) = map_of (esm_default_options bm entry out) ++ map_of (rev bo)"
  by (simp add: esm_build_options_def map_of_foldl_upd_prop)

end
