(* ===== verification/Orchestrator.thy ===== *)
theory Orchestrator
  imports Bundler
begin

text \<open>
  The second loop of the \<open>optimizer\<close> config hook
  (\<open>src/src/optimizer.ts\<close>, lines 107-141), the hook as a whole (lines
  43-145), and \<open>run_tasks\<close>, which runs the \<open>esmBundling\<close>
  continuations the hook leaves pending in a given order (\<open>EventLoop\<close>
  lets them run in any order).
\<close>

subsection \<open>The second loop and the hook\<close>

text \<open>What the second loop accumulates: the world, the aliases, the names to
  exclude and the pending tasks.\<close>

record acc =
  acc_world :: world
  acc_aliases :: "alias_entry list"
  acc_exclude :: "string list"
  acc_tasks :: "task list"

definition resolve_dep_filename :: "env \<Rightarrow> dep \<Rightarrow> world \<Rightarrow> path option \<times> world" where
  "resolve_dep_filename e d w =
     (case dep_filename d of
        Some fn \<Rightarrow> (Some fn, w)
      | None \<Rightarrow>
          (case or_str (dep_cjs d) (dep_esm d) of
             None \<Rightarrow> (None, log ''Can not resolve module: undefined'' w)
           | Some m \<Rightarrow>
               (case resolve_bare e (wfs w) m of
                  None \<Rightarrow> (None, log (''Can not resolve module: '' @ m) w)
                | Some fn \<Rightarrow> (Some fn, w))))"

definition process_dep ::
  "env \<Rightarrow> path \<Rightarrow> cache \<Rightarrow> acc \<Rightarrow> dep \<Rightarrow> js_error + acc" where
  "process_dep e nm c a d =
     (case resolve_dep_filename e d (acc_world a) of
        (None, w) \<Rightarrow> Inr (a\<lparr>acc_world := w\<rparr>)
      | (Some fn, w) \<Rightarrow>
          (let bundled =
             (if truthy (dep_cjs d) then
                (case cjs_bundling e nm c (the (dep_cjs d)) (the (dep_cjs d)) fn w of
                   Inl err \<Rightarrow> Inl err
                 | Inr w1 \<Rightarrow> Inr (w1, []))
              else if truthy (dep_esm d) then
                Inr (esm_bundling_start e nm c (the (dep_esm d)) fn w)
              else Inr (w, []))
           in case bundled of
                Inl err \<Rightarrow> Inl err
              | Inr (w1, ts) \<Rightarrow>
                  (case or_str (dep_cjs d) (dep_esm d) of
                     Some name \<Rightarrow>
                       if name = [] then Inr (a\<lparr>acc_world := w1, acc_tasks := acc_tasks a @ ts\<rparr>)
                       else
                         (case dest nm name w1 of
                            Inl err \<Rightarrow> Inl err
                          | Inr (dp, w2) \<Rightarrow>
                              Inr (a\<lparr>acc_world := w2,
                                     acc_aliases := acc_aliases a @ [\<lparr>find = FindStr name, replacement = path_str (destname dp)\<rparr>],
                                     acc_exclude := acc_exclude a @ [name],
                                     acc_tasks := acc_tasks a @ ts\<rparr>))
                   | None \<Rightarrow> Inr (a\<lparr>acc_world := w1, acc_tasks := acc_tasks a @ ts\<rparr>))))"

fun process_deps :: "env \<Rightarrow> path \<Rightarrow> cache \<Rightarrow> acc \<Rightarrow> dep list \<Rightarrow> js_error + acc" where
  "process_deps e nm c a [] = Inr a"
| "process_deps e nm c a (d # ds) =
     (case process_dep e nm c a d of Inl err \<Rightarrow> Inl err | Inr a' \<Rightarrow> process_deps e nm c a' ds)"

text \<open>The config hook: \<open>Inl\<close> is a rejection of the hook itself; otherwise
  the world, the configuration handed on to Vite and the tasks left pending.\<close>

definition optimizer_config ::
  "env \<Rightarrow> dep_options \<Rightarrow> world \<Rightarrow> user_config \<Rightarrow> js_error + (world \<times> user_config \<times> task list)" where
  "optimizer_config e opts w cfg =
     (case opt_include opts of
        None \<Rightarrow> Inr (w, cfg, [])
      | Some [] \<Rightarrow> Inr (w, cfg, [])
      | Some items \<Rightarrow>
          (case find_node_modules e (wfs w) (cfg_root cfg) of
             [] \<Rightarrow> Inl (TypeError ''The \"path\" argument must be of type string'')
           | nm # _ \<Rightarrow>
               let c = new_cache (join_path nm cache_dir) in
               (case collect_deps e nm w items of
                  Inl err \<Rightarrow> Inl err
                | Inr (deps, w1) \<Rightarrow>
                    (case process_deps e nm c
                            \<lparr>acc_world = w1, acc_aliases = [], acc_exclude = [], acc_tasks = []\<rparr> deps of
                       Inl err \<Rightarrow> Inl err
                     | Inr a \<Rightarrow>
                         Inr (acc_world a,
                              modify_optimize_deps (modify_alias cfg (acc_aliases a)) (acc_exclude a),
                              acc_tasks a)))))"

text \<open>The event loop after the hook: the pending tasks, in the order they are
  scheduled.\<close>

fun run_tasks :: "env \<Rightarrow> path \<Rightarrow> cache \<Rightarrow> json props option \<Rightarrow> task list \<Rightarrow> world \<Rightarrow> world" where
  "run_tasks e nm c bo [] w = w"
| "run_tasks e nm c bo (t # ts) w = run_tasks e nm c bo ts (run_task e nm c bo t w)"

subsection \<open>What the hook hands to Vite\<close>

text \<open>The alias the second loop pushes for a module \<open>n\<close>: \<open>{find: n,
  replacement: dest(n).destname}\<close>.\<close>

definition shim_alias :: "path \<Rightarrow> string \<Rightarrow> alias_entry" where
  "shim_alias nm n = \<lparr>find = FindStr n, replacement = path_str (destname (dest_of nm n))\<rparr>"

subsection \<open>Lemmas\<close>

lemma process_dep_shape:
  assumes "process_dep e nm c a d = Inr a'"
  shows "\<exists>ns. acc_aliases a' = acc_aliases a @ map (shim_alias nm) ns \<and> acc_exclude a' = acc_exclude a @ ns
           \<and> (\<forall>n \<in> set ns. n \<noteq> [] \<and> or_str (dep_cjs d) (dep_esm d) = Some n)"
proof -
  obtain r w where r: "resolve_dep_filename e d (acc_world a) = (r, w)" by (cases "resolve_dep_filename e d (acc_world a)")
  show ?thesis
  proof (cases r)
    case None
    with assms r show ?thesis by (auto simp: process_dep_def intro: exI [of _ "[]"])
  next
    case (Some fn)
    with assms r show ?thesis
      by (auto simp: process_dep_def shim_alias_def split: sum.splits option.splits if_splits prod.splits
               dest!: dest_Inr intro: exI [of _ "[]"])
  qed
qed

lemma process_deps_shape:
  "process_deps e nm c a ds = Inr a' \<Longrightarrow>
   \<exists>ns. acc_aliases a' = acc_aliases a @ map (shim_alias nm) ns \<and> acc_exclude a' = acc_exclude a @ ns
     \<and> (\<forall>n \<in> set ns. n \<noteq> [] \<and> (\<exists>d \<in> set ds. or_str (dep_cjs d) (dep_esm d) = Some n))"
proof (induction ds arbitrary: a)
  case Nil
  then show ?case by (auto intro: exI [of _ "[]"])
next
  case (Cons d ds)
  then obtain a1 where a1: "process_dep e nm c a d = Inr a1" and rest: "process_deps e nm c a1 ds = Inr a'"
    by (auto split: sum.splits)
  obtain ns1 where n1: "acc_aliases a1 = acc_aliases a @ map (shim_alias nm) ns1"
    "acc_exclude a1 = acc_exclude a @ ns1" "\<forall>n \<in> set ns1. n \<noteq> [] \<and> or_str (dep_cjs d) (dep_esm d) = Some n"
    using process_dep_shape [OF a1] by blast
  obtain ns2 where n2: "acc_aliases a' = acc_aliases a1 @ map (shim_alias nm) ns2"
    "acc_exclude a' = acc_exclude a1 @ ns2"
    "\<forall>n \<in> set ns2. n \<noteq> [] \<and> (\<exists>d \<in> set ds. or_str (dep_cjs d) (dep_esm d) = Some n)"
    using Cons.IH [OF rest] by blast
  show ?case using n1 n2 by (intro exI [of _ "ns1 @ ns2"]) auto
qed

lemma optimizer_config_steps:
  assumes run: "optimizer_config e opts w cfg = Inr (w', cfg', ts)"
    and inc: "opt_include opts = Some items" and ne: "items \<noteq> []"
  obtains nm nms ds w1 a where "find_node_modules e (wfs w) (cfg_root cfg) = nm # nms"
    "collect_deps e nm w items = Inr (ds, w1)"
    "process_deps e nm (new_cache (join_path nm cache_dir))
       \<lparr>acc_world = w1, acc_aliases = [], acc_exclude = [], acc_tasks = []\<rparr> ds = Inr a"
    "w' = acc_world a" "cfg' = modify_optimize_deps (modify_alias cfg (acc_aliases a)) (acc_exclude a)"
    "ts = acc_tasks a"
proof -
  obtain i0 is0 where items: "items = i0 # is0" using ne by (cases items) auto
  obtain nm nms where nm: "find_node_modules e (wfs w) (cfg_root cfg) = nm # nms"
    using run inc items by (cases "find_node_modules e (wfs w) (cfg_root cfg)") (auto simp: optimizer_config_def)
  have hook: "optimizer_config e opts w cfg =
          (case collect_deps e nm w items of
             Inl err \<Rightarrow> Inl err
           | Inr (deps, w1) \<Rightarrow>
               (case process_deps e nm (new_cache (join_path nm cache_dir))
                       \<lparr>acc_world = w1, acc_aliases = [], acc_exclude = [], acc_tasks = []\<rparr> deps of
                  Inl err \<Rightarrow> Inl err
                | Inr a \<Rightarrow>
                    Inr (acc_world a,
                         modify_optimize_deps (modify_alias cfg (acc_aliases a)) (acc_exclude a),
                         acc_tasks a)))"
    using inc items nm by (simp add: optimizer_config_def Let_def)
  let ?c = "new_cache (join_path nm cache_dir)"
  obtain ds w1 where cd: "collect_deps e nm w items = Inr (ds, w1)"
  proof (cases "collect_deps e nm w items")
    case (Inl err) with run hook show ?thesis by simp
  next
    case (Inr r) then show ?thesis using that by (cases r) simp
  qed
  obtain a where pd: "process_deps e nm ?c \<lparr>acc_world = w1, acc_aliases = [], acc_exclude = [], acc_tasks = []\<rparr> ds = Inr a"
  proof (cases "process_deps e nm ?c \<lparr>acc_world = w1, acc_aliases = [], acc_exclude = [], acc_tasks = []\<rparr> ds")
    case (Inl err) with run hook cd show ?thesis by simp
  qed
  from run hook cd pd have "w' = acc_world a" "cfg' = modify_optimize_deps (modify_alias cfg (acc_aliases a)) (acc_exclude a)"
    "ts = acc_tasks a" by simp_all
  with that nm cd pd show ?thesis by blast
qed

lemma optimizer_config_Inr:
  assumes "optimizer_config e opts w cfg = Inr (w', cfg', ts)"
    and "opt_include opts = Some items" and "items \<noteq> []"
  shows "\<exists>nm names. cfg' = modify_optimize_deps (modify_alias cfg (map (shim_alias nm) names)) names \<and>
           (\<forall>n \<in> set names. n \<noteq> [] \<and> (\<exists>it \<in> set items. item_name it = n \<and>
              (n \<in> set (builtins (builtin_modules e)) \<longrightarrow> item_type it \<noteq> None)))"
  using assms
proof (cases rule: optimizer_config_steps)
  case (1 nm nms ds w1 a)
  note cd = 1(2) and pd = 1(3) and cfg' = 1(5)
  obtain ns where ns: "acc_aliases a = map (shim_alias nm) ns" "acc_exclude a = ns"
    "\<forall>n \<in> set ns. n \<noteq> [] \<and> (\<exists>d \<in> set ds. or_str (dep_cjs d) (dep_esm d) = Some n)"
    using process_deps_shape [OF pd] by (metis acc.select_convs(2,3) append_Nil)
  have "\<forall>n \<in> set ns. n \<noteq> [] \<and> (\<exists>it \<in> set items. item_name it = n \<and>
              (n \<in> set (builtins (builtin_modules e)) \<longrightarrow> item_type it \<noteq> None))"
  proof
    fix n assume "n \<in> set ns"
    with ns(3) obtain d where n: "n \<noteq> []" "d \<in> set ds" "or_str (dep_cjs d) (dep_esm d) = Some n" by blast
    from collect_deps_names [OF cd n(2)] obtain it where it: "it \<in> set items"
      "(dep_cjs d = Some (item_name it) \<and> dep_esm d = None) \<or> (dep_esm d = Some (item_name it) \<and> dep_cjs d = None)"
      "item_name it \<in> set (builtins (builtin_modules e)) \<longrightarrow> item_type it \<noteq> None" by blast
    from or_str_one [OF it(2) n(3)] have "n = item_name it" .
    with n it show "n \<noteq> [] \<and> (\<exists>it \<in> set items. item_name it = n \<and>
              (n \<in> set (builtins (builtin_modules e)) \<longrightarrow> item_type it \<noteq> None))" by auto
  qed
  with cfg' ns(1,2) show ?thesis by (intro exI [of _ nm] exI [of _ ns]) simp
qed

lemma process_dep_esbuild: "process_dep (e\<lparr>esbuild := b\<rparr>) = process_dep e"
  by (simp add: fun_eq_iff process_dep_def resolve_dep_filename_def cjs_bundling_def esm_bundling_start_def
      shim_code_def Let_def cong: if_cong option.case_cong sum.case_cong prod.case_cong bool.case_cong)

lemma process_deps_esbuild: "process_deps (e\<lparr>esbuild := b\<rparr>) nm c a ds = process_deps e nm c a ds"
  by (induction ds arbitrary: a) (simp_all add: process_dep_esbuild cong: sum.case_cong)

lemma resolve_dep_filename_world:
  "resolve_dep_filename e d w = (r, w') \<Longrightarrow>
   wfs w' = wfs w \<and> rejections w' = rejections w \<and> prefix (console w) (console w')"
  by (auto simp: resolve_dep_filename_def log_def split: option.splits)

lemma process_dep_world:
  assumes "process_dep e nm c a d = Inr a'"
  shows "prefix (console (acc_world a)) (console (acc_world a')) \<and> prefix (rejections (acc_world a)) (rejections (acc_world a'))"
proof -
  obtain r w where r: "resolve_dep_filename e d (acc_world a) = (r, w)" by (cases "resolve_dep_filename e d (acc_world a)")
  have rw: "prefix (console (acc_world a)) (console w)" "rejections w = rejections (acc_world a)"
    using resolve_dep_filename_world [OF r] by auto
  show ?thesis
  proof (cases r)
    case None
    with assms r rw show ?thesis by (auto simp: process_dep_def)
  next
    case (Some fn)
    have bund: "prefix (console w) (console w1) \<and> prefix (rejections w) (rejections w1)"
      if "(if truthy (dep_cjs d) then (case cjs_bundling e nm c (the (dep_cjs d)) (the (dep_cjs d)) fn w of
                 Inl err \<Rightarrow> Inl err | Inr w1 \<Rightarrow> Inr (w1, []))
            else if truthy (dep_esm d) then Inr (esm_bundling_start e nm c (the (dep_esm d)) fn w)
            else Inr (w, [])) = Inr (w1, ts)" for w1 ts
      using that cjs_bundling_world esm_bundling_start_world
      by (auto split: if_splits sum.splits)
    from assms r Some obtain w1 ts where
      b: "(if truthy (dep_cjs d) then (case cjs_bundling e nm c (the (dep_cjs d)) (the (dep_cjs d)) fn w of
                 Inl err \<Rightarrow> Inl err | Inr w1 \<Rightarrow> Inr (w1, []))
            else if truthy (dep_esm d) then Inr (esm_bundling_start e nm c (the (dep_esm d)) fn w)
            else Inr (w, [])) = Inr (w1, ts)"
      and rest: "(case or_str (dep_cjs d) (dep_esm d) of
                     Some name \<Rightarrow>
                       if name = [] then Inr (a\<lparr>acc_world := w1, acc_tasks := acc_tasks a @ ts\<rparr>)
                       else
                         (case dest nm name w1 of
                            Inl err \<Rightarrow> Inl err
                          | Inr (dp, w2) \<Rightarrow>
                              Inr (a\<lparr>acc_world := w2,
                                     acc_aliases := acc_aliases a @ [\<lparr>find = FindStr name, replacement = path_str (destname dp)\<rparr>],
                                     acc_exclude := acc_exclude a @ [name],
                                     acc_tasks := acc_tasks a @ ts\<rparr>))
                   | None \<Rightarrow> Inr (a\<lparr>acc_world := w1, acc_tasks := acc_tasks a @ ts\<rparr>)) = Inr a'"
      by (auto simp: process_dep_def Let_def split: sum.splits)
    have "prefix (console w1) (console (acc_world a')) \<and> rejections (acc_world a') = rejections w1"
      using rest dest_world by (auto split: option.splits if_splits sum.splits)
    with bund [OF b] rw show ?thesis by (auto intro: prefix_order.trans)
  qed
qed

lemma process_deps_world:
  "process_deps e nm c a ds = Inr a' \<Longrightarrow>
   prefix (console (acc_world a)) (console (acc_world a')) \<and> prefix (rejections (acc_world a)) (rejections (acc_world a'))"
proof (induction ds arbitrary: a)
  case (Cons d ds)
  then obtain a1 where "process_dep e nm c a d = Inr a1" "process_deps e nm c a1 ds = Inr a'"
    by (auto split: sum.splits)
  with Cons.IH process_dep_world show ?case by (blast intro: prefix_order.trans)
qed simp

lemma process_dep_esm_pending:
  assumes run: "process_dep e nm c a d = Inr a'"
    and dep: "dep_cjs d = None" "dep_esm d = Some n" "n \<noteq> []" "dep_filename d = Some fn"
    and nobundle: "wfs (acc_world a) (destname_cjs (dest_of nm n)) = None"
    and noshim: "wfs (acc_world a) (destname (dest_of nm n)) = None"
  shows "acc_aliases a' = acc_aliases a @ [shim_alias nm n] \<and> acc_exclude a' = acc_exclude a @ [n] \<and>
         acc_tasks a' = acc_tasks a @ [EsmTask n fn] \<and>
         isl (read_file (wfs (acc_world a')) (destname (dest_of nm n))) \<and>
         isl (read_file (wfs (acc_world a')) (destname_cjs (dest_of nm n)))"
proof -
  let ?W = "acc_world a"
  have tr: "\<not> truthy (dep_cjs d)" "truthy (dep_esm d)" "or_str (dep_cjs d) (dep_esm d) = Some n"
    using dep by (simp_all add: truthy_def or_str_def)
  have rs: "resolve_dep_filename e d ?W = (Some fn, ?W)" using dep by (simp add: resolve_dep_filename_def)
  have pd: "process_dep e nm c a d =
     (case esm_bundling_start e nm c n fn ?W of (w1, ts) \<Rightarrow>
        (case dest nm n w1 of
           Inl err \<Rightarrow> Inl err
         | Inr (dp, w2) \<Rightarrow>
             Inr (a\<lparr>acc_world := w2,
                    acc_aliases := acc_aliases a @ [\<lparr>find = FindStr n, replacement = path_str (destname dp)\<rparr>],
                    acc_exclude := acc_exclude a @ [n], acc_tasks := acc_tasks a @ ts\<rparr>)))"
    using rs tr dep by (simp add: process_dep_def Let_def split: prod.split)
  obtain d1 w1 where dst: "dest nm n ?W = Inr (d1, w1)"
  proof (cases "dest nm n ?W")
    case (Inl err)
    then have "esm_bundling_start e nm c n fn ?W = (reject err ?W, [])" by (simp add: esm_bundling_start_def)
    with pd run Inl show ?thesis by (simp add: dest_reject)
  next
    case (Inr r) with that show ?thesis by (cases r) auto
  qed
  have d1: "d1 = dest_of nm n" using dest_Inr [OF dst] by blast
  have "check_hash (md5 e) (wfs w1) c (destname_cjs d1) = Inr False"
    using dest_unreadable [OF dst nobundle] d1 by (simp add: check_hash_unreadable)
  then have es: "esm_bundling_start e nm c n fn ?W = (w1, [EsmTask n fn])"
    using dst by (simp add: esm_bundling_start_def)
  have a': "a' = a\<lparr>acc_world := w1, acc_aliases := acc_aliases a @ [shim_alias nm n],
                    acc_exclude := acc_exclude a @ [n], acc_tasks := acc_tasks a @ [EsmTask n fn]\<rparr>"
    using pd run es dest_again [OF dst] d1 by (simp add: shim_alias_def)
  show ?thesis using a' dest_unreadable [OF dst noshim] dest_unreadable [OF dst nobundle] d1 by simp
qed

subsection \<open>Properties\<close>

text \<open>C1. Batch emission: when the hook succeeds on a non-empty \<open>include\<close>, the configuration it hands on is the user's configuration extended by one \<open>modifyAlias\<close> call and one \<open>modifyOptimizeDeps\<close> call over the same list of names, in the same order, each aliased to its shim \<open>node_modules/@sillot/vite-electron-renderer/<name>/index.js\<close>; every such name is non-empty and names an entry of \<open>include\<close>.\<close>

theorem optimizer_config_batch:
  assumes "optimizer_config e opts w cfg = Inr (w', cfg', ts)"
    and "opt_include opts = Some items" and "items \<noteq> []"
  shows "\<exists>nm names. cfg' = modify_optimize_deps (modify_alias cfg (map (shim_alias nm) names)) names \<and>
           (\<forall>n \<in> set names. n \<noteq> [] \<and> n \<in> item_name ` set items)"
  using optimizer_config_Inr [OF assms] by fastforce

theorem optimizer_config_batch_witness:
  "optimizer_config demo_env (demo_opts [IName ''lodash'']) demo_world demo_cfg =
     Inr (fst (projr (optimizer_config demo_env (demo_opts [IName ''lodash'']) demo_world demo_cfg)),
          fst (snd (projr (optimizer_config demo_env (demo_opts [IName ''lodash'']) demo_world demo_cfg))),
          snd (snd (projr (optimizer_config demo_env (demo_opts [IName ''lodash'']) demo_world demo_cfg)))) \<and>
   (\<exists>nm names. fst (snd (projr (optimizer_config demo_env (demo_opts [IName ''lodash'']) demo_world demo_cfg)))
        = modify_optimize_deps (modify_alias demo_cfg (map (shim_alias nm) names)) names \<and>
      (\<forall>n \<in> set names. n \<noteq> [] \<and> n \<in> item_name ` set [IName ''lodash'']))"
proof -
  let ?r = "optimizer_config demo_env (demo_opts [IName ''lodash'']) demo_world demo_cfg"
  have "\<not> isl ?r" by code_simp
  then have r: "?r = Inr (fst (projr ?r), fst (snd (projr ?r)), snd (snd (projr ?r)))"
    using not_isl_Inr_projr by fastforce
  have o: "opt_include (demo_opts [IName ''lodash'']) = Some [IName ''lodash'']" by (simp add: demo_opts_def)
  show ?thesis using r optimizer_config_batch [OF r o] by blast
qed

text \<open>C15. A built-in module reaches the batch only through an explicitly typed \<open>include\<close> entry: the first loop skips an untyped built-in, but \<open>{name, type}\<close> is pushed before the built-in check, so a typed built-in is bundled and aliased into the cache (the spec makes the built-in filter a precondition the resolver never meets).\<close>

theorem optimizer_config_builtins_typed:
  assumes "optimizer_config e opts w cfg = Inr (w', cfg', ts)"
    and "opt_include opts = Some items" and "items \<noteq> []"
  shows "\<exists>nm names. cfg' = modify_optimize_deps (modify_alias cfg (map (shim_alias nm) names)) names \<and>
           (\<forall>n \<in> set names. n \<in> set (builtins (builtin_modules e)) \<longrightarrow>
              (\<exists>t. ITyped n (Some t) \<in> set items))"
proof -
  have typed: "\<exists>t. ITyped n (Some t) \<in> set items"
    if "it \<in> set items" "item_name it = n" "item_type it \<noteq> None" for it n
  proof (cases it)
    case (IName x)
    with that(3) show ?thesis by (simp add: item_type_def)
  next
    case (ITyped x t)
    with that show ?thesis by (cases t) (auto simp: item_name_def item_type_def)
  qed
  show ?thesis using optimizer_config_Inr [OF assms] typed by metis
qed

theorem optimizer_config_builtins_typed_witness:
  "optimizer_config demo_env (demo_opts [ITyped ''fs'' (Some CommonJS)]) demo_world demo_cfg =
     Inr (fst (projr (optimizer_config demo_env (demo_opts [ITyped ''fs'' (Some CommonJS)]) demo_world demo_cfg)),
          fst (snd (projr (optimizer_config demo_env (demo_opts [ITyped ''fs'' (Some CommonJS)]) demo_world demo_cfg))),
          snd (snd (projr (optimizer_config demo_env (demo_opts [ITyped ''fs'' (Some CommonJS)]) demo_world demo_cfg)))) \<and>
   (\<exists>nm names. fst (snd (projr (optimizer_config demo_env (demo_opts [ITyped ''fs'' (Some CommonJS)]) demo_world demo_cfg)))
        = modify_optimize_deps (modify_alias demo_cfg (map (shim_alias nm) names)) names \<and>
      (\<forall>n \<in> set names. n \<in> set (builtins (builtin_modules demo_env)) \<longrightarrow>
         (\<exists>t. ITyped n (Some t) \<in> set [ITyped ''fs'' (Some CommonJS)])))"
proof -
  let ?r = "optimizer_config demo_env (demo_opts [ITyped ''fs'' (Some CommonJS)]) demo_world demo_cfg"
  have "\<not> isl ?r" by code_simp
  then have r: "?r = Inr (fst (projr ?r), fst (snd (projr ?r)), snd (snd (projr ?r)))"
    using not_isl_Inr_projr by fastforce
  have o: "opt_include (demo_opts [ITyped ''fs'' (Some CommonJS)]) = Some [ITyped ''fs'' (Some CommonJS)]"
    by (simp add: demo_opts_def)
  show ?thesis using r optimizer_config_builtins_typed [OF r o] by blast
qed

text \<open>C14. A missing esbuild is never surfaced by the hook: the config hook's outcome, its rejection included, is the same whatever esbuild is, because only the continuation of \<open>esmBundling\<close>, after the hook has returned, imports it (the spec makes a missing engine fatal for the run and surfaced at once).\<close>

theorem optimizer_config_esbuild_independent: "optimizer_config (e\<lparr>esbuild := b\<rparr>) opts w cfg = optimizer_config e opts w cfg"
  by (simp add: optimizer_config_def collect_deps_esbuild process_deps_esbuild classify_item_esbuild Let_def
      cong: option.case_cong list.case_cong sum.case_cong prod.case_cong)

text \<open>C2. Partial-failure isolation: an untyped, non-built-in entry of \<open>include\<close> that has no \<open>package.json\<close> under \<open>node_modules\<close> and that \<open>require.resolve\<close> cannot find is absent from both the alias and the exclusion batch, and the failure is logged as \<open>Can not resolve path: <path>\<close>; the hook still succeeds for the other entries.\<close>

theorem optimizer_config_unresolvable:
  assumes run: "optimizer_config e opts w cfg = Inr (w', cfg', ts)"
    and inc: "opt_include opts = Some items" and ne: "items \<noteq> []"
    and nm: "find_node_modules e (wfs w) (cfg_root cfg) = nm # nms"
    and untyped: "\<forall>it \<in> set items. item_name it = n \<longrightarrow> item_type it = None"
    and nb: "n \<notin> set (builtins (builtin_modules e))"
    and nopkg: "\<not> exists_sync (wfs w) (join_path (join_path nm n) ''package.json'')"
    and nores: "resolve_path e (wfs w) (join_path nm n) = None"
    and req: "n \<in> item_name ` set items"
  shows "\<exists>names. cfg' = modify_optimize_deps (modify_alias cfg (map (shim_alias nm) names)) names \<and>
           n \<notin> set names \<and> ''Can not resolve path: '' @ path_str (join_path nm n) \<in> set (console w')"
  using run inc ne
proof (cases rule: optimizer_config_steps)
  case (1 nm' nms' ds w1 a)
  from nm 1(1) have [simp]: "nm' = nm" by simp
  have cd: "collect_deps e nm w items = Inr (ds, w1)" using 1(2) by simp
  have pd: "process_deps e nm (new_cache (join_path nm cache_dir))
       \<lparr>acc_world = w1, acc_aliases = [], acc_exclude = [], acc_tasks = []\<rparr> ds = Inr a" using 1(3) by simp
  from collect_deps_unresolvable [OF cd untyped nb nopkg nores] req
  have nod: "\<forall>d \<in> set ds. dep_cjs d \<noteq> Some n \<and> dep_esm d \<noteq> Some n"
    and logged: "''Can not resolve path: '' @ path_str (join_path nm n) \<in> set (console w1)" by blast+
  obtain ns where ns: "acc_aliases a = map (shim_alias nm) ns" "acc_exclude a = ns"
    "\<forall>m \<in> set ns. m \<noteq> [] \<and> (\<exists>d \<in> set ds. or_str (dep_cjs d) (dep_esm d) = Some m)"
    using process_deps_shape [OF pd] by (metis acc.select_convs(2,3) append_Nil)
  have "n \<notin> set ns"
  proof
    assume "n \<in> set ns"
    with ns(3) obtain d where "d \<in> set ds" "or_str (dep_cjs d) (dep_esm d) = Some n" by blast
    with nod show False by (auto simp: or_str_def split: if_splits)
  qed
  moreover have "''Can not resolve path: '' @ path_str (join_path nm n) \<in> set (console w')"
    using logged process_deps_world [OF pd] 1(4) set_mono_prefix by fastforce
  ultimately show ?thesis using 1(5) ns by auto
qed

theorem optimizer_config_unresolvable_witness:
  "optimizer_config demo_env (demo_opts [IName ''ghost-pkg'', IName ''uuid'']) demo_world demo_cfg =
     Inr (fst (projr (optimizer_config demo_env (demo_opts [IName ''ghost-pkg'', IName ''uuid'']) demo_world demo_cfg)),
          fst (snd (projr (optimizer_config demo_env (demo_opts [IName ''ghost-pkg'', IName ''uuid'']) demo_world demo_cfg))),
          snd (snd (projr (optimizer_config demo_env (demo_opts [IName ''ghost-pkg'', IName ''uuid'']) demo_world demo_cfg)))) \<and>
   ''Can not resolve path: /proj/node_modules/ghost-pkg'' \<in>
     set (console (fst (projr (optimizer_config demo_env (demo_opts [IName ''ghost-pkg'', IName ''uuid'']) demo_world demo_cfg))))"
proof -
  let ?its = "[IName ''ghost-pkg'', IName ''uuid'']"
  let ?r = "optimizer_config demo_env (demo_opts ?its) demo_world demo_cfg"
  have "\<not> isl ?r" by code_simp
  then have r: "?r = Inr (fst (projr ?r), fst (snd (projr ?r)), snd (snd (projr ?r)))"
    using not_isl_Inr_projr by fastforce
  have inc: "opt_include (demo_opts ?its) = Some ?its" by (simp add: demo_opts_def)
  have ne: "?its \<noteq> []" by simp
  have nm: "find_node_modules demo_env (wfs demo_world) (cfg_root demo_cfg) = demo_nm # []" by (simp add: demo_env_def)
  have ut: "\<forall>it \<in> set ?its. item_name it = ''ghost-pkg'' \<longrightarrow> item_type it = None" by (simp add: item_type_def)
  have nb: "''ghost-pkg'' \<notin> set (builtins (builtin_modules demo_env))" by code_simp
  have np: "\<not> exists_sync (wfs demo_world) (join_path (join_path demo_nm ''ghost-pkg'') ''package.json'')" by code_simp
  have nr: "resolve_path demo_env (wfs demo_world) (join_path demo_nm ''ghost-pkg'') = None" by (simp add: demo_env_def)
  have rq: "''ghost-pkg'' \<in> item_name ` set ?its" by (simp add: item_name_def)
  have p: "path_str (join_path demo_nm ''ghost-pkg'') = ''/proj/node_modules/ghost-pkg''" by code_simp
  show ?thesis using r optimizer_config_unresolvable [OF r inc ne nm ut nb np nr rq] p by auto
qed

text \<open>C8. Aliases are emitted before ES modules are built: for any ES-module dependency whose bundle and shim do not exist yet, the second loop pushes the alias to the shim and the exclusion at once and leaves the build as a pending task, while neither the shim \<open>index.js\<close> nor the bundle \<open>index.cjs\<close> can be read (the spec emits the batch only after every module reached a terminal state).\<close>

theorem process_dep_esm_alias_before_shim:
  assumes "process_dep e nm c a d = Inr a'"
    and "dep_cjs d = None" "dep_esm d = Some n" "n \<noteq> []" "dep_filename d = Some fn"
    and "wfs (acc_world a) (destname_cjs (dest_of nm n)) = None"
    and "wfs (acc_world a) (destname (dest_of nm n)) = None"
  shows "acc_aliases a' = acc_aliases a @ [shim_alias nm n] \<and> acc_exclude a' = acc_exclude a @ [n] \<and>
         acc_tasks a' = acc_tasks a @ [EsmTask n fn] \<and>
         isl (read_file (wfs (acc_world a')) (destname (dest_of nm n))) \<and>
         isl (read_file (wfs (acc_world a')) (destname_cjs (dest_of nm n)))"
  using assms by (rule process_dep_esm_pending)

theorem process_dep_esm_alias_before_shim_witness:
  "acc_aliases (projr (process_dep demo_env demo_nm demo_cache
       \<lparr>acc_world = demo_world, acc_aliases = [], acc_exclude = [], acc_tasks = []\<rparr> (esm_dep ''esm-pkg'' (Some (demo_nm @ [''esm-pkg'', ''index.js''])))))
     = [shim_alias demo_nm ''esm-pkg''] \<and>
   acc_tasks (projr (process_dep demo_env demo_nm demo_cache
       \<lparr>acc_world = demo_world, acc_aliases = [], acc_exclude = [], acc_tasks = []\<rparr> (esm_dep ''esm-pkg'' (Some (demo_nm @ [''esm-pkg'', ''index.js''])))))
     = [EsmTask ''esm-pkg'' (demo_nm @ [''esm-pkg'', ''index.js''])]"
proof -
  let ?a = "\<lparr>acc_world = demo_world, acc_aliases = [], acc_exclude = [], acc_tasks = []\<rparr>"
  let ?d = "esm_dep ''esm-pkg'' (Some (demo_nm @ [''esm-pkg'', ''index.js'']))"
  have "\<not> isl (process_dep demo_env demo_nm demo_cache ?a ?d)" by code_simp
  then have run: "process_dep demo_env demo_nm demo_cache ?a ?d = Inr (projr (process_dep demo_env demo_nm demo_cache ?a ?d))"
    by (rule not_isl_Inr_projr)
  have dep: "dep_cjs ?d = None" "dep_esm ?d = Some ''esm-pkg''" "''esm-pkg'' \<noteq> []"
    "dep_filename ?d = Some (demo_nm @ [''esm-pkg'', ''index.js''])" by (simp_all add: esm_dep_def)
  have nb: "wfs (acc_world ?a) (destname_cjs (dest_of demo_nm ''esm-pkg'')) = None" by code_simp
  have ns: "wfs (acc_world ?a) (destname (dest_of demo_nm ''esm-pkg'')) = None" by code_simp
  show ?thesis using process_dep_esm_alias_before_shim [OF run dep nb ns] by simp
qed

text \<open>C12. A failed ES-module build is still aliased: when esbuild fails, the module that the second loop aliased and excluded keeps its alias although the continuation writes no shim, and the failure is only an unhandled rejection \<open>Build failed\<close> (the spec drops the module from both lists).\<close>

theorem esm_build_failure_still_aliased:
  assumes run: "process_dep e nm c a d = Inr a'"
    and dep: "dep_cjs d = None" "dep_esm d = Some n" "n \<noteq> []" "dep_filename d = Some fn"
    and nobundle: "wfs (acc_world a) (destname_cjs (dest_of nm n)) = None"
    and noshim: "wfs (acc_world a) (destname (dest_of nm n)) = None"
    and eb: "esbuild e = Some build" and fails: "\<forall>f opts. isl (build f opts)"
  shows "shim_alias nm n \<in> set (acc_aliases a') \<and> n \<in> set (acc_exclude a') \<and>
         isl (read_file (wfs (run_task e nm c bo (EsmTask n fn) (acc_world a'))) (destname (dest_of nm n))) \<and>
         rejections (run_task e nm c bo (EsmTask n fn) (acc_world a')) = rejections (acc_world a') @ [Thrown ''Build failed'']"
proof -
  have p: "acc_aliases a' = acc_aliases a @ [shim_alias nm n]" "acc_exclude a' = acc_exclude a @ [n]"
    "isl (read_file (wfs (acc_world a')) (destname (dest_of nm n)))"
    using process_dep_esm_pending [OF run dep nobundle noshim] by auto
  obtain errs where "build (wfs (acc_world a')) (esm_build_options (builtin_modules e) fn (destname_cjs (dest_of nm n)) bo) = Inl errs"
    using fails by (meson isl_def)
  then have "run_task e nm c bo (EsmTask n fn) (acc_world a') = reject (Thrown ''Build failed'') (acc_world a')"
    using eb by (simp add: run_task_def)
  with p show ?thesis by (simp add: reject_def)
qed

theorem esm_build_failure_still_aliased_witness:
  "shim_alias demo_nm ''esm-pkg'' \<in> set (acc_aliases (projr (process_dep (demo_env\<lparr>esbuild := Some demo_build_fail\<rparr>) demo_nm demo_cache
       \<lparr>acc_world = demo_world, acc_aliases = [], acc_exclude = [], acc_tasks = []\<rparr> (esm_dep ''esm-pkg'' (Some (demo_nm @ [''esm-pkg'', ''index.js''])))))) \<and>
   rejections (run_task (demo_env\<lparr>esbuild := Some demo_build_fail\<rparr>) demo_nm demo_cache None (EsmTask ''esm-pkg'' (demo_nm @ [''esm-pkg'', ''index.js'']))
       (acc_world (projr (process_dep (demo_env\<lparr>esbuild := Some demo_build_fail\<rparr>) demo_nm demo_cache
       \<lparr>acc_world = demo_world, acc_aliases = [], acc_exclude = [], acc_tasks = []\<rparr> (esm_dep ''esm-pkg'' (Some (demo_nm @ [''esm-pkg'', ''index.js''])))))))
   = [Thrown ''Build failed'']"
proof -
  let ?e = "demo_env\<lparr>esbuild := Some demo_build_fail\<rparr>"
  let ?a = "\<lparr>acc_world = demo_world, acc_aliases = [], acc_exclude = [], acc_tasks = []\<rparr>"
  let ?d = "esm_dep ''esm-pkg'' (Some (demo_nm @ [''esm-pkg'', ''index.js'']))"
  have "\<not> isl (process_dep ?e demo_nm demo_cache ?a ?d)" by code_simp
  then have run: "process_dep ?e demo_nm demo_cache ?a ?d = Inr (projr (process_dep ?e demo_nm demo_cache ?a ?d))"
    by (rule not_isl_Inr_projr)
  have dep: "dep_cjs ?d = None" "dep_esm ?d = Some ''esm-pkg''" "''esm-pkg'' \<noteq> []"
    "dep_filename ?d = Some (demo_nm @ [''esm-pkg'', ''index.js''])" by (simp_all add: esm_dep_def)
  have nb: "wfs (acc_world ?a) (destname_cjs (dest_of demo_nm ''esm-pkg'')) = None" by code_simp
  have ns: "wfs (acc_world ?a) (destname (dest_of demo_nm ''esm-pkg'')) = None" by code_simp
  have eb: "esbuild ?e = Some demo_build_fail" by simp
  have fails: "\<forall>f opts. isl (demo_build_fail f opts)" by (simp add: demo_build_fail_def)
  have rj: "rejections (acc_world (projr (process_dep ?e demo_nm demo_cache ?a ?d))) = []" by code_simp
  show ?thesis
    using esm_build_failure_still_aliased [OF run dep nb ns eb fails, of None] rj by simp
qed

text \<open>C13. A failure to record a shim in the cache aborts the second loop: when \<open>writeCache\<close> throws inside \<open>cjsBundling\<close>, the loop throws the same error and no later dependency is processed, so the config hook rejects (the spec makes a cache-write failure fatal only for that artifact's caching step).\<close>

theorem cache_write_failure_aborts:
  assumes dep: "dep_cjs d = Some n" "n \<noteq> []" "dep_filename d = Some fn"
    and dst: "dest nm n (acc_world a) = Inr (dp, w1)"
    and miss: "check_hash (md5 e) (wfs w1) c (destname dp) = Inr False"
    and keys: "module_keys e (wfs w1) fn = Some keys"
    and wr: "write_file (wfs w1) (destname dp) (shim_code e n keys) = Inr f3"
    and wc: "write_cache (md5 e) (clock w1) f3 c (destname dp) = Inl err"
  shows "process_deps e nm c a (d # ds) = Inl err"
proof -
  have "ensure_dir (wfs w1) (destpath dp) = Inr (wfs w1)"
    using ensure_dir_again dest_Inr [OF dst] by blast
  then have "cjs_bundling e nm c n n fn (acc_world a) = Inl err"
    using dst miss keys wr wc by (simp add: cjs_bundling_def)
  moreover have "resolve_dep_filename e d (acc_world a) = (Some fn, acc_world a)"
    using dep by (simp add: resolve_dep_filename_def)
  ultimately have "process_dep e nm c a d = Inl err"
    using dep by (simp add: process_dep_def truthy_def)
  then show ?thesis by simp
qed

theorem cache_write_failure_aborts_witness:
  "isl (process_deps demo_env demo_nm demo_cache
          \<lparr>acc_world = demo_bad_world, acc_aliases = [], acc_exclude = [], acc_tasks = []\<rparr>
          [cjs_dep ''lodash'' (Some (demo_nm @ [''lodash'', ''index.js''])), cjs_dep ''uuid'' (Some (demo_nm @ [''uuid'', ''index.js'']))])"
proof -
  let ?a = "\<lparr>acc_world = demo_bad_world, acc_aliases = [], acc_exclude = [], acc_tasks = []\<rparr>"
  let ?d = "cjs_dep ''lodash'' (Some (demo_nm @ [''lodash'', ''index.js'']))"
  let ?D = "projr (dest demo_nm ''lodash'' (acc_world ?a))"
  let ?f3 = "projr (write_file (wfs (snd ?D)) (destname (fst ?D)) (shim_code demo_env ''lodash'' [''a'', ''b'']))"
  have dep: "dep_cjs ?d = Some ''lodash''" "''lodash'' \<noteq> []" "dep_filename ?d = Some (demo_nm @ [''lodash'', ''index.js''])"
    by (simp_all add: cjs_dep_def)
  have "\<not> isl (dest demo_nm ''lodash'' (acc_world ?a))" by code_simp
  then have dst: "dest demo_nm ''lodash'' (acc_world ?a) = Inr (fst ?D, snd ?D)" using not_isl_Inr_projr by fastforce
  have miss: "check_hash (md5 demo_env) (wfs (snd ?D)) demo_cache (destname (fst ?D)) = Inr False" by code_simp
  have keys: "module_keys demo_env (wfs (snd ?D)) (demo_nm @ [''lodash'', ''index.js'']) = Some [''a'', ''b'']"
    by (simp add: demo_env_def)
  have "\<not> isl (write_file (wfs (snd ?D)) (destname (fst ?D)) (shim_code demo_env ''lodash'' [''a'', ''b'']))" by code_simp
  then have wr: "write_file (wfs (snd ?D)) (destname (fst ?D)) (shim_code demo_env ''lodash'' [''a'', ''b'']) = Inr ?f3"
    by (rule not_isl_Inr_projr)
  have "isl (write_cache (md5 demo_env) (clock (snd ?D)) ?f3 demo_cache (destname (fst ?D)))" by code_simp
  then have wc: "write_cache (md5 demo_env) (clock (snd ?D)) ?f3 demo_cache (destname (fst ?D))
      = Inl (projl (write_cache (md5 demo_env) (clock (snd ?D)) ?f3 demo_cache (destname (fst ?D))))"
    by (cases "write_cache (md5 demo_env) (clock (snd ?D)) ?f3 demo_cache (destname (fst ?D))") auto
  show ?thesis using cache_write_failure_aborts [OF dep dst miss keys wr wc] by simp
qed

end
