(* ===== verification/EventLoop.thy ===== *)
theory EventLoop
  imports Orchestrator
begin


subsection \<open>Lemmas\<close>







subsection \<open>Properties\<close>







end
