(* ===== verification/Spec2Isabelle.thy ===== *)
theory Spec2Isabelle
  imports EventLoop
begin

text \<open>
  \<^bold>\<open>A verification development of vite-plugin-electron-renderer.\<close>

  The repository's core is the \<open>optimizer\<close> plugin of
  \<open>src/src/optimizer.ts\<close>: a Vite \<open>config\<close> hook that pre-bundles the
  modules listed in \<open>include\<close> into CommonJS shims under
  \<open>node_modules/@sillot/vite-electron-renderer/<name>/index.js\<close>, keeps the
  MD5 digest of every generated file in \<open>_metadata.json\<close>, and hands the
  aliases to the shims and the exclusions to Vite.  Beside it,
  \<open>src/src/build-config.ts\<close> holds the \<open>builtins\<close> and \<open>build-config\<close>
  plugins and the two helpers every plugin uses to extend Vite's
  configuration.  The development is a shallow embedding: each function is a
  HOL function over explicit state, every \<open>throw\<close> is an \<open>Inl\<close> of a
  \<open>js_error\<close>, every loop is structural recursion over its list, and all
  definitions are executable, so the witnesses instantiate the theorems on a
  concrete project (\<open>demo_*\<close>) evaluated by \<open>code_simp\<close>.

  \<^bold>\<open>Theories.\<close>
  \<^item> \<open>Prelude\<close>: object literals as association lists (\<open>upd_prop\<close> is
    \<open>{...o, [k]: v}\<close>), string splitting, shared list and sum lemmas.
  \<^item> \<open>Fs\<close>: the part of Node's \<open>fs\<close> and \<open>path\<close> the code calls, as a model
    of the runtime: a file system is a map from segment lists to files and
    directories; \<open>existsSync\<close>, \<open>readFileSync\<close>, \<open>writeFileSync\<close> and
    \<open>mkdirSync(p, {recursive: true})\<close> return their failures as values.
    Lemmas: what \<open>ensure_dir\<close> (the guarded \<open>mkdirSync\<close>) adds, that it
    is idempotent, that it creates its target.
  \<^item> \<open>Json\<close>: \<open>JSON.stringify(v, null, 2)\<close> and \<open>JSON.parse\<close> as used on the
    metadata, and the property order of JavaScript objects (integer keys
    first).  The parser is a fuel-bounded recursive descent; the fuel
    \<open>2 * length s + 1\<close> is enough because every nested value of a printed
    text consumes at least one character per level (\<open>jfuel_le_length\<close>),
    and \<open>json_parse_stringify\<close> proves the round trip for every
    well-formed value.
  \<^item> \<open>Cache\<close>: class \<open>Cache\<close> (\<open>getHash\<close>, \<open>checkHash\<close>, \<open>readCache\<close>,
    \<open>writeCache\<close>, lines 224-288) with the JavaScript operations applied to
    the parsed metadata (destructuring with a default, \<open>Object.entries\<close>,
    property reads, spread), each of which may throw.  \<open>check_hash_ref\<close>
    is the reference lookup the scan is proved equal to.
  \<^item> \<open>BuildConfig\<close>: all of \<open>build-config.ts\<close>; Vite's \<open>UserConfig\<close> is a
    record of the fields the hooks touch.  \<open>ext_matches\<close> is Rollup's
    reading of an \<open>external\<close> option (regular expressions through a
    parameter), against which \<open>withExternal\<close> is proved a refinement of
    set union.
  \<^item> \<open>Resolver\<close>: the options type, the environment record of the
    libraries the code only calls (\<open>require.resolve\<close>, \<open>require\<close> for a
    module's keys, \<open>lib-esm\<close>, esbuild, the node_modules lookup, MD5), the
    world (file system, clock, console, unhandled rejections) and the first
    loop of the hook (lines 57-105); the concrete project \<open>demo_*\<close> used by
    the witnesses.  Lemmas: an entry nobody can resolve yields no
    dependency and a log line; typed entries are never dropped.
  \<^item> \<open>Bundler\<close>: \<open>dest\<close>, \<open>cjsBundling\<close> and \<open>esmBundling\<close> (lines
    149-220).  \<open>esmBundling\<close> is \<open>async\<close> and not awaited: its prefix up to
    \<open>await import('esbuild')\<close> is \<open>esm_bundling_start\<close>, run inside the hook
    (its throws become rejections); the rest is a \<open>task\<close> executed by
    \<open>run_task\<close> after the hook has returned.
  \<^item> \<open>Orchestrator\<close>: the second loop (lines 107-141), the hook
    \<open>optimizer_config\<close> (lines 43-145) and \<open>run_tasks\<close>, which runs pending
    continuations in a given order.  Lemmas: the decomposition of a
    successful hook into its two loops, and that the loops only append to
    the console and the rejections.
  \<^item> \<open>EventLoop\<close>: the inductive step relation \<open>loop_step\<close> in which any
    pending continuation may run next (the concurrent esbuild builds settle
    in any order); its complete runs are the permutations of the pending
    tasks, every run has at most as many steps as tasks, and the console and
    the rejections only grow.

  \<^bold>\<open>What is proved.\<close>  The cache round trip (\<open>writeCache\<close> then
  \<open>checkHash\<close> is true), the equivalence of \<open>checkHash\<close>'s scan with a key
  lookup, that \<open>writeCache\<close> merges and touches only the metadata file, and
  its error paths; classification of \<open>include\<close> entries; that
  \<open>cjsBundling\<close> writes and records the shim on a miss and is idempotent;
  that the hook emits one alias batch and one exclusion batch over the same
  names, drawn from \<open>include\<close>, with an unresolvable entry left out of both
  and logged; the schedules, termination and invariant of the event loop;
  and the properties of the configuration helpers.  Several theorems record where the
  code departs from the design it was written against: aliases are emitted
  before ES modules are built, and failed builds stay aliased; the cache key
  is the shim's digest, so a changed entry is not re-shimmed and a valid
  bundle hides a missing shim; a cache-write failure aborts the hook while a
  missing esbuild never reaches it; \<open>...buildOptions\<close> overrides the
  defaults; typed built-ins are bundled; \<open>{"optimized": null}\<close> throws.

  \<^bold>\<open>Not modelled.\<close>  \<open>src/index.ts\<close> and the cjs-shim plugin are not in the
  snapshot.  The runtime libraries (\<open>fs\<close>, \<open>path\<close>, JSON) are modelled in
  \<open>Fs\<close> and \<open>Json\<close> rather than verified; esbuild, \<open>lib-esm\<close>,
  \<open>require\<close>, \<open>require.resolve\<close>, MD5 and the node_modules lookup are
  parameters, so every general theorem holds for any behaviour of theirs.
  Colours of console output are dropped from log lines.  The pending
  continuations run one at a time in any order after the hook; their
  interleaving with later hooks of Vite, and esbuild reading the file system
  while other continuations write it, are not modelled (a build reads the
  file system when its continuation runs).
\<close>

end
